(* ===== verification/Prelude.thy ===== *)
theory Prelude
  imports Complex_Main
begin

text \<open>
  Shared vocabulary of the development: the named collections of definitions and frame
  facts, rows of a table as lists (selection, conditional update, deletion), uniqueness of
  a key column, the text of an integer as \<^verbatim>\<open>fmt\<close> prints it, and the string
  functions of Go's standard library that the program uses.
\<close>

named_theorems repo_defs \<open>definitions of the persistence layer\<close>
named_theorems svc_defs \<open>definitions of the use-case layer\<close>
named_theorems frame_simps \<open>what an operation leaves unchanged\<close>

section \<open>Rows of a table\<close>

definition upd_rows :: "('r \<Rightarrow> bool) \<Rightarrow> ('r \<Rightarrow> 'r) \<Rightarrow> 'r list \<Rightarrow> 'r list" where
  "upd_rows P f t = map (\<lambda>r. if P r then f r else r) t"

lemma upd_rows_Nil [simp]: "upd_rows P f [] = []"
  by (simp add: upd_rows_def)

lemma upd_rows_Cons [simp]:
  "upd_rows P f (r # t) = (if P r then f r else r) # upd_rows P f t"
  by (simp add: upd_rows_def)

lemma upd_rows_append [simp]: "upd_rows P f (s @ t) = upd_rows P f s @ upd_rows P f t"
  by (simp add: upd_rows_def)

lemma length_upd_rows [simp]: "length (upd_rows P f t) = length t"
  by (simp add: upd_rows_def)

lemma set_upd_rows: "set (upd_rows P f t) = (\<lambda>r. if P r then f r else r) ` set t"
  by (simp add: upd_rows_def)

lemma upd_rows_mem: "x \<in> set t \<Longrightarrow> (if P x then f x else x) \<in> set (upd_rows P f t)"
  by (auto simp: upd_rows_def)

lemma upd_rows_none: "filter P t = [] \<Longrightarrow> upd_rows P f t = t"
  by (induction t) (auto split: if_splits)

lemma map_upd_rows_same:
  "(\<And>r. P r \<Longrightarrow> g (f r) = g r) \<Longrightarrow> map g (upd_rows P f t) = map g t"
  by (induction t) auto

lemma filter_upd_rows_off:
  "(\<And>r. P r \<Longrightarrow> \<not> Q r) \<Longrightarrow> (\<And>r. P r \<Longrightarrow> \<not> Q (f r)) \<Longrightarrow> filter Q (upd_rows P f t) = filter Q t"
  by (induction t) auto

lemma find_append:
  "find P (s @ t) = (case find P s of None \<Rightarrow> find P t | Some r \<Rightarrow> Some r)"
  by (induction s) auto

lemma find_SomeD: "find P t = Some r \<Longrightarrow> r \<in> set t \<and> P r"
  by (induction t) (auto split: if_splits)

lemma find_NoneD: "find P t = None \<Longrightarrow> r \<in> set t \<Longrightarrow> \<not> P r"
  by (induction t) (auto split: if_splits)

lemma find_None_filter: "find P t = None \<longleftrightarrow> filter P t = []"
  by (induction t) auto

lemma find_upd_rows_off:
  "(\<And>r. P r \<Longrightarrow> \<not> Q r) \<Longrightarrow> (\<And>r. P r \<Longrightarrow> \<not> Q (f r)) \<Longrightarrow> find Q (upd_rows P f t) = find Q t"
  by (induction t) auto

lemma find_upd_rows_on:
  "(\<And>r. P r \<Longrightarrow> Q (f r) = Q r) \<Longrightarrow>
   find Q (upd_rows P f t) = map_option (\<lambda>r. if P r then f r else r) (find Q t)"
  by (induction t) auto

lemma filter_upd_rows_on:
  "(\<And>r. P r \<Longrightarrow> Q (f r) = Q r) \<Longrightarrow>
   filter Q (upd_rows P f t) = upd_rows P f (filter Q t)"
  by (induction t) auto

section \<open>A unique key column\<close>

text \<open>
  \<open>uniq_by key t\<close> is what a \<^verbatim>\<open>UNIQUE\<close> column promises of a table: at most
  one row per key. Lookups, updates and sums over such a table are computed here once.
\<close>

definition uniq_by :: "('r \<Rightarrow> 'k) \<Rightarrow> 'r list \<Rightarrow> bool" where
  "uniq_by key t \<longleftrightarrow> distinct (map key t)"

lemma uniq_by_Nil [simp]: "uniq_by key []"
  by (simp add: uniq_by_def)

lemma uniq_by_Cons: "uniq_by key (a # t) \<longleftrightarrow> (\<forall>r\<in>set t. key r \<noteq> key a) \<and> uniq_by key t"
  by (auto simp: uniq_by_def) (metis imageI)

lemma uniq_by_snoc:
  "find (\<lambda>x. key x = key r) t = None \<Longrightarrow> uniq_by key t \<Longrightarrow> uniq_by key (t @ [r])"
  by (auto simp: uniq_by_def dest: find_NoneD)

lemma uniq_by_upd:
  "(\<And>r. P r \<Longrightarrow> key (f r) = key r) \<Longrightarrow> uniq_by key (upd_rows P f t) = uniq_by key t"
  by (simp add: uniq_by_def map_upd_rows_same)

lemma uniq_by_filter: "uniq_by key t \<Longrightarrow> uniq_by key (filter P t)"
  by (simp add: uniq_by_def distinct_map_filter)

lemma uniq_by_find:
  "uniq_by key t \<Longrightarrow> r \<in> set t \<Longrightarrow> key r = k \<Longrightarrow> find (\<lambda>x. key x = k) t = Some r"
  by (induction t) (auto simp: uniq_by_Cons)

lemma uniq_by_eq:
  "uniq_by key t \<Longrightarrow> r \<in> set t \<Longrightarrow> s \<in> set t \<Longrightarrow> key r = key s \<Longrightarrow> r = s"
  by (metis uniq_by_find option.inject)

lemma filter_key_other: "\<forall>r\<in>set t. key r \<noteq> k \<Longrightarrow> filter (\<lambda>x. key x = k) t = []"
  by (simp add: filter_empty_conv)

lemma uniq_by_filter_key:
  "uniq_by key t \<Longrightarrow> filter (\<lambda>x. key x = k) t =
     (case find (\<lambda>x. key x = k) t of None \<Rightarrow> [] | Some r \<Rightarrow> [r])"
  by (induction t) (auto simp: uniq_by_Cons filter_key_other)

lemma uniq_by_sum_upd:
  fixes g :: "'r \<Rightarrow> 'v::ab_group_add"
  assumes "uniq_by key t" and "find (\<lambda>x. key x = k) t = Some r"
  shows "sum_list (map g (upd_rows (\<lambda>x. key x = k) f t)) = sum_list (map g t) - g r + g (f r)"
  using assms
proof (induction t)
  case Nil
  then show ?case by simp
next
  case (Cons a t)
  show ?case
  proof (cases "key a = k")
    case True
    then have "upd_rows (\<lambda>x. key x = k) f t = t"
      using Cons.prems by (intro upd_rows_none filter_key_other) (auto simp: uniq_by_Cons)
    with True Cons.prems show ?thesis by simp
  next
    case False
    with Cons show ?thesis by (simp add: uniq_by_Cons algebra_simps)
  qed
qed

section \<open>Text of integers\<close>

text \<open>\<open>itoa\<close> is \<^verbatim>\<open>fmt\<close>'s \<^verbatim>\<open>%d\<close>; \<open>atoi\<close> is
  \<^verbatim>\<open>strconv.ParseInt(s, 10, 64)\<close>, \<open>None\<close> for its error.\<close>

definition digit_char :: "nat \<Rightarrow> char" where
  "digit_char d = char_of (48 + d)"

fun digits_of :: "nat \<Rightarrow> string" where
  "digits_of n = (if n < 10 then [digit_char n] else digits_of (n div 10) @ [digit_char (n mod 10)])"

declare digits_of.simps [simp del]

definition itoa :: "int \<Rightarrow> string" where
  "itoa n = (if n < 0 then CHR ''-'' # digits_of (nat (- n)) else digits_of (nat n))"

definition is_digit :: "char \<Rightarrow> bool" where
  "is_digit c \<longleftrightarrow> 48 \<le> (of_char c :: nat) \<and> (of_char c :: nat) \<le> 57"

definition digit_val :: "char \<Rightarrow> int" where
  "digit_val c = int (of_char c) - 48"

definition digits_val :: "string \<Rightarrow> int" where
  "digits_val s = foldl (\<lambda>acc c. 10 * acc + digit_val c) 0 s"

definition atoi :: "string \<Rightarrow> int option" where
  "atoi s =
    (let (neg, ds) = (case s of [] \<Rightarrow> (False, []) | c # cs \<Rightarrow>
        if c = CHR ''-'' then (True, cs) else if c = CHR ''+'' then (False, cs) else (False, s))
     in if ds \<noteq> [] \<and> list_all is_digit ds
        then (let n = (if neg then - digits_val ds else digits_val ds)
              in if - (2 ^ 63) \<le> n \<and> n < 2 ^ 63 then Some n else None)
        else None)"

lemma of_char_digit: "d < 10 \<Longrightarrow> (of_char (digit_char d) :: nat) = 48 + d"
  by (simp add: digit_char_def)

lemma is_digit_digit [simp]: "d < 10 \<Longrightarrow> is_digit (digit_char d)"
  by (simp add: is_digit_def of_char_digit)

lemma digit_val_digit [simp]: "d < 10 \<Longrightarrow> digit_val (digit_char d) = int d"
  using of_char_digit [of d] by (simp add: digit_val_def)

lemma digits_of_digits: "list_all is_digit (digits_of n)"
proof (induction n rule: digits_of.induct)
  case (1 n)
  then show ?case by (subst digits_of.simps) auto
qed

lemma digits_of_nonempty [simp]: "digits_of n \<noteq> []"
  by (subst digits_of.simps) simp

lemma digits_val_snoc: "digits_val (s @ [c]) = 10 * digits_val s + digit_val c"
  by (simp add: digits_val_def)

lemma digits_val_digits_of: "digits_val (digits_of n) = int n"
proof (induction n rule: digits_of.induct)
  case (1 n)
  show ?case
  proof (cases "n < 10")
    case True
    then show ?thesis by (subst digits_of.simps) (simp add: digits_val_def)
  next
    case False
    then have "digits_val (digits_of n) = 10 * int (n div 10) + int (n mod 10)"
      using "1.IH" by (subst digits_of.simps) (simp add: digits_val_snoc)
    then show ?thesis by presburger
  qed
qed

lemma digits_of_sign: "digits_of n = c # cs \<Longrightarrow> c \<noteq> CHR ''-'' \<and> c \<noteq> CHR ''+''"
  using digits_of_digits [of n] by (auto simp: is_digit_def)

lemma atoi_itoa: "- (2 ^ 63) \<le> n \<Longrightarrow> n < 2 ^ 63 \<Longrightarrow> atoi (itoa n) = Some n"
proof (cases "n < 0")
  case True
  assume "- (2 ^ 63) \<le> n" and "n < 2 ^ 63"
  with True show ?thesis
    by (simp add: atoi_def itoa_def digits_of_digits digits_val_digits_of)
next
  case False
  assume b: "- (2 ^ 63) \<le> n" "n < 2 ^ 63"
  obtain c cs where cs: "digits_of (nat n) = c # cs"
    using digits_of_nonempty [of "nat n"] by (cases "digits_of (nat n)") auto
  note digits_of_sign [OF this]
  moreover have "list_all is_digit (c # cs)" and "digits_val (c # cs) = n"
    using digits_of_digits [of "nat n"] digits_val_digits_of [of "nat n"] cs False by simp_all
  ultimately show ?thesis using False cs b by (simp add: atoi_def itoa_def)
qed

lemma itoa_inj: "- (2 ^ 63) \<le> m \<Longrightarrow> m < 2 ^ 63 \<Longrightarrow> - (2 ^ 63) \<le> n \<Longrightarrow> n < 2 ^ 63 \<Longrightarrow> itoa m = itoa n \<longleftrightarrow> m = n"
  using atoi_itoa by (metis option.inject)

lemma itoa_eq: "itoa m = itoa n \<longleftrightarrow> m = n"
proof
  assume e: "itoa m = itoa n"
  have sign: "k < 0 \<longleftrightarrow> (\<exists>cs. itoa k = CHR ''-'' # cs)" for k
    using digits_of_sign [of "nat k"] by (cases "digits_of (nat k)") (auto simp: itoa_def)
  have val: "k = (if k < 0 then - digits_val (tl (itoa k)) else digits_val (itoa k))" for k
    by (simp add: itoa_def digits_val_digits_of)
  show "m = n" using sign [of m] sign [of n] val [of m] val [of n] e by (cases "m < 0") auto
qed simp

section \<open>Text\<close>

text \<open>
  Strings are sequences of bytes. \<^verbatim>\<open>strings.ToUpper\<close>, \<^verbatim>\<open>strings.ToLower\<close> and
  \<^verbatim>\<open>strings.TrimSpace\<close> are modelled on their ASCII part; other bytes are left alone.
\<close>

definition upper_char :: "char \<Rightarrow> char" where
  "upper_char c = (let k = (of_char c :: nat) in if 97 \<le> k \<and> k \<le> 122 then char_of (k - 32) else c)"

definition lower_char :: "char \<Rightarrow> char" where
  "lower_char c = (let k = (of_char c :: nat) in if 65 \<le> k \<and> k \<le> 90 then char_of (k + 32) else c)"

definition ToUpper :: "string \<Rightarrow> string" where
  "ToUpper s = map upper_char s"

definition ToLower :: "string \<Rightarrow> string" where
  "ToLower s = map lower_char s"

definition is_space :: "char \<Rightarrow> bool" where
  "is_space c \<longleftrightarrow> (of_char c :: nat) \<in> {9, 10, 11, 12, 13, 32}"

definition TrimSpace :: "string \<Rightarrow> string" where
  "TrimSpace s = rev (dropWhile is_space (rev (dropWhile is_space s)))"

definition has_prefix :: "string \<Rightarrow> string \<Rightarrow> bool" where
  "has_prefix p s \<longleftrightarrow> take (length p) s = p"

fun contains :: "string \<Rightarrow> string \<Rightarrow> bool" where
  "contains [] p \<longleftrightarrow> p = []"
| "contains (c # cs) p \<longleftrightarrow> has_prefix p (c # cs) \<or> contains cs p"

lemma has_prefix_append [simp]: "has_prefix p (p @ s)"
  by (simp add: has_prefix_def)

text \<open>\<^verbatim>\<open>%q\<close> of a text without control characters.\<close>

definition go_quote :: "string \<Rightarrow> string" where
  "go_quote s = [CHR 0x22] @ concat (map (\<lambda>c. if c = CHR 0x22 \<or> c = CHR 0x5C then [CHR 0x5C, c] else [c]) s) @ [CHR 0x22]"

text \<open>\<^verbatim>\<open>%X\<close> of a natural number.\<close>


definition hex_digit :: "nat \<Rightarrow> char" where
  "hex_digit k = (if k < 10 then char_of (48 + k) else char_of (55 + k))"

fun hex_of :: "nat \<Rightarrow> string" where
  "hex_of n = (if n < 16 then [hex_digit n] else hex_of (n div 16) @ [hex_digit (n mod 16)])"

declare hex_of.simps [simp del]

end
