(* ===== verification/Entities.thy ===== *)
theory Entities
  imports Prelude
begin

text \<open>
  The data model: one record per struct of \<^verbatim>\<open>internal/domain/entity\<close>, with the
  struct's field names behind a short prefix, the event envelope of
  \<^verbatim>\<open>internal/pkg/event\<close> and the read model of the overview endpoint.
  A \<^verbatim>\<open>float64\<close> amount is the decimal it denotes, a rational; a
  \<^verbatim>\<open>time.Time\<close> is a number of nanoseconds since the Unix epoch (UTC); a pointer
  to a value is an option; a \<^verbatim>\<open>json.RawMessage\<close> is the document it holds. For a
  struct \<open>T\<close>, \<open>T0\<close> is its zero value, so that the composite literal
  \<^verbatim>\<open>T{F: x}\<close> is \<open>T0\<lparr>F := x\<rparr>\<close>.
\<close>

type_synonym time = int

definition zero_time :: time where
  "zero_time = - 62135596800000000000"

datatype json =
    JNull
  | JBool bool
  | JNum rat
  | JStr string
  | JArr "json list"
  | JObj "(string \<times> json) list"

section \<open>Constants\<close>

abbreviation (input) "TxTypeTopup \<equiv> ''topup''"
abbreviation (input) "TxTypeSubscription \<equiv> ''subscription''"
abbreviation (input) "TxTypeProductPurchase \<equiv> ''product_purchase''"
abbreviation (input) "TxTypeRefund \<equiv> ''refund''"
abbreviation (input) "TxTypeBonus \<equiv> ''bonus''"
abbreviation (input) "TxTypeReferralReward \<equiv> ''referral_reward''"
abbreviation (input) "TxTypeRedemption \<equiv> ''redemption''"
abbreviation (input) "TxTypeCheckinReward \<equiv> ''checkin_reward''"

abbreviation (input) "OrderStatusPending \<equiv> ''pending''"
abbreviation (input) "OrderStatusPaid \<equiv> ''paid''"
abbreviation (input) "OrderStatusFailed \<equiv> ''failed''"
abbreviation (input) "OrderStatusCancelled \<equiv> ''cancelled''"
abbreviation (input) "OrderStatusRefunded \<equiv> ''refunded''"

abbreviation (input) "SubStatusPending \<equiv> ''pending''"
abbreviation (input) "SubStatusTrial \<equiv> ''trial''"
abbreviation (input) "SubStatusActive \<equiv> ''active''"
abbreviation (input) "SubStatusGrace \<equiv> ''grace''"
abbreviation (input) "SubStatusExpired \<equiv> ''expired''"
abbreviation (input) "SubStatusCancelled \<equiv> ''cancelled''"
abbreviation (input) "SubStatusSuspended \<equiv> ''suspended''"

abbreviation (input) "RefundStatusPending \<equiv> ''pending''"
abbreviation (input) "RefundStatusApproved \<equiv> ''approved''"
abbreviation (input) "RefundStatusRejected \<equiv> ''rejected''"
abbreviation (input) "RefundStatusCompleted \<equiv> ''completed''"

abbreviation (input) "InvoiceStatusDraft \<equiv> ''draft''"
abbreviation (input) "InvoiceStatusIssued \<equiv> ''issued''"

abbreviation (input) "BillingCycleForever \<equiv> ''forever''"
abbreviation (input) "BillingCycleWeekly \<equiv> ''weekly''"
abbreviation (input) "BillingCycleMonthly \<equiv> ''monthly''"
abbreviation (input) "BillingCycleQuarterly \<equiv> ''quarterly''"
abbreviation (input) "BillingCycleYearly \<equiv> ''yearly''"
abbreviation (input) "BillingCycleOneTime \<equiv> ''one_time''"

abbreviation (input) "AccountStatusActive \<equiv> (1::int)"
abbreviation (input) "AccountStatusSuspended \<equiv> (2::int)"
abbreviation (input) "AccountStatusDeleted \<equiv> (3::int)"

section \<open>Records\<close>

subsection \<open>Wallet, ledger, orders, codes\<close>

record Wallet =
  wal_ID :: int
  wal_AccountID :: int
  wal_Balance :: rat
  wal_Frozen :: rat
  wal_LifetimeTopup :: rat
  wal_LifetimeSpend :: rat

definition Wallet0 :: Wallet where
  "Wallet0 = \<lparr>wal_ID = 0, wal_AccountID = 0, wal_Balance = 0, wal_Frozen = 0,
     wal_LifetimeTopup = 0, wal_LifetimeSpend = 0\<rparr>"

record WalletTransaction =
  tx_ID :: int
  tx_WalletID :: int
  tx_AccountID :: int
  tx_Type :: string
  tx_Amount :: rat
  tx_BalanceAfter :: rat
  tx_ProductID :: string
  tx_ReferenceType :: string
  tx_ReferenceID :: string
  tx_Description :: string
  tx_Metadata :: json
  tx_CreatedAt :: time

definition WalletTransaction0 :: WalletTransaction where
  "WalletTransaction0 = \<lparr>tx_ID = 0, tx_WalletID = 0, tx_AccountID = 0, tx_Type = '''',
     tx_Amount = 0, tx_BalanceAfter = 0, tx_ProductID = '''', tx_ReferenceType = '''',
     tx_ReferenceID = '''', tx_Description = '''', tx_Metadata = JNull,
     tx_CreatedAt = zero_time\<rparr>"

record PaymentOrder =
  ord_ID :: int
  ord_AccountID :: int
  ord_OrderNo :: string
  ord_OrderType :: string
  ord_ProductID :: string
  ord_PlanID :: "int option"
  ord_AmountCNY :: rat
  ord_Currency :: string
  ord_PaymentMethod :: string
  ord_Status :: string
  ord_ExternalID :: string
  ord_PaidAt :: "time option"
  ord_CallbackData :: json
  ord_CreatedAt :: time
  ord_UpdatedAt :: time

definition PaymentOrder0 :: PaymentOrder where
  "PaymentOrder0 = \<lparr>ord_ID = 0, ord_AccountID = 0, ord_OrderNo = '''',
     ord_OrderType = '''', ord_ProductID = '''', ord_PlanID = None, ord_AmountCNY = 0,
     ord_Currency = '''', ord_PaymentMethod = '''', ord_Status = '''', ord_ExternalID = '''',
     ord_PaidAt = None, ord_CallbackData = JNull, ord_CreatedAt = zero_time,
     ord_UpdatedAt = zero_time\<rparr>"

record RedemptionCode =
  rc_ID :: int
  rc_Code :: string
  rc_ProductID :: string
  rc_RewardType :: string
  rc_RewardValue :: rat
  rc_RewardMetadata :: json
  rc_MaxUses :: int
  rc_UsedCount :: int
  rc_ExpiresAt :: "time option"
  rc_BatchID :: string
  rc_CreatedBy :: "int option"
  rc_CreatedAt :: time

definition RedemptionCode0 :: RedemptionCode where
  "RedemptionCode0 = \<lparr>rc_ID = 0, rc_Code = '''', rc_ProductID = '''',
     rc_RewardType = '''', rc_RewardValue = 0, rc_RewardMetadata = JNull, rc_MaxUses = 0,
     rc_UsedCount = 0, rc_ExpiresAt = None, rc_BatchID = '''', rc_CreatedBy = None,
     rc_CreatedAt = zero_time\<rparr>"

subsection \<open>Accounts\<close>

record Account =
  acc_ID :: int
  acc_LurusID :: string
  acc_ZitadelSub :: string
  acc_DisplayName :: string
  acc_AvatarURL :: string
  acc_Email :: string
  acc_EmailVerified :: bool
  acc_Phone :: string
  acc_PhoneVerified :: bool
  acc_Status :: int
  acc_Locale :: string
  acc_Username :: string
  acc_ReferrerID :: "int option"
  acc_AffCode :: string
  acc_CreatedAt :: time
  acc_UpdatedAt :: time

definition Account0 :: Account where
  "Account0 = \<lparr>acc_ID = 0, acc_LurusID = '''', acc_ZitadelSub = '''',
     acc_DisplayName = '''', acc_AvatarURL = '''', acc_Email = '''',
     acc_EmailVerified = False, acc_Phone = '''', acc_PhoneVerified = False, acc_Status = 0,
     acc_Locale = '''', acc_Username = '''', acc_ReferrerID = None, acc_AffCode = '''',
     acc_CreatedAt = zero_time, acc_UpdatedAt = zero_time\<rparr>"

record OAuthBinding =
  oab_ID :: int
  oab_AccountID :: int
  oab_Provider :: string
  oab_ProviderID :: string
  oab_ProviderEmail :: string
  oab_CreatedAt :: time

definition OAuthBinding0 :: OAuthBinding where
  "OAuthBinding0 = \<lparr>oab_ID = 0, oab_AccountID = 0, oab_Provider = '''',
     oab_ProviderID = '''', oab_ProviderEmail = '''', oab_CreatedAt = zero_time\<rparr>"

subsection \<open>Products and plans\<close>

record Product =
  prd_ID :: string
  prd_Name :: string
  prd_Description :: string
  prd_Category :: string
  prd_BillingModel :: string
  prd_Status :: int
  prd_SortOrder :: int
  prd_Config :: json

definition Product0 :: Product where
  "Product0 = \<lparr>prd_ID = '''', prd_Name = '''', prd_Description = '''',
     prd_Category = '''', prd_BillingModel = '''', prd_Status = 0, prd_SortOrder = 0,
     prd_Config = JNull\<rparr>"

record ProductPlan =
  plan_ID :: int
  plan_ProductID :: string
  plan_Code :: string
  plan_Name :: string
  plan_BillingCycle :: string
  plan_PriceCNY :: rat
  plan_PriceUSD :: rat
  plan_IsDefault :: bool
  plan_SortOrder :: int
  plan_Status :: int
  plan_Features :: json
  plan_CreatedAt :: time
  plan_UpdatedAt :: time

definition ProductPlan0 :: ProductPlan where
  "ProductPlan0 = \<lparr>plan_ID = 0, plan_ProductID = '''', plan_Code = '''',
     plan_Name = '''', plan_BillingCycle = '''', plan_PriceCNY = 0, plan_PriceUSD = 0,
     plan_IsDefault = False, plan_SortOrder = 0, plan_Status = 0, plan_Features = JNull,
     plan_CreatedAt = zero_time, plan_UpdatedAt = zero_time\<rparr>"

subsection \<open>Subscriptions and entitlements\<close>

record Subscription =
  sub_ID :: int
  sub_AccountID :: int
  sub_ProductID :: string
  sub_PlanID :: int
  sub_Status :: string
  sub_StartedAt :: "time option"
  sub_ExpiresAt :: "time option"
  sub_GraceUntil :: "time option"
  sub_AutoRenew :: bool
  sub_PaymentMethod :: string
  sub_ExternalSubID :: string
  sub_CreatedAt :: time
  sub_UpdatedAt :: time
  sub_RenewalAttempts :: int
  sub_NextRenewalAt :: "time option"

definition Subscription0 :: Subscription where
  "Subscription0 = \<lparr>sub_ID = 0, sub_AccountID = 0, sub_ProductID = '''',
     sub_PlanID = 0, sub_Status = '''', sub_StartedAt = None, sub_ExpiresAt = None,
     sub_GraceUntil = None, sub_AutoRenew = False, sub_PaymentMethod = '''',
     sub_ExternalSubID = '''', sub_CreatedAt = zero_time, sub_UpdatedAt = zero_time,
     sub_RenewalAttempts = 0, sub_NextRenewalAt = None\<rparr>"

record AccountEntitlement =
  ent_ID :: int
  ent_AccountID :: int
  ent_ProductID :: string
  ent_Key :: string
  ent_Value :: string
  ent_ValueType :: string
  ent_Source :: string
  ent_SourceRef :: string
  ent_ExpiresAt :: "time option"

definition AccountEntitlement0 :: AccountEntitlement where
  "AccountEntitlement0 = \<lparr>ent_ID = 0, ent_AccountID = 0, ent_ProductID = '''',
     ent_Key = '''', ent_Value = '''', ent_ValueType = '''', ent_Source = '''',
     ent_SourceRef = '''', ent_ExpiresAt = None\<rparr>"

subsection \<open>VIP\<close>

record AccountVIP =
  vip_AccountID :: int
  vip_Level :: int
  vip_LevelName :: string
  vip_Points :: int
  vip_YearlySubGrant :: int
  vip_SpendGrant :: int
  vip_LevelExpiresAt :: "time option"
  vip_UpdatedAt :: time

definition AccountVIP0 :: AccountVIP where
  "AccountVIP0 = \<lparr>vip_AccountID = 0, vip_Level = 0, vip_LevelName = '''',
     vip_Points = 0, vip_YearlySubGrant = 0, vip_SpendGrant = 0, vip_LevelExpiresAt = None,
     vip_UpdatedAt = zero_time\<rparr>"

record VIPLevelConfig =
  vlc_Level :: int
  vlc_Name :: string
  vlc_MinSpendCNY :: rat
  vlc_YearlySubMinPlan :: string
  vlc_GlobalDiscount :: rat
  vlc_PerksJSON :: json

definition VIPLevelConfig0 :: VIPLevelConfig where
  "VIPLevelConfig0 = \<lparr>vlc_Level = 0, vlc_Name = '''', vlc_MinSpendCNY = 0,
     vlc_YearlySubMinPlan = '''', vlc_GlobalDiscount = 0, vlc_PerksJSON = JNull\<rparr>"

subsection \<open>Refunds\<close>

record Refund =
  rfd_ID :: int
  rfd_RefundNo :: string
  rfd_AccountID :: int
  rfd_OrderNo :: string
  rfd_AmountCNY :: rat
  rfd_Reason :: string
  rfd_Status :: string
  rfd_ReviewNote :: string
  rfd_ReviewedBy :: string
  rfd_ReviewedAt :: "time option"
  rfd_CompletedAt :: "time option"
  rfd_CreatedAt :: time
  rfd_UpdatedAt :: time

definition Refund0 :: Refund where
  "Refund0 = \<lparr>rfd_ID = 0, rfd_RefundNo = '''', rfd_AccountID = 0, rfd_OrderNo = '''',
     rfd_AmountCNY = 0, rfd_Reason = '''', rfd_Status = '''', rfd_ReviewNote = '''',
     rfd_ReviewedBy = '''', rfd_ReviewedAt = None, rfd_CompletedAt = None,
     rfd_CreatedAt = zero_time, rfd_UpdatedAt = zero_time\<rparr>"

subsection \<open>Invoices\<close>

record InvoiceLineItem =
  ili_Description :: string
  ili_Quantity :: int
  ili_UnitPrice :: rat
  ili_Amount :: rat

definition InvoiceLineItem0 :: InvoiceLineItem where
  "InvoiceLineItem0 = \<lparr>ili_Description = '''', ili_Quantity = 0, ili_UnitPrice = 0,
     ili_Amount = 0\<rparr>"

record Invoice =
  inv_ID :: int
  inv_InvoiceNo :: string
  inv_AccountID :: int
  inv_OrderNo :: string
  inv_IssueDate :: time
  inv_LineItems :: json
  inv_SubtotalCNY :: rat
  inv_TotalCNY :: rat
  inv_Currency :: string
  inv_Status :: string
  inv_CreatedAt :: time
  inv_UpdatedAt :: time

definition Invoice0 :: Invoice where
  "Invoice0 = \<lparr>inv_ID = 0, inv_InvoiceNo = '''', inv_AccountID = 0, inv_OrderNo = '''',
     inv_IssueDate = zero_time, inv_LineItems = JNull, inv_SubtotalCNY = 0, inv_TotalCNY = 0,
     inv_Currency = '''', inv_Status = '''', inv_CreatedAt = zero_time,
     inv_UpdatedAt = zero_time\<rparr>"

subsection \<open>Referral events\<close>

record ReferralRewardEvent =
  rre_ID :: int
  rre_ReferrerID :: int
  rre_RefereeID :: int
  rre_EventType :: string
  rre_RewardCredits :: rat
  rre_Status :: string
  rre_TriggeredAt :: time

definition ReferralRewardEvent0 :: ReferralRewardEvent where
  "ReferralRewardEvent0 = \<lparr>rre_ID = 0, rre_ReferrerID = 0, rre_RefereeID = 0,
     rre_EventType = '''', rre_RewardCredits = 0, rre_Status = '''',
     rre_TriggeredAt = zero_time\<rparr>"

subsection \<open>Check-ins\<close>

record Checkin =
  chk_ID :: int
  chk_AccountID :: int
  chk_CheckinDate :: string
  chk_RewardType :: string
  chk_RewardValue :: rat
  chk_CreatedAt :: time

definition Checkin0 :: Checkin where
  "Checkin0 = \<lparr>chk_ID = 0, chk_AccountID = 0, chk_CheckinDate = '''',
     chk_RewardType = '''', chk_RewardValue = 0, chk_CreatedAt = zero_time\<rparr>"

subsection \<open>Organizations\<close>

record Organization =
  org_ID :: int
  org_Name :: string
  org_Slug :: string
  org_OwnerAccountID :: int
  org_Status :: string
  org_Plan :: string
  org_CreatedAt :: time
  org_UpdatedAt :: time

definition Organization0 :: Organization where
  "Organization0 = \<lparr>org_ID = 0, org_Name = '''', org_Slug = '''',
     org_OwnerAccountID = 0, org_Status = '''', org_Plan = '''', org_CreatedAt = zero_time,
     org_UpdatedAt = zero_time\<rparr>"

record OrgMember =
  mem_OrgID :: int
  mem_AccountID :: int
  mem_Role :: string
  mem_JoinedAt :: time

definition OrgMember0 :: OrgMember where
  "OrgMember0 = \<lparr>mem_OrgID = 0, mem_AccountID = 0, mem_Role = '''',
     mem_JoinedAt = zero_time\<rparr>"

record OrgAPIKey =
  key_ID :: int
  key_OrgID :: int
  key_KeyHash :: string
  key_KeyPrefix :: string
  key_Name :: string
  key_CreatedBy :: int
  key_LastUsedAt :: "time option"
  key_Status :: string
  key_CreatedAt :: time

definition OrgAPIKey0 :: OrgAPIKey where
  "OrgAPIKey0 = \<lparr>key_ID = 0, key_OrgID = 0, key_KeyHash = '''', key_KeyPrefix = '''',
     key_Name = '''', key_CreatedBy = 0, key_LastUsedAt = None, key_Status = '''',
     key_CreatedAt = zero_time\<rparr>"

record OrgWallet =
  owl_OrgID :: int
  owl_Balance :: rat
  owl_Frozen :: rat
  owl_LifetimeTopup :: rat
  owl_LifetimeSpend :: rat
  owl_UpdatedAt :: time

definition OrgWallet0 :: OrgWallet where
  "OrgWallet0 = \<lparr>owl_OrgID = 0, owl_Balance = 0, owl_Frozen = 0, owl_LifetimeTopup = 0,
     owl_LifetimeSpend = 0, owl_UpdatedAt = zero_time\<rparr>"

subsection \<open>Outbox\<close>

record OutboxEvent =
  obx_ID :: int
  obx_EventID :: string
  obx_Subject :: string
  obx_Payload :: json
  obx_CreatedAt :: time
  obx_PublishedAt :: "time option"
  obx_Attempts :: int
  obx_LastError :: string

definition OutboxEvent0 :: OutboxEvent where
  "OutboxEvent0 = \<lparr>obx_ID = 0, obx_EventID = '''', obx_Subject = '''',
     obx_Payload = JNull, obx_CreatedAt = zero_time, obx_PublishedAt = None, obx_Attempts = 0,
     obx_LastError = ''''\<rparr>"

subsection \<open>Settings\<close>

record AdminSetting =
  ads_Key :: string
  ads_Value :: string
  ads_IsSecret :: bool
  ads_UpdatedBy :: string
  ads_UpdatedAt :: time

definition AdminSetting0 :: AdminSetting where
  "AdminSetting0 = \<lparr>ads_Key = '''', ads_Value = '''', ads_IsSecret = False,
     ads_UpdatedBy = '''', ads_UpdatedAt = zero_time\<rparr>"

subsection \<open>Events\<close>

record IdentityEvent =
  ev_EventID :: string
  ev_EventType :: string
  ev_AccountID :: int
  ev_LurusID :: string
  ev_ProductID :: string
  ev_Payload :: json
  ev_OccurredAt :: time

definition IdentityEvent0 :: IdentityEvent where
  "IdentityEvent0 = \<lparr>ev_EventID = '''', ev_EventType = '''', ev_AccountID = 0,
     ev_LurusID = '''', ev_ProductID = '''', ev_Payload = JNull, ev_OccurredAt = zero_time\<rparr>"

subsection \<open>The overview read model\<close>

record AccountSummary =
  asum_ID :: int
  asum_LurusID :: string
  asum_DisplayName :: string
  asum_AvatarURL :: string

definition AccountSummary0 :: AccountSummary where
  "AccountSummary0 = \<lparr>asum_ID = 0, asum_LurusID = '''', asum_DisplayName = '''',
     asum_AvatarURL = ''''\<rparr>"

record VIPSummary =
  vsum_Level :: int
  vsum_LevelName :: string
  vsum_LevelEN :: string
  vsum_Points :: int
  vsum_LevelExpiresAt :: "time option"

definition VIPSummary0 :: VIPSummary where
  "VIPSummary0 = \<lparr>vsum_Level = 0, vsum_LevelName = '''', vsum_LevelEN = '''',
     vsum_Points = 0, vsum_LevelExpiresAt = None\<rparr>"

record WalletSummary =
  wsum_Balance :: rat
  wsum_Frozen :: rat
  wsum_DiscountRate :: rat
  wsum_DiscountTier :: string

definition WalletSummary0 :: WalletSummary where
  "WalletSummary0 = \<lparr>wsum_Balance = 0, wsum_Frozen = 0, wsum_DiscountRate = 0,
     wsum_DiscountTier = ''''\<rparr>"

record SubscriptionSummary =
  ssum_ProductID :: string
  ssum_PlanCode :: string
  ssum_Status :: string
  ssum_ExpiresAt :: "time option"
  ssum_AutoRenew :: bool

definition SubscriptionSummary0 :: SubscriptionSummary where
  "SubscriptionSummary0 = \<lparr>ssum_ProductID = '''', ssum_PlanCode = '''',
     ssum_Status = '''', ssum_ExpiresAt = None, ssum_AutoRenew = False\<rparr>"

record AccountOverview =
  ov_Account :: AccountSummary
  ov_VIP :: VIPSummary
  ov_Wallet :: WalletSummary
  ov_Subscription :: "SubscriptionSummary option"
  ov_TopupURL :: string

definition AccountOverview0 :: AccountOverview where
  "AccountOverview0 = \<lparr>ov_Account = AccountSummary0, ov_VIP = VIPSummary0,
     ov_Wallet = WalletSummary0, ov_Subscription = None, ov_TopupURL = ''''\<rparr>"

section \<open>Methods of the entities\<close>

definition IsActive :: "Account \<Rightarrow> bool" where
  "IsActive a \<longleftrightarrow> acc_Status a = AccountStatusActive"

definition IsLive :: "Subscription \<Rightarrow> bool" where
  "IsLive s \<longleftrightarrow> sub_Status s = SubStatusActive \<or> sub_Status s = SubStatusGrace
     \<or> sub_Status s = SubStatusTrial"

text \<open>\<^verbatim>\<open>fmt.Sprintf("%07d", id)\<close>: at least seven characters, the sign counted.\<close>

definition pad_int :: "nat \<Rightarrow> int \<Rightarrow> string" where
  "pad_int width n =
    (if n < 0 then (let d = digits_of (nat (- n)) in CHR ''-'' # replicate (width - 1 - length d) CHR ''0'' @ d)
     else (let d = digits_of (nat n) in replicate (width - length d) CHR ''0'' @ d))"

definition GenerateLurusID :: "int \<Rightarrow> string" where
  "GenerateLurusID n = ''LU'' @ pad_int 7 n"

definition is_word_char :: "char \<Rightarrow> bool" where
  "is_word_char c \<longleftrightarrow> (let k = (of_char c :: nat) in
     (97 \<le> k \<and> k \<le> 122) \<or> (65 \<le> k \<and> k \<le> 90) \<or> (48 \<le> k \<and> k \<le> 57) \<or> k = 95)"

definition reUsername :: "string \<Rightarrow> bool" where
  "reUsername s \<longleftrightarrow> 3 \<le> length s \<and> length s \<le> 32 \<and> list_all is_word_char s"

definition rePhone :: "string \<Rightarrow> bool" where
  "rePhone s \<longleftrightarrow> length s = 11 \<and> list_all is_digit s \<and> s ! 0 = CHR ''1'' \<and> 51 \<le> (of_char (s ! 1) :: nat)"

definition ValidateUsername :: "string \<Rightarrow> bool" where
  "ValidateUsername s \<longleftrightarrow> s \<noteq> '''' \<and> (reUsername s \<or> rePhone s)"

definition IsPhoneNumber :: "string \<Rightarrow> bool" where
  "IsPhoneNumber s = rePhone s"

lemma rePhone_reUsername: "rePhone s \<Longrightarrow> reUsername s"
  by (auto simp: rePhone_def reUsername_def is_digit_def is_word_char_def list_all_iff)

end
