(* ===== verification/Money.thy ===== *)
theory Money
  imports Prelude
begin

text \<open>
  Amounts. A \<^verbatim>\<open>DECIMAL(p, s)\<close> column rounds what is stored to \<open>s\<close> digits, half away
  from zero (\<open>dec s\<close>); \<^verbatim>\<open>fmt\<close>'s \<^verbatim>\<open>%.2f\<close> prints a rounded decimal (\<open>fixed\<close>).
  \<open>f64\<close> is the rounding of the exact result of a \<^verbatim>\<open>float64\<close> operation to 53 bits,
  half to even: it is written out at the places where the Go code multiplies or divides
  amounts and the rounding shows.
\<close>

section \<open>Decimal columns\<close>

definition dec :: "nat \<Rightarrow> rat \<Rightarrow> rat" where
  "dec s x = (if 0 \<le> x then of_int \<lfloor>x * 10 ^ s + 1 / 2\<rfloor> / 10 ^ s
              else - (of_int \<lfloor>- x * 10 ^ s + 1 / 2\<rfloor> / 10 ^ s))"

text \<open>A value the column holds exactly.\<close>

definition is_dec :: "nat \<Rightarrow> rat \<Rightarrow> bool" where
  "is_dec s x \<longleftrightarrow> of_int \<lfloor>x * 10 ^ s\<rfloor> = x * 10 ^ s"

lemma is_decE: assumes "is_dec s x" obtains k :: int where "x = of_int k / 10 ^ s"
proof -
  have "x = of_int \<lfloor>x * 10 ^ s\<rfloor> / 10 ^ s" using assms by (metis is_dec_def nonzero_mult_div_cancel_right power_not_zero zero_neq_numeral)
  then show thesis by (rule that)
qed

lemma is_decI: "is_dec s (of_int k / 10 ^ s)"
  by (simp add: is_dec_def)

lemma is_dec_iff: "is_dec s x \<longleftrightarrow> (\<exists>k::int. x = of_int k / 10 ^ s)"
  using is_decE is_decI by metis

lemma floor_half: "\<lfloor>of_int k + 1 / 2 :: rat\<rfloor> = k"
  by (simp add: floor_unique)

lemma dec_id [simp]: "is_dec s x \<Longrightarrow> dec s x = x"
proof (elim is_decE)
  fix k :: int assume x: "x = of_int k / 10 ^ s"
  show "dec s x = x"
  proof (cases "0 \<le> x")
    case True then show ?thesis using x floor_half [of k] by (simp add: dec_def)
  next
    case False
    have "- x * 10 ^ s + 1 / 2 = of_int (- k) + 1 / 2" using x by simp
    then have "\<lfloor>- x * 10 ^ s + 1 / 2\<rfloor> = - k" using floor_half [of "- k"] by presburger
    then show ?thesis using x False by (simp add: dec_def)
  qed
qed

lemma is_dec_dec [simp]: "is_dec s (dec s x)"
proof -
  have "- ((of_int \<lfloor>- x * 10 ^ s + 1 / 2\<rfloor> :: rat) / 10 ^ s)
      = of_int (- \<lfloor>- x * 10 ^ s + 1 / 2\<rfloor>) / 10 ^ s" by simp
  then show ?thesis using is_decI unfolding dec_def by presburger
qed

lemma dec_dec [simp]: "dec s (dec s x) = dec s x"
  by simp

lemma is_dec_0 [simp]: "is_dec s 0"
  by (simp add: is_dec_def)

lemma dec_0 [simp]: "dec s 0 = 0"
  by simp

lemma is_dec_add: "is_dec s x \<Longrightarrow> is_dec s y \<Longrightarrow> is_dec s (x + y)"
  by (auto simp: is_dec_iff simp flip: add_divide_distrib of_int_add)

lemma is_dec_uminus: "is_dec s x \<Longrightarrow> is_dec s (- x)"
proof (elim is_decE)
  fix k :: int assume "x = of_int k / 10 ^ s"
  then have "- x = of_int (- k) / 10 ^ s" by simp
  then show "is_dec s (- x)" using is_decI by metis
qed

lemma is_dec_diff: "is_dec s x \<Longrightarrow> is_dec s y \<Longrightarrow> is_dec s (x - y)"
  using is_dec_add [of s x "- y"] is_dec_uminus [of s y] by simp

lemma is_dec_mono: assumes "is_dec s x" "s \<le> t" shows "is_dec t x"
proof -
  obtain k :: int where "x = of_int k / 10 ^ s" using assms(1) by (rule is_decE)
  moreover have "(10::rat) ^ t = 10 ^ s * 10 ^ (t - s)" using assms(2) by (simp flip: power_add)
  ultimately have "x = of_int (k * 10 ^ (t - s)) / 10 ^ t" by simp
  then show ?thesis using is_decI by metis
qed

lemma dec_nonneg: "0 \<le> x \<Longrightarrow> 0 \<le> dec s x"
  by (simp add: dec_def)

lemma dec_uminus: "dec s (- x) = - dec s x"
proof (cases "x = 0")
  case False
  then show ?thesis by (auto simp: dec_def)
qed simp

lemma dec_mono_nonneg: assumes "0 \<le> x" "x \<le> y" shows "dec s x \<le> dec s y"
proof -
  have "x * 10 ^ s + 1 / 2 \<le> y * 10 ^ s + 1 / 2" using assms by simp
  then have "\<lfloor>x * 10 ^ s + 1 / 2\<rfloor> \<le> \<lfloor>y * 10 ^ s + 1 / 2\<rfloor>" by (rule floor_mono)
  then show ?thesis using assms by (simp add: dec_def divide_right_mono)
qed

lemma dec_le_is_dec: assumes "is_dec s y" "0 \<le> x" "x \<le> y" shows "dec s x \<le> y"
  using dec_mono_nonneg [OF assms(2,3), of s] assms(1) by simp

text \<open>An amount on the column's grid changes a stored value by exactly itself.\<close>

lemma dec_add: "is_dec s x \<Longrightarrow> is_dec s y \<Longrightarrow> dec s (x + y) = x + y"
  by (simp add: is_dec_add)

lemma dec_diff: "is_dec s x \<Longrightarrow> is_dec s y \<Longrightarrow> dec s (x - y) = x - y"
  by (simp add: is_dec_diff)

section \<open>Printing\<close>

definition fixed :: "nat \<Rightarrow> rat \<Rightarrow> string" where
  "fixed s x =
    (let n = \<lfloor>\<bar>x\<bar> * 10 ^ s + 1 / 2\<rfloor>; q = n div 10 ^ s; r = n mod 10 ^ s; d = digits_of (nat r)
     in (if x < 0 then ''-'' else '''') @ itoa q
        @ (if s = 0 then '''' else ''.'' @ replicate (s - length d) CHR ''0'' @ d))"

section \<open>Rounding to 53 bits\<close>

text \<open>\<open>ilog2 p q\<close> is the largest \<open>e \<ge> 0\<close> with \<open>2 ^ e * q \<le> p\<close>.\<close>

function ilog2 :: "int \<Rightarrow> int \<Rightarrow> nat" where
  "ilog2 p q = (if q \<le> 0 \<or> p < 2 * q then 0 else Suc (ilog2 p (2 * q)))"
  by auto
termination by (relation "measure (\<lambda>(p, q). nat (p - q))") auto

declare ilog2.simps [simp del]

text \<open>Round to the nearest integer, a tie to the even one.\<close>

definition round_even :: "rat \<Rightarrow> int" where
  "round_even x = (let f = \<lfloor>x\<rfloor>; r = x - of_int f in
     if r < 1 / 2 then f else if 1 / 2 < r then f + 1 else if even f then f else f + 1)"

definition f64 :: "rat \<Rightarrow> rat" where
  "f64 x = (let (p, q) = quotient_of x; a = \<bar>p\<bar> in
     if p = 0 then 0
     else if q \<le> a
     then (let e = ilog2 a q; m = round_even (x * 2 ^ 52 / 2 ^ e) in of_int m * 2 ^ e / 2 ^ 52)
     else (let e = Suc (ilog2 (q - 1) a); m = round_even (x * 2 ^ 52 * 2 ^ e) in of_int m / 2 ^ 52 / 2 ^ e))"

text \<open>\<^verbatim>\<open>int64(x)\<close> truncates toward zero.\<close>

definition trunc :: "rat \<Rightarrow> int" where
  "trunc x = (if 0 \<le> x then \<lfloor>x\<rfloor> else - \<lfloor>- x\<rfloor>)"

lemma trunc_of_int [simp]: "trunc (of_int n) = n"
  by (simp add: trunc_def)

end
