(* ===== verification/Interfaces.thy ===== *)
theory Interfaces
  imports Money
begin

text \<open>
  The contracts between components, as locales: what a client may rely on of the operation it
  calls, whatever the store behind it. The clients' lemmas are proved here once; the theories
  of the repositories and caches interpret the locales on the model's own operations.
\<close>

section \<open>One-shot transitions\<close>

text \<open>
  Several operations of the code are conditional updates whose row count, or whose
  \<^verbatim>\<open>UNIQUE\<close> violation, tells the caller whether \<^emph>\<open>this\<close> call made the transition
  (order pending to paid, refund pending to approved, first insertion of a reward event, first
  sight of a webhook). \<open>fire k\<close> is such an operation on the object \<open>k\<close>, \<open>armed k\<close>
  says that its transition is still open, \<open>env\<close> is any other step of the system. A call
  reports success only when its object was armed and disarms it, and no step re-arms an object.
  \<open>wins\<close> counts the successful calls for \<open>k\<close> in a run.
\<close>

fun wins :: "('k \<Rightarrow> 's \<Rightarrow> bool \<times> 's) \<Rightarrow> ('e \<Rightarrow> 's \<Rightarrow> 's) \<Rightarrow> 'k \<Rightarrow> ('k + 'e) list \<Rightarrow> 's \<Rightarrow> nat" where
  "wins fire env k [] s = 0"
| "wins fire env k (Inl j # xs) s =
     (case fire j s of (b, t) \<Rightarrow> (if b \<and> j = k then 1 else 0) + wins fire env k xs t)"
| "wins fire env k (Inr e # xs) s = wins fire env k xs (env e s)"

text \<open>\<open>latch\<close> is the shared part: an object that is disarmed stays disarmed.\<close>

locale latch =
  fixes env :: "'e \<Rightarrow> 's \<Rightarrow> 's"
    and armed :: "'k \<Rightarrow> 's \<Rightarrow> bool"
  assumes env_keeps: "\<not> armed k s \<Longrightarrow> \<not> armed k (env e s)"

locale one_shot = latch env armed
  for env :: "'e \<Rightarrow> 's \<Rightarrow> 's"
    and armed :: "'k \<Rightarrow> 's \<Rightarrow> bool" +
  fixes fire :: "'k \<Rightarrow> 's \<Rightarrow> bool \<times> 's"
  assumes fire_armed: "fire k s = (True, t) \<Longrightarrow> armed k s"
    and fire_disarms: "fire k s = (True, t) \<Longrightarrow> \<not> armed k t"
    and fire_keeps: "fire j s = (b, t) \<Longrightarrow> \<not> armed k s \<Longrightarrow> \<not> armed k t"
begin

lemma wins_disarmed: "\<not> armed k s \<Longrightarrow> wins fire env k xs s = 0"
proof (induction xs arbitrary: s)
  case Nil
  then show ?case by simp
next
  case (Cons x xs)
  show ?case
  proof (cases x)
    case (Inl j)
    obtain b t where f: "fire j s = (b, t)" by (cases "fire j s")
    with Cons have "wins fire env k xs t = 0" by (blast dest: fire_keeps)
    moreover have "\<not> (b \<and> j = k)" using f Cons.prems by (auto dest: fire_armed)
    ultimately show ?thesis using f Inl by auto
  next
    case (Inr e)
    with Cons show ?thesis by (auto dest: env_keeps)
  qed
qed

lemma wins_at_most_once: "wins fire env k xs s \<le> 1"
proof (induction xs arbitrary: s)
  case Nil
  then show ?case by simp
next
  case (Cons x xs)
  show ?case
  proof (cases x)
    case (Inl j)
    obtain b t where f: "fire j s = (b, t)" by (cases "fire j s")
    show ?thesis
    proof (cases "b \<and> j = k")
      case True
      with f have "\<not> armed k t" by (auto dest: fire_disarms)
      then show ?thesis using f Inl by (simp add: wins_disarmed)
    next
      case False
      with f Inl Cons show ?thesis by auto
    qed
  next
    case (Inr e)
    with Cons show ?thesis by simp
  qed
qed

lemma no_win_after_win: "fire k s = (True, t) \<Longrightarrow> wins fire env k xs t = 0"
  by (blast intro: wins_disarmed dest: fire_disarms)

end

section \<open>Payments behind a latch\<close>

text \<open>
  The operations that move money behind such a transition: \<open>act a k\<close> makes the transition of
  \<open>k\<close> and pays, possibly failing half way. \<open>payments k\<close> counts what has been paid for \<open>k\<close>. An
  act adds at most one payment, and only when it disarms its object.
\<close>

fun act_run :: "('a \<Rightarrow> 'k \<Rightarrow> 's \<Rightarrow> 's) \<Rightarrow> ('e \<Rightarrow> 's \<Rightarrow> 's) \<Rightarrow> ('a \<times> 'k + 'e) list \<Rightarrow> 's \<Rightarrow> 's" where
  "act_run act env [] s = s"
| "act_run act env (Inl (a, k) # xs) s = act_run act env xs (act a k s)"
| "act_run act env (Inr e # xs) s = act_run act env xs (env e s)"

locale pays_once = latch env armed
  for env :: "'e \<Rightarrow> 's \<Rightarrow> 's"
    and armed :: "'k \<Rightarrow> 's \<Rightarrow> bool" +
  fixes act :: "'a \<Rightarrow> 'k \<Rightarrow> 's \<Rightarrow> 's"
    and payments :: "'k \<Rightarrow> 's \<Rightarrow> nat"
  assumes act_keeps: "\<not> armed k s \<Longrightarrow> \<not> armed k (act a j s)"
    and act_pays: "payments k (act a j s) = payments k s
          \<or> j = k \<and> armed k s \<and> \<not> armed k (act a j s) \<and> payments k (act a j s) = Suc (payments k s)"
    and env_pays: "payments k (env e s) = payments k s"
begin

definition fresh_or_paid :: "'k \<Rightarrow> 's \<Rightarrow> bool" where
  "fresh_or_paid k s \<longleftrightarrow> payments k s \<le> (if armed k s then 0 else 1)"

lemma act_fresh_or_paid: "fresh_or_paid k s \<Longrightarrow> fresh_or_paid k (act a j s)"
  using act_pays [of k a j s] act_keeps [of k s a j] by (auto simp: fresh_or_paid_def split: if_splits)

lemma env_fresh_or_paid: "fresh_or_paid k s \<Longrightarrow> fresh_or_paid k (env e s)"
  using env_pays [of k e s] env_keeps [of k s e] by (auto simp: fresh_or_paid_def split: if_splits)

lemma run_fresh_or_paid: "fresh_or_paid k s \<Longrightarrow> fresh_or_paid k (act_run act env xs s)"
proof (induction xs arbitrary: s)
  case (Cons x xs)
  show ?case
    by (cases x) (auto intro!: Cons.IH act_fresh_or_paid env_fresh_or_paid Cons.prems)
qed simp

lemma run_pays_at_most_once:
  assumes "payments k s = 0"
  shows "payments k (act_run act env xs s) \<le> 1"
proof -
  have "fresh_or_paid k s" using assms by (simp add: fresh_or_paid_def)
  from run_fresh_or_paid [OF this, of xs] show ?thesis by (simp add: fresh_or_paid_def split: if_splits)
qed

end

section \<open>Wallet stores\<close>

text \<open>
  What the services rely on of \<^verbatim>\<open>walletStore.Credit\<close> and \<^verbatim>\<open>walletStore.Debit\<close>: a
  call that succeeds moves exactly its amount on exactly its account, a debit that succeeds was
  covered, and a call that fails moves nothing. \<open>'m\<close> stands for the descriptive arguments.
\<close>

datatype 'm money_cmd = Crd int rat 'm | Dbt int rat 'm

text \<open>A run of calls; the result lists the movements of those that succeeded.\<close>

fun run_cmds :: "(int \<Rightarrow> rat \<Rightarrow> 'm \<Rightarrow> 's \<Rightarrow> bool \<times> 's) \<Rightarrow> (int \<Rightarrow> rat \<Rightarrow> 'm \<Rightarrow> 's \<Rightarrow> bool \<times> 's)
    \<Rightarrow> 'm money_cmd list \<Rightarrow> 's \<Rightarrow> (int \<times> rat) list \<times> 's" where
  "run_cmds credit debit [] s = ([], s)"
| "run_cmds credit debit (Crd a x m # cs) s =
     (case credit a x m s of (b, t) \<Rightarrow> case run_cmds credit debit cs t of (l, u) \<Rightarrow>
       ((if b then (a, x) # l else l), u))"
| "run_cmds credit debit (Dbt a x m # cs) s =
     (case debit a x m s of (b, t) \<Rightarrow> case run_cmds credit debit cs t of (l, u) \<Rightarrow>
       ((if b then (a, - x) # l else l), u))"

fun cmd_amount :: "'m money_cmd \<Rightarrow> rat" where
  "cmd_amount (Crd a x m) = x"
| "cmd_amount (Dbt a x m) = x"

definition net :: "int \<Rightarrow> (int \<times> rat) list \<Rightarrow> rat" where
  "net a l = sum_list (map snd (filter (\<lambda>p. fst p = a) l))"

lemma net_Nil [simp]: "net a [] = 0"
  by (simp add: net_def)

lemma net_Cons: "net a (p # l) = (if fst p = a then snd p else 0) + net a l"
  by (simp add: net_def)

locale wallet_store =
  fixes credit debit :: "int \<Rightarrow> rat \<Rightarrow> 'm \<Rightarrow> 's \<Rightarrow> bool \<times> 's"
    and bal :: "'s \<Rightarrow> int \<Rightarrow> rat option"
    and ok :: "'s \<Rightarrow> bool"
  assumes credit_ok: "ok s \<Longrightarrow> is_dec 4 x \<Longrightarrow> credit a x m s = (b, t) \<Longrightarrow> ok t"
    and debit_ok: "ok s \<Longrightarrow> is_dec 4 x \<Longrightarrow> debit a x m s = (b, t) \<Longrightarrow> ok t"
    and credit_bal: "ok s \<Longrightarrow> is_dec 4 x \<Longrightarrow> credit a x m s = (b, t) \<Longrightarrow>
          bal t c = (if b \<and> c = a then map_option (\<lambda>y. y + x) (bal s c) else bal s c)"
    and debit_bal: "ok s \<Longrightarrow> is_dec 4 x \<Longrightarrow> debit a x m s = (b, t) \<Longrightarrow>
          bal t c = (if b \<and> c = a then map_option (\<lambda>y. y - x) (bal s c) else bal s c)"
    and debit_covered: "ok s \<Longrightarrow> debit a x m s = (True, t) \<Longrightarrow> \<exists>y. bal s a = Some y \<and> x \<le> y"
begin

text \<open>Money is conserved: a run changes each balance by the net of its successful movements.\<close>

lemma run_conserves:
  "ok s \<Longrightarrow> list_all (\<lambda>c. is_dec 4 (cmd_amount c)) cs \<Longrightarrow> run_cmds credit debit cs s = (l, t) \<Longrightarrow>
   ok t \<and> bal t a = map_option (\<lambda>y. y + net a l) (bal s a)"
proof (induction cs arbitrary: s l)
  case Nil
  then show ?case by (simp add: option.map_ident)
next
  case (Cons c cs)
  show ?case
  proof (cases c)
    case (Crd d x m)
    obtain b u where f: "credit d x m s = (b, u)" by (cases "credit d x m s")
    obtain l1 where r: "run_cmds credit debit cs u = (l1, t)"
      using Cons.prems(3) Crd f by (auto split: prod.splits)
    have "is_dec 4 x" using Cons.prems(2) Crd by simp
    note u = credit_ok [OF Cons.prems(1) this f] credit_bal [OF Cons.prems(1) this f, of a]
    have "ok t \<and> bal t a = map_option (\<lambda>y. y + net a l1) (bal u a)"
      using Cons.IH [OF u(1) _ r] Cons.prems(2) by simp
    then show ?thesis using Cons.prems(3) Crd f r u(2)
      by (auto simp: net_Cons option.map_comp comp_def ac_simps)
  next
    case (Dbt d x m)
    obtain b u where f: "debit d x m s = (b, u)" by (cases "debit d x m s")
    obtain l1 where r: "run_cmds credit debit cs u = (l1, t)"
      using Cons.prems(3) Dbt f by (auto split: prod.splits)
    have "is_dec 4 x" using Cons.prems(2) Dbt by simp
    note u = debit_ok [OF Cons.prems(1) this f] debit_bal [OF Cons.prems(1) this f, of a]
    have "ok t \<and> bal t a = map_option (\<lambda>y. y + net a l1) (bal u a)"
      using Cons.IH [OF u(1) _ r] Cons.prems(2) by simp
    then show ?thesis using Cons.prems(3) Dbt f r u(2)
      by (auto simp: net_Cons option.map_comp comp_def algebra_simps)
  qed
qed

text \<open>No run of nonnegative credits and arbitrary debits overdraws an account.\<close>

lemma run_no_overdraft:
  "ok s \<Longrightarrow> list_all (\<lambda>c. is_dec 4 (cmd_amount c) \<and> 0 \<le> cmd_amount c) cs \<Longrightarrow>
   run_cmds credit debit cs s = (l, t) \<Longrightarrow> (\<And>a y. bal s a = Some y \<Longrightarrow> 0 \<le> y) \<Longrightarrow>
   bal t a = Some y \<Longrightarrow> 0 \<le> y"
proof (induction cs arbitrary: s l)
  case Nil
  then show ?case by simp
next
  case (Cons c cs)
  show ?case
  proof (cases c)
    case (Crd d x m)
    obtain b u where f: "credit d x m s = (b, u)" by (cases "credit d x m s")
    obtain l1 where r: "run_cmds credit debit cs u = (l1, t)"
      using Cons.prems(3) Crd f by (auto split: prod.splits)
    have x: "is_dec 4 x" "0 \<le> x" using Cons.prems(2) Crd by simp_all
    note u = credit_ok [OF Cons.prems(1) x(1) f] credit_bal [OF Cons.prems(1) x(1) f]
    have "0 \<le> z" if "bal u e = Some z" for e z
      using that u(2) [of e] x(2) Cons.prems(4) [of e] by (auto split: if_splits)
    then show ?thesis using Cons.IH [OF u(1) _ r] Cons.prems Crd f r by simp
  next
    case (Dbt d x m)
    obtain b u where f: "debit d x m s = (b, u)" by (cases "debit d x m s")
    obtain l1 where r: "run_cmds credit debit cs u = (l1, t)"
      using Cons.prems(3) Dbt f by (auto split: prod.splits)
    have x: "is_dec 4 x" using Cons.prems(2) Dbt by simp
    note u = debit_ok [OF Cons.prems(1) x f] debit_bal [OF Cons.prems(1) x f]
    have "0 \<le> z" if "bal u e = Some z" for e z
      using that u(2) [of e] debit_covered [OF Cons.prems(1), of d x m u] f Cons.prems(4) [of e]
      by (auto split: if_splits)
    then show ?thesis using Cons.IH [OF u(1) _ r] Cons.prems Dbt f r by simp
  qed
qed

end

section \<open>Keyed caches\<close>

text \<open>
  The cache interfaces of the use-case layer (\<^verbatim>\<open>entitlementCache\<close>,
  \<^verbatim>\<open>overviewCache\<close>) over a store that may also be unreachable: \<open>get\<close> answers
  \<open>None\<close> on a miss, \<open>put\<close> and \<open>drop\<close> say whether they took effect.
\<close>

locale cache =
  fixes get :: "'k \<Rightarrow> 's \<Rightarrow> 'v option"
    and put :: "'k \<Rightarrow> 'v \<Rightarrow> 's \<Rightarrow> bool \<times> 's"
    and drop :: "'k \<Rightarrow> 's \<Rightarrow> bool \<times> 's"
  assumes get_put: "put k v s = (True, t) \<Longrightarrow> get j t = (if j = k then Some v else get j s)"
    and get_drop: "drop k s = (True, t) \<Longrightarrow> get j t = (if j = k then None else get j s)"
    and put_fails: "put k v s = (False, t) \<Longrightarrow> get j t = get j s"
    and drop_fails: "drop k s = (False, t) \<Longrightarrow> get j t = get j s"
begin

lemma put_other: "j \<noteq> k \<Longrightarrow> get j (snd (put k v s)) = get j s"
  by (cases "put k v s"; cases "fst (put k v s)") (auto simp: get_put put_fails)

lemma drop_other: "j \<noteq> k \<Longrightarrow> get j (snd (drop k s)) = get j s"
  by (cases "drop k s"; cases "fst (drop k s)") (auto simp: get_drop drop_fails)

lemma put_then_get: "get k (snd (put k v s)) = (if fst (put k v s) then Some v else get k s)"
  by (cases "put k v s"; cases "fst (put k v s)") (auto simp: get_put put_fails)

lemma drop_then_get: "get k (snd (drop k s)) = (if fst (drop k s) then None else get k s)"
  by (cases "drop k s"; cases "fst (drop k s)") (auto simp: get_drop drop_fails)

end

end
