(* ===== verification/World.thy ===== *)
theory World
  imports Entities Interfaces
begin

text \<open>
  The state of the program and its effects. \<open>world\<close> holds the tables of the PostgreSQL
  schema (\<^verbatim>\<open>migrations\<close>), the Redis key space, the messages handed to NATS, the
  mails and text messages sent, the in-memory settings cache and public keys, the wall clock and the supplies of what the environment decides: \<open>faults\<close> says of each
  statement sent to the database, to Redis or to NATS whether it errors (a lost connection,
  a cancelled context, a violated length, NOT NULL or foreign key constraint), \<open>entropy\<close>
  holds the random strings that will be drawn. An operation of Go that returns
  \<^verbatim>\<open>(T, error)\<close> is a function \<open>world \<Rightarrow> (err + T) \<times> world\<close>.
\<close>

section \<open>Errors\<close>

datatype err =
    EDb                          \<comment> \<open>the statement failed\<close>
  | EUnique string               \<comment> \<open>unique violation (23505) of the named constraint\<close>
  | ENoRow                       \<comment> \<open>\<^verbatim>\<open>gorm.ErrRecordNotFound\<close>\<close>
  | EMsg string                  \<comment> \<open>\<^verbatim>\<open>fmt.Errorf\<close>/\<^verbatim>\<open>errors.New\<close> with this text\<close>
  | EWrap string err             \<comment> \<open>\<^verbatim>\<open>fmt.Errorf("text: %w", err)\<close>\<close>
  | EInsufficient rat rat        \<comment> \<open>\<^verbatim>\<open>insufficient balance: have, need\<close>\<close>
  | ERedis                       \<comment> \<open>a Redis command failed\<close>
  | EExt string                  \<comment> \<open>another collaborator failed\<close>

section \<open>State\<close>

datatype rval =
    RStr string
  | RMap "string \<Rightarrow> string option"
  | ROv AccountOverview
  | RZSet "(int \<times> string) list"

text \<open>What leaves the program towards a person: a mail or a text message.\<close>

datatype message =
    Mail string string string                       \<comment> \<open>to, subject, body\<close>
  | Sms string string "(string \<times> string) list"     \<comment> \<open>phone, template, parameters\<close>

text \<open>A public key of the identity provider: RSA modulus and exponent, or an elliptic curve and a point.\<close>

datatype pubkey = RSAKey nat int | ECKey string nat nat

record world =
  wallets :: "Wallet list"
  transactions :: "WalletTransaction list"
  orders :: "PaymentOrder list"
  codes :: "RedemptionCode list"
  accounts :: "Account list"
  bindings :: "OAuthBinding list"
  products :: "Product list"
  plans :: "ProductPlan list"
  subs :: "Subscription list"
  ents :: "AccountEntitlement list"
  vips :: "AccountVIP list"
  vip_configs :: "VIPLevelConfig list"
  refunds :: "Refund list"
  invoices :: "Invoice list"
  rewards :: "ReferralRewardEvent list"
  checkins :: "Checkin list"
  orgs :: "Organization list"
  members :: "OrgMember list"
  api_keys :: "OrgAPIKey list"
  org_wallets :: "OrgWallet list"
  outbox :: "OutboxEvent list"
  settings :: "AdminSetting list"
  redis :: "string \<Rightarrow> (rval \<times> time option) option"
  published :: "IdentityEvent list"
  sent :: "message list"
  cfg_cache :: "string \<Rightarrow> AdminSetting option"
  jwks_keys :: "(string \<times> pubkey) list"
  jwks_at :: time
  clock :: time
  seqs :: "string \<Rightarrow> int"
  faults :: "bool list"
  entropy :: "string list"

type_synonym 'a op = "world \<Rightarrow> (err + 'a) \<times> world"

definition world0 :: world where
  "world0 = \<lparr>wallets = [], transactions = [], orders = [], codes = [], accounts = [], bindings = [],
     products = [], plans = [], subs = [], ents = [], vips = [], vip_configs = [], refunds = [],
     invoices = [], rewards = [], checkins = [], orgs = [], members = [], api_keys = [],
     org_wallets = [], outbox = [], settings = [], redis = (\<lambda>_. None), published = [], sent = [],
     cfg_cache = (\<lambda>_. None), jwks_keys = [], jwks_at = zero_time, clock = 0,
     seqs = (\<lambda>_. 1), faults = [], entropy = []\<rparr>"

section \<open>Control flow\<close>

definition ret :: "'a \<Rightarrow> 'a op" where
  "ret x w = (Inr x, w)"

definition fail :: "err \<Rightarrow> 'a op" where
  "fail e w = (Inl e, w)"

text \<open>\<^verbatim>\<open>x, err := m(); if err != nil { return err }; k(x)\<close>\<close>

definition bind :: "'a op \<Rightarrow> ('a \<Rightarrow> 'b op) \<Rightarrow> 'b op" where
  "bind m k w = (case m w of (Inl e, w1) \<Rightarrow> (Inl e, w1) | (Inr x, w1) \<Rightarrow> k x w1)"

text \<open>\<^verbatim>\<open>x, err := m(); k(x, err)\<close>: the error is inspected, logged or dropped.\<close>

definition attempt :: "'a op \<Rightarrow> (err + 'a \<Rightarrow> 'b op) \<Rightarrow> 'b op" where
  "attempt m k w = (case m w of (r, w1) \<Rightarrow> k r w1)"

definition wrap :: "string \<Rightarrow> 'a op \<Rightarrow> 'a op" where
  "wrap s m w = (case m w of (Inl e, w1) \<Rightarrow> (Inl (EWrap s e), w1) | (Inr x, w1) \<Rightarrow> (Inr x, w1))"

text \<open>\<^verbatim>\<open>_ = m()\<close>\<close>

definition ignore :: "'a op \<Rightarrow> unit op" where
  "ignore m = attempt m (\<lambda>_. ret ())"

text \<open>\<^verbatim>\<open>errors.Is(err, gorm.ErrRecordNotFound)\<close> mapped to a nil result.\<close>

definition opt_row :: "'a op \<Rightarrow> 'a option op" where
  "opt_row m w = (case m w of (Inl e, w1) \<Rightarrow> (if e = ENoRow then (Inr None, w1) else (Inl e, w1))
                            | (Inr x, w1) \<Rightarrow> (Inr (Some x), w1))"

text \<open>Whether a call returned a nil error, with the state it leaves.\<close>

definition succeeds :: "'a op \<Rightarrow> world \<Rightarrow> bool \<times> world" where
  "succeeds m w = (case m w of (Inl e, w1) \<Rightarrow> (False, w1) | (Inr x, w1) \<Rightarrow> (True, w1))"

definition now :: "time op" where
  "now w = (Inr (clock w), w)"

fun for_each :: "('a \<Rightarrow> unit op) \<Rightarrow> 'a list \<Rightarrow> unit op" where
  "for_each f [] = ret ()"
| "for_each f (x # xs) = bind (f x) (\<lambda>_. for_each f xs)"

section \<open>Statements\<close>

text \<open>
  One statement sent to a server: it consumes one token of \<open>faults\<close>. An empty supply
  means that nothing fails any more.
\<close>

definition faulty :: "world \<Rightarrow> bool" where
  "faulty w \<longleftrightarrow> (case faults w of [] \<Rightarrow> False | b # _ \<Rightarrow> b)"

definition adv :: "world \<Rightarrow> world" where
  "adv w = w\<lparr>faults := tl (faults w)\<rparr>"

definition stmt :: "err \<Rightarrow> 'a op \<Rightarrow> 'a op" where
  "stmt e f w = (if faulty w then (Inl e, adv w) else f (adv w))"

abbreviation sql :: "'a op \<Rightarrow> 'a op" where
  "sql f \<equiv> stmt EDb f"

text \<open>
  \<^verbatim>\<open>db.Transaction(f)\<close>: an error of \<open>f\<close> or of COMMIT restores every table; what the
  transaction consumed of \<open>faults\<close>, \<open>entropy\<close> and of the sequences stays consumed.
\<close>

definition rollback :: "world \<Rightarrow> world \<Rightarrow> world" where
  "rollback w w1 = w\<lparr>seqs := seqs w1, faults := faults w1, entropy := entropy w1\<rparr>"

definition transaction :: "'a op \<Rightarrow> 'a op" where
  "transaction f w = (case f w of
      (Inl e, w1) \<Rightarrow> (Inl e, rollback w w1)
    | (Inr x, w1) \<Rightarrow> (if faulty w1 then (Inl EDb, rollback w (adv w1)) else (Inr x, adv w1)))"

text \<open>A random string of the environment; \<^verbatim>\<open>rand.Read\<close> may fail.\<close>

definition draw :: "string op" where
  "draw w = (case entropy w of [] \<Rightarrow> (Inl (EExt ''rand''), w) | s # ss \<Rightarrow> (Inr s, w\<lparr>entropy := ss\<rparr>))"

text \<open>
  A table: where it lives in the world, its unique constraints (\<open>t_conflict r t\<close> names the
  constraint that row \<open>r\<close> would violate beside the rows \<open>t\<close>), what its columns store of a
  value, and what GORM fills in on insert (the serial id, the creation time) and on update.
\<close>

record 'r tbl =
  t_name :: string
  t_get :: "world \<Rightarrow> 'r list"
  t_upd :: "('r list \<Rightarrow> 'r list) \<Rightarrow> world \<Rightarrow> world"
  t_conflict :: "'r \<Rightarrow> 'r list \<Rightarrow> string option"
  t_cols :: "'r \<Rightarrow> 'r"
  t_new :: "int \<Rightarrow> time \<Rightarrow> 'r \<Rightarrow> 'r"
  t_touch :: "time \<Rightarrow> 'r \<Rightarrow> 'r"

text \<open>\<^verbatim>\<open>First\<close>, \<^verbatim>\<open>Find\<close>, \<^verbatim>\<open>Count\<close>\<close>

definition q_first :: "'r tbl \<Rightarrow> ('r \<Rightarrow> bool) \<Rightarrow> 'r op" where
  "q_first T P = sql (\<lambda>w. case find P (t_get T w) of None \<Rightarrow> (Inl ENoRow, w) | Some r \<Rightarrow> (Inr r, w))"

definition q_find :: "'r tbl \<Rightarrow> ('r \<Rightarrow> bool) \<Rightarrow> 'r list op" where
  "q_find T P = sql (\<lambda>w. (Inr (filter P (t_get T w)), w))"

definition q_count :: "'r tbl \<Rightarrow> ('r \<Rightarrow> bool) \<Rightarrow> int op" where
  "q_count T P = sql (\<lambda>w. (Inr (int (length (filter P (t_get T w)))), w))"

text \<open>
  \<^verbatim>\<open>Updates\<close> of the rows satisfying \<open>P\<close>; the result is \<^verbatim>\<open>RowsAffected\<close>. The
  statements of the program that use it write no unique column.
\<close>

definition q_update :: "'r tbl \<Rightarrow> ('r \<Rightarrow> bool) \<Rightarrow> ('r \<Rightarrow> 'r) \<Rightarrow> int op" where
  "q_update T P f = sql (\<lambda>w. (Inr (int (length (filter P (t_get T w)))),
     t_upd T (upd_rows P (\<lambda>r. t_cols T (t_touch T (clock w) (f r)))) w))"

definition q_delete :: "'r tbl \<Rightarrow> ('r \<Rightarrow> bool) \<Rightarrow> int op" where
  "q_delete T P = sql (\<lambda>w. (Inr (int (length (filter P (t_get T w)))),
     t_upd T (filter (\<lambda>r. \<not> P r)) w))"

text \<open>\<^verbatim>\<open>Create\<close>: the caller's value gets the id; the table stores its columns' values.\<close>

definition q_insert :: "'r tbl \<Rightarrow> 'r \<Rightarrow> 'r op" where
  "q_insert T r = sql (\<lambda>w.
     let i = seqs w (t_name T); r1 = t_new T i (clock w) r; w1 = w\<lparr>seqs := (seqs w)(t_name T := i + 1)\<rparr>
     in case t_conflict T r1 (t_get T w) of
          Some c \<Rightarrow> (Inl (EUnique c), w1)
        | None \<Rightarrow> (Inr r1, t_upd T (\<lambda>t. t @ [t_cols T r1]) w1))"

text \<open>
  \<^verbatim>\<open>Save\<close>: UPDATE of every column of the row with this primary key, subject to the
  unique constraints beside the other rows; an unknown key is inserted.
\<close>

definition q_save :: "'r tbl \<Rightarrow> ('r \<Rightarrow> 'k) \<Rightarrow> 'r \<Rightarrow> unit op" where
  "q_save T key r = sql (\<lambda>w.
     let r1 = t_touch T (clock w) r in
     case t_conflict T r1 (filter (\<lambda>x. key x \<noteq> key r) (t_get T w)) of
       Some c \<Rightarrow> (Inl (EUnique c), w)
     | None \<Rightarrow> (Inr (), if \<exists>x\<in>set (t_get T w). key x = key r
                      then t_upd T (upd_rows (\<lambda>x. key x = key r) (\<lambda>_. t_cols T r1)) w
                      else t_upd T (\<lambda>t. t @ [t_cols T r1]) w))"

text \<open>
  \<^verbatim>\<open>FirstOrCreate\<close>: a SELECT, then an INSERT when it found nothing or, with
  \<^verbatim>\<open>Assign\<close>, an UPDATE of the row found.
\<close>

definition q_first_or_create :: "'r tbl \<Rightarrow> ('r \<Rightarrow> bool) \<Rightarrow> 'r \<Rightarrow> 'r op" where
  "q_first_or_create T P r = bind (opt_row (q_first T P)) (\<lambda>o1. case o1 of
      Some x \<Rightarrow> ret x
    | None \<Rightarrow> q_insert T r)"

definition q_assign_or_create :: "'r tbl \<Rightarrow> ('r \<Rightarrow> bool) \<Rightarrow> ('r \<Rightarrow> 'k) \<Rightarrow> ('r \<Rightarrow> 'r) \<Rightarrow> 'r \<Rightarrow> unit op" where
  "q_assign_or_create T P key f r = bind (opt_row (q_first T P)) (\<lambda>o1. case o1 of
      Some x \<Rightarrow> bind (q_update T (\<lambda>y. P y \<and> key y = key x) f) (\<lambda>_. ret ())
    | None \<Rightarrow> bind (q_insert T r) (\<lambda>_. ret ()))"

text \<open>\<^verbatim>\<open>INSERT ... ON CONFLICT (key) DO UPDATE SET ...\<close>\<close>

definition q_upsert :: "'r tbl \<Rightarrow> ('r \<Rightarrow> 'k) \<Rightarrow> ('r \<Rightarrow> 'r) \<Rightarrow> 'r \<Rightarrow> unit op" where
  "q_upsert T key f r = sql (\<lambda>w.
     (Inr (), if \<exists>x\<in>set (t_get T w). key x = key r
              then t_upd T (upd_rows (\<lambda>x. key x = key r) (\<lambda>x. t_cols T (f x))) w
              else t_upd T (\<lambda>t. t @ [t_cols T (t_new T (seqs w (t_name T)) (clock w) r)]) w))"

text \<open>\<^verbatim>\<open>ORDER BY k DESC LIMIT size OFFSET (page - 1) * size\<close>\<close>

definition page_of :: "int \<Rightarrow> int \<Rightarrow> 'r list \<Rightarrow> 'r list" where
  "page_of page lmt xs = take (nat lmt) (drop (nat ((page - 1) * lmt)) xs)"

definition q_page :: "'r tbl \<Rightarrow> ('r \<Rightarrow> bool) \<Rightarrow> ('r \<Rightarrow> int) \<Rightarrow> int \<Rightarrow> int \<Rightarrow> ('r list \<times> int) op" where
  "q_page T P key page lmt =
     bind (q_count T P) (\<lambda>total.
     bind (sql (\<lambda>w. (Inr (page_of page lmt (rev (sort_key key (filter P (t_get T w))))), w))) (\<lambda>list.
     ret (list, total)))"

section \<open>Reasoning about operations\<close>

named_theorems ok_simps \<open>when an operation succeeds, and in which state\<close>
named_theorems leaves_intros \<open>what an operation leaves alone\<close>
named_theorems keeps_intros \<open>invariants of operations\<close>

lemma faulty_Nil [simp]: "faults w = [] \<Longrightarrow> \<not> faulty w"
  by (simp add: faulty_def)

lemma adv_Nil: "faults w = [] \<Longrightarrow> adv w = w"
  by (simp add: adv_def)

lemma rollback_same: "rollback w w = w"
  by (simp add: rollback_def)

lemma adv_fields [simp]:
  "wallets (adv w) = wallets w" "transactions (adv w) = transactions w" "orders (adv w) = orders w"
  "codes (adv w) = codes w" "accounts (adv w) = accounts w" "bindings (adv w) = bindings w"
  "products (adv w) = products w" "plans (adv w) = plans w" "subs (adv w) = subs w"
  "ents (adv w) = ents w" "vips (adv w) = vips w" "vip_configs (adv w) = vip_configs w"
  "refunds (adv w) = refunds w" "invoices (adv w) = invoices w" "rewards (adv w) = rewards w"
  "checkins (adv w) = checkins w" "orgs (adv w) = orgs w" "members (adv w) = members w"
  "api_keys (adv w) = api_keys w" "org_wallets (adv w) = org_wallets w" "outbox (adv w) = outbox w"
  "settings (adv w) = settings w" "redis (adv w) = redis w" "published (adv w) = published w"
  "sent (adv w) = sent w" "cfg_cache (adv w) = cfg_cache w"
  "jwks_keys (adv w) = jwks_keys w" "jwks_at (adv w) = jwks_at w"
  "clock (adv w) = clock w" "seqs (adv w) = seqs w" "entropy (adv w) = entropy w"
  "faults (adv w) = tl (faults w)"
  by (simp_all add: adv_def)

lemma rollback_fields [simp]:
  "wallets (rollback w w1) = wallets w" "transactions (rollback w w1) = transactions w"
  "orders (rollback w w1) = orders w" "codes (rollback w w1) = codes w"
  "accounts (rollback w w1) = accounts w" "bindings (rollback w w1) = bindings w"
  "products (rollback w w1) = products w" "plans (rollback w w1) = plans w"
  "subs (rollback w w1) = subs w" "ents (rollback w w1) = ents w" "vips (rollback w w1) = vips w"
  "vip_configs (rollback w w1) = vip_configs w" "refunds (rollback w w1) = refunds w"
  "invoices (rollback w w1) = invoices w" "rewards (rollback w w1) = rewards w"
  "checkins (rollback w w1) = checkins w" "orgs (rollback w w1) = orgs w"
  "members (rollback w w1) = members w" "api_keys (rollback w w1) = api_keys w"
  "org_wallets (rollback w w1) = org_wallets w" "outbox (rollback w w1) = outbox w"
  "settings (rollback w w1) = settings w" "redis (rollback w w1) = redis w"
  "published (rollback w w1) = published w"
  "sent (rollback w w1) = sent w" "cfg_cache (rollback w w1) = cfg_cache w" "clock (rollback w w1) = clock w"
  "jwks_keys (rollback w w1) = jwks_keys w" "jwks_at (rollback w w1) = jwks_at w"
  by (simp_all add: rollback_def)

subsection \<open>Success\<close>

lemma succeeds_True: "succeeds m w = (True, w') \<longleftrightarrow> (\<exists>x. m w = (Inr x, w'))"
  by (auto simp: succeeds_def split: prod.splits sum.splits)

lemma succeeds_False: "succeeds m w = (False, w') \<longleftrightarrow> (\<exists>e. m w = (Inl e, w'))"
  by (auto simp: succeeds_def split: prod.splits sum.splits)

lemma succeeds_state: "succeeds m w = (b, w') \<Longrightarrow> snd (m w) = w'"
  by (auto simp: succeeds_def split: prod.splits sum.splits)

lemma ret_ok [ok_simps]: "ret x w = (Inr y, w') \<longleftrightarrow> y = x \<and> w' = w"
  by (auto simp: ret_def)

lemma fail_ok [ok_simps]: "fail e w = (Inr y, w') \<longleftrightarrow> False"
  by (simp add: fail_def)

lemma bind_ok [ok_simps]:
  "bind m k w = (Inr y, w') \<longleftrightarrow> (\<exists>x w1. m w = (Inr x, w1) \<and> k x w1 = (Inr y, w'))"
  by (auto simp: bind_def split: prod.splits sum.splits)

lemma attempt_ok [ok_simps]:
  "attempt m k w = (Inr y, w') \<longleftrightarrow> (\<exists>x w1. m w = (Inr x, w1) \<and> k (Inr x) w1 = (Inr y, w'))
     \<or> (\<exists>e w1. m w = (Inl e, w1) \<and> k (Inl e) w1 = (Inr y, w'))"
  by (cases "m w"; cases "fst (m w)") (auto simp: attempt_def)

lemma wrap_ok [ok_simps]: "wrap s m w = (Inr y, w') \<longleftrightarrow> m w = (Inr y, w')"
  by (auto simp: wrap_def split: prod.splits sum.splits)

lemma ignore_ok [ok_simps]: "ignore m w = (Inr y, w') \<longleftrightarrow> w' = snd (m w)"
  by (auto simp: ignore_def attempt_def ret_def split: prod.splits)

lemma opt_row_ok:
  "opt_row m w = (Inr y, w') \<longleftrightarrow>
     (case y of None \<Rightarrow> m w = (Inl ENoRow, w') | Some x \<Rightarrow> m w = (Inr x, w'))"
  by (auto simp: opt_row_def split: prod.splits sum.splits option.splits)

lemma now_ok [ok_simps]: "now w = (Inr y, w') \<longleftrightarrow> y = clock w \<and> w' = w"
  by (auto simp: now_def)

lemma guard_ok [ok_simps]: "(if c then fail e else m) w = (Inr y, w') \<longleftrightarrow> \<not> c \<and> m w = (Inr y, w')"
  by (simp add: fail_def)

lemma some_ok [ok_simps]:
  "(case z of None \<Rightarrow> fail e | Some x \<Rightarrow> k x) w = (Inr y, w') \<longleftrightarrow> (\<exists>x. z = Some x \<and> k x w = (Inr y, w'))"
  by (simp add: fail_def split: option.split)

lemma stmt_ok [ok_simps]: "stmt e f w = (Inr y, w') \<longleftrightarrow> \<not> faulty w \<and> f (adv w) = (Inr y, w')"
  by (simp add: stmt_def)

lemma transaction_ok [ok_simps]:
  "transaction f w = (Inr y, w') \<longleftrightarrow> (\<exists>w1. f w = (Inr y, w1) \<and> \<not> faulty w1 \<and> w' = adv w1)"
  by (auto simp: transaction_def split: prod.splits sum.splits)

lemma draw_ok [ok_simps]:
  "draw w = (Inr y, w') \<longleftrightarrow> (\<exists>ss. entropy w = y # ss \<and> w' = w\<lparr>entropy := ss\<rparr>)"
  by (auto simp: draw_def split: list.splits)

lemma transaction_rollback: "transaction f w = (Inl e, w') \<Longrightarrow> \<exists>w1. w' = rollback w w1"
  by (auto simp: transaction_def split: prod.splits sum.splits if_splits)

lemma q_first_ok [ok_simps]:
  "q_first T P w = (Inr r, w') \<longleftrightarrow> \<not> faulty w \<and> w' = adv w \<and> find P (t_get T (adv w)) = Some r"
  by (auto simp: q_first_def ok_simps split: option.splits)

lemma opt_first_ok [ok_simps]:
  "opt_row (q_first T P) w = (Inr r, w') \<longleftrightarrow> \<not> faulty w \<and> w' = adv w \<and> find P (t_get T (adv w)) = r"
  by (auto simp: q_first_def opt_row_def stmt_def split: option.splits)

lemma q_find_ok [ok_simps]:
  "q_find T P w = (Inr xs, w') \<longleftrightarrow> \<not> faulty w \<and> w' = adv w \<and> xs = filter P (t_get T (adv w))"
  by (auto simp: q_find_def ok_simps)

lemma q_count_ok [ok_simps]:
  "q_count T P w = (Inr n, w') \<longleftrightarrow> \<not> faulty w \<and> w' = adv w \<and> n = int (length (filter P (t_get T (adv w))))"
  by (auto simp: q_count_def ok_simps)

lemma q_update_ok [ok_simps]:
  "q_update T P f w = (Inr n, w') \<longleftrightarrow> \<not> faulty w \<and> n = int (length (filter P (t_get T (adv w))))
     \<and> w' = t_upd T (upd_rows P (\<lambda>r. t_cols T (t_touch T (clock w) (f r)))) (adv w)"
  by (auto simp: q_update_def ok_simps)

lemma q_delete_ok [ok_simps]:
  "q_delete T P w = (Inr n, w') \<longleftrightarrow> \<not> faulty w \<and> n = int (length (filter P (t_get T (adv w))))
     \<and> w' = t_upd T (filter (\<lambda>r. \<not> P r)) (adv w)"
  by (auto simp: q_delete_def ok_simps)

lemma q_insert_ok [ok_simps]:
  "q_insert T r w = (Inr r1, w') \<longleftrightarrow> \<not> faulty w \<and> r1 = t_new T (seqs w (t_name T)) (clock w) r
     \<and> t_conflict T r1 (t_get T (adv w)) = None
     \<and> w' = t_upd T (\<lambda>t. t @ [t_cols T r1]) (adv w\<lparr>seqs := (seqs w)(t_name T := seqs w (t_name T) + 1)\<rparr>)"
  by (auto simp: q_insert_def ok_simps Let_def split: option.splits)

lemma q_save_ok [ok_simps]:
  "q_save T key r w = (Inr u, w') \<longleftrightarrow> \<not> faulty w
     \<and> t_conflict T (t_touch T (clock w) r) (filter (\<lambda>x. key x \<noteq> key r) (t_get T (adv w))) = None
     \<and> w' = (if \<exists>x\<in>set (t_get T (adv w)). key x = key r
             then t_upd T (upd_rows (\<lambda>x. key x = key r) (\<lambda>_. t_cols T (t_touch T (clock w) r))) (adv w)
             else t_upd T (\<lambda>t. t @ [t_cols T (t_touch T (clock w) r)]) (adv w))"
  by (auto simp: q_save_def ok_simps Let_def split: option.splits)

lemma q_upsert_ok [ok_simps]:
  "q_upsert T key f r w = (Inr u, w') \<longleftrightarrow> \<not> faulty w \<and> w' = (if \<exists>x\<in>set (t_get T (adv w)). key x = key r
              then t_upd T (upd_rows (\<lambda>x. key x = key r) (\<lambda>x. t_cols T (f x))) (adv w)
              else t_upd T (\<lambda>t. t @ [t_cols T (t_new T (seqs w (t_name T)) (clock w) r)]) (adv w))"
  by (auto simp: q_upsert_def ok_simps)

subsection \<open>Runs without failing statements\<close>

text \<open>
  When no statement fails, every primitive computes its result directly; \<open>simp add: calm\<close>
  runs an operation on a world with \<open>faults w = []\<close>.
\<close>

lemma calm_stmt: "faults w = [] \<Longrightarrow> stmt e f w = f w"
  by (simp add: stmt_def adv_Nil)

lemma calm_first: "faults w = [] \<Longrightarrow> q_first T P w =
   (case find P (t_get T w) of None \<Rightarrow> (Inl ENoRow, w) | Some r \<Rightarrow> (Inr r, w))"
  by (simp add: q_first_def calm_stmt)

lemma calm_opt_first: "faults w = [] \<Longrightarrow> opt_row (q_first T P) w = (Inr (find P (t_get T w)), w)"
  by (simp add: opt_row_def calm_first split: option.split)

lemma calm_find: "faults w = [] \<Longrightarrow> q_find T P w = (Inr (filter P (t_get T w)), w)"
  by (simp add: q_find_def calm_stmt)

lemma calm_count: "faults w = [] \<Longrightarrow> q_count T P w = (Inr (int (length (filter P (t_get T w)))), w)"
  by (simp add: q_count_def calm_stmt)

lemma calm_update: "faults w = [] \<Longrightarrow> q_update T P f w = (Inr (int (length (filter P (t_get T w)))),
     t_upd T (upd_rows P (\<lambda>r. t_cols T (t_touch T (clock w) (f r)))) w)"
  by (simp add: q_update_def calm_stmt)

lemma calm_delete: "faults w = [] \<Longrightarrow> q_delete T P w = (Inr (int (length (filter P (t_get T w)))),
     t_upd T (filter (\<lambda>r. \<not> P r)) w)"
  by (simp add: q_delete_def calm_stmt)

lemma calm_insert:
  "faults w = [] \<Longrightarrow> r1 = t_new T (seqs w (t_name T)) (clock w) r \<Longrightarrow> t_conflict T r1 (t_get T w) = None \<Longrightarrow>
   q_insert T r w = (Inr r1, t_upd T (\<lambda>t. t @ [t_cols T r1]) (w\<lparr>seqs := (seqs w)(t_name T := seqs w (t_name T) + 1)\<rparr>))"
  by (simp add: q_insert_def calm_stmt Let_def)

lemma calm_save:
  "faults w = [] \<Longrightarrow> r1 = t_touch T (clock w) r \<Longrightarrow>
   t_conflict T r1 (filter (\<lambda>x. key x \<noteq> key r) (t_get T w)) = None \<Longrightarrow> x \<in> set (t_get T w) \<Longrightarrow> key x = key r \<Longrightarrow>
   q_save T key r w = (Inr (), t_upd T (upd_rows (\<lambda>x. key x = key r) (\<lambda>_. t_cols T r1)) w)"
  by (auto simp: q_save_def calm_stmt Let_def)

lemma calm_transaction: "f w = (Inr x, w1) \<Longrightarrow> faults w1 = [] \<Longrightarrow> transaction f w = (Inr x, w1)"
  by (simp add: transaction_def adv_Nil)

lemma calm_bind: "m w = (Inr x, w1) \<Longrightarrow> bind m k w = k x w1"
  by (simp add: bind_def)

lemma calm_fail: "m w = (Inl e, w1) \<Longrightarrow> bind m k w = (Inl e, w1)"
  by (simp add: bind_def)

lemma calm_attempt: "m w = (r, w1) \<Longrightarrow> attempt m k w = k r w1"
  by (simp add: attempt_def)

lemma ignore_run: "ignore m w = (Inr (), snd (m w))"
  by (simp add: ignore_def attempt_def ret_def split: prod.split)

lemmas calm = calm_opt_first calm_first calm_find calm_count calm_update calm_delete
  bind_def attempt_def wrap_def ret_def fail_def now_def ignore_run

subsection \<open>Frames\<close>

definition leaves :: "(world \<Rightarrow> 'f) \<Rightarrow> 'a op \<Rightarrow> bool" where
  "leaves f m \<longleftrightarrow> (\<forall>w. f (snd (m w)) = f w)"

lemma leavesD: "leaves f m \<Longrightarrow> m w = (r, w') \<Longrightarrow> f w' = f w"
  by (auto simp: leaves_def; metis snd_conv)

lemma leaves_ret [leaves_intros]: "leaves f (ret x)"
  by (simp add: leaves_def ret_def)

lemma leaves_fail [leaves_intros]: "leaves f (fail e)"
  by (simp add: leaves_def fail_def)

lemma leaves_now [leaves_intros]: "leaves f now"
  by (simp add: leaves_def now_def)

lemma leaves_bind [leaves_intros]: "leaves f m \<Longrightarrow> (\<And>x. leaves f (k x)) \<Longrightarrow> leaves f (bind m k)"
  by (auto simp: leaves_def bind_def split: prod.splits sum.splits; metis snd_conv)

lemma leaves_attempt [leaves_intros]: "leaves f m \<Longrightarrow> (\<And>r. leaves f (k r)) \<Longrightarrow> leaves f (attempt m k)"
  by (auto simp: leaves_def attempt_def split: prod.splits; metis snd_conv)

lemma leaves_wrap [leaves_intros]: "leaves f m \<Longrightarrow> leaves f (wrap s m)"
  by (auto simp: leaves_def wrap_def split: prod.splits sum.splits; metis snd_conv)

lemma leaves_ignore [leaves_intros]: "leaves f m \<Longrightarrow> leaves f (ignore m)"
  unfolding ignore_def by (intro leaves_intros)

lemma leaves_opt_row [leaves_intros]: "leaves f m \<Longrightarrow> leaves f (opt_row m)"
  by (auto simp: leaves_def opt_row_def split: prod.splits sum.splits; metis snd_conv)

lemma leaves_for_each [leaves_intros]: "(\<And>x. leaves f (g x)) \<Longrightarrow> leaves f (for_each g xs)"
  by (induction xs) (auto intro!: leaves_intros)

lemma leaves_if [leaves_intros]: "(c \<Longrightarrow> leaves f m) \<Longrightarrow> (\<not> c \<Longrightarrow> leaves f n) \<Longrightarrow> leaves f (if c then m else n)"
  by simp

lemma leaves_option [leaves_intros]:
  "leaves f m \<Longrightarrow> (\<And>x. leaves f (k x)) \<Longrightarrow> leaves f (case y of None \<Rightarrow> m | Some x \<Rightarrow> k x)"
  by (simp split: option.split)

lemma leaves_sum [leaves_intros]:
  "(\<And>e. leaves f (m e)) \<Longrightarrow> (\<And>x. leaves f (k x)) \<Longrightarrow> leaves f (case y of Inl e \<Rightarrow> m e | Inr x \<Rightarrow> k x)"
  by (simp split: sum.split)

lemma leaves_prod [leaves_intros]: "(\<And>a b. leaves f (k a b)) \<Longrightarrow> leaves f (case p of (a, b) \<Rightarrow> k a b)"
  by (simp split: prod.split)

lemma snd_wrap [simp]: "snd (wrap s m w) = snd (m w)"
  by (simp add: wrap_def split: prod.split sum.split)

text \<open>A field that the rest of an operation leaves alone is decided by its first part.\<close>

lemma bind_rest: "(\<And>x. leaves f (k x)) \<Longrightarrow> f (snd (bind m k w)) = f (snd (m w))"
  by (auto simp: bind_def leaves_def split: prod.split sum.split)

lemma attempt_rest: "(\<And>x. leaves f (k x)) \<Longrightarrow> f (snd (attempt m k w)) = f (snd (m w))"
  by (auto simp: attempt_def leaves_def split: prod.split)

text \<open>What the bookkeeping of statements does not touch: every table, Redis, the clock.\<close>

definition stable :: "(world \<Rightarrow> 'f) \<Rightarrow> bool" where
  "stable f \<longleftrightarrow> (\<forall>w. f (adv w) = f w) \<and> (\<forall>w w1. f (rollback w w1) = f w)
     \<and> (\<forall>w g. f (w\<lparr>seqs := g\<rparr>) = f w) \<and> (\<forall>w xs. f (w\<lparr>entropy := xs\<rparr>) = f w)"

lemma leaves_stmt: "stable f \<Longrightarrow> leaves f m \<Longrightarrow> leaves f (stmt e m)"
  by (auto simp: leaves_def stmt_def stable_def)

lemma leaves_transaction [leaves_intros]: "stable f \<Longrightarrow> leaves f m \<Longrightarrow> leaves f (transaction m)"
  by (auto simp: leaves_def transaction_def stable_def split: prod.splits sum.splits; metis snd_conv)

lemma leaves_draw [leaves_intros]: "stable f \<Longrightarrow> leaves f draw"
  by (auto simp: leaves_def draw_def stable_def split: list.splits)

lemma leaves_q_first [leaves_intros]: "stable f \<Longrightarrow> leaves f (q_first T P)"
  unfolding q_first_def by (rule leaves_stmt) (auto simp: leaves_def split: option.splits)

lemma leaves_q_find [leaves_intros]: "stable f \<Longrightarrow> leaves f (q_find T P)"
  unfolding q_find_def by (rule leaves_stmt) (auto simp: leaves_def)

lemma leaves_q_count [leaves_intros]: "stable f \<Longrightarrow> leaves f (q_count T P)"
  unfolding q_count_def by (rule leaves_stmt) (auto simp: leaves_def)

lemma leaves_q_page [leaves_intros]: "stable f \<Longrightarrow> leaves f (q_page T P k p s)"
  unfolding q_page_def by (intro leaves_intros leaves_stmt) (auto simp: leaves_def)

definition apart :: "(world \<Rightarrow> 'f) \<Rightarrow> 'r tbl \<Rightarrow> bool" where
  "apart f T \<longleftrightarrow> (\<forall>g w. f (t_upd T g w) = f w)"

lemma leaves_q_update [leaves_intros]: "stable f \<Longrightarrow> apart f T \<Longrightarrow> leaves f (q_update T P g)"
  unfolding q_update_def by (rule leaves_stmt) (auto simp: leaves_def apart_def)

lemma leaves_q_delete [leaves_intros]: "stable f \<Longrightarrow> apart f T \<Longrightarrow> leaves f (q_delete T P)"
  unfolding q_delete_def by (rule leaves_stmt) (auto simp: leaves_def apart_def)

lemma leaves_q_insert [leaves_intros]: "stable f \<Longrightarrow> apart f T \<Longrightarrow> leaves f (q_insert T r)"
  unfolding q_insert_def
  by (rule leaves_stmt) (auto simp: leaves_def apart_def stable_def Let_def split: option.splits)

lemma leaves_q_save [leaves_intros]: "stable f \<Longrightarrow> apart f T \<Longrightarrow> leaves f (q_save T key r)"
  unfolding q_save_def
  by (rule leaves_stmt) (auto simp: leaves_def apart_def Let_def split: option.splits)

lemma leaves_q_upsert [leaves_intros]: "stable f \<Longrightarrow> apart f T \<Longrightarrow> leaves f (q_upsert T key g r)"
  unfolding q_upsert_def by (rule leaves_stmt) (auto simp: leaves_def apart_def)

lemma leaves_q_first_or_create [leaves_intros]:
  "stable f \<Longrightarrow> apart f T \<Longrightarrow> leaves f (q_first_or_create T P r)"
  unfolding q_first_or_create_def by (intro leaves_intros)

lemma leaves_q_assign_or_create [leaves_intros]:
  "stable f \<Longrightarrow> apart f T \<Longrightarrow> leaves f (q_assign_or_create T P key g r)"
  unfolding q_assign_or_create_def by (intro leaves_intros)

lemma stable_tables [simp, intro]:
  "stable wallets" "stable transactions" "stable orders" "stable codes" "stable accounts"
  "stable bindings" "stable products" "stable plans" "stable subs" "stable ents" "stable vips"
  "stable vip_configs" "stable refunds" "stable invoices" "stable rewards" "stable checkins"
  "stable orgs" "stable members" "stable api_keys" "stable org_wallets" "stable outbox"
  "stable settings" "stable redis" "stable published" "stable sent" "stable cfg_cache" "stable clock"
  "stable jwks_keys" "stable jwks_at"
  by (simp_all add: stable_def)

lemma stable_pair [simp, intro]: "stable f \<Longrightarrow> stable g \<Longrightarrow> stable (\<lambda>w. (f w, g w))"
  by (simp add: stable_def)

subsection \<open>Failed operations\<close>

text \<open>\<open>intact f m\<close>: when \<open>m\<close> returns an error, \<open>f\<close> of the state is as before.\<close>

definition intact :: "(world \<Rightarrow> 'f) \<Rightarrow> 'a op \<Rightarrow> bool" where
  "intact f m \<longleftrightarrow> (\<forall>w e w'. m w = (Inl e, w') \<longrightarrow> f w' = f w)"

named_theorems intact_intros \<open>what a failed operation leaves alone\<close>

lemma intactD: "intact f m \<Longrightarrow> m w = (Inl e, w') \<Longrightarrow> f w' = f w"
  by (auto simp: intact_def)

lemma intact_leaves: "leaves f m \<Longrightarrow> intact f m"
  by (auto simp: intact_def dest: leavesD)

lemma intact_fail [intact_intros]: "intact f (fail e)"
  by (simp add: intact_def fail_def)

lemma intact_bind: "leaves f m \<Longrightarrow> (\<And>x. intact f (k x)) \<Longrightarrow> intact f (bind m k)"
  unfolding intact_def leaves_def by (auto simp: bind_def split: prod.splits sum.splits) (metis snd_conv)+

lemma intact_bind_ret [intact_intros]: "intact f m \<Longrightarrow> intact f (bind m (\<lambda>x. ret (g x)))"
  by (auto simp: intact_def bind_def ret_def split: prod.splits sum.splits)

lemma intact_if [intact_intros]: "intact f m \<Longrightarrow> intact f n \<Longrightarrow> intact f (if c then m else n)"
  by simp

lemma intact_option [intact_intros]: "intact f m \<Longrightarrow> (\<And>x. intact f (k x)) \<Longrightarrow> intact f (case y of None \<Rightarrow> m | Some x \<Rightarrow> k x)"
  by (simp split: option.split)

lemma intact_q_delete [intact_intros]: "stable f \<Longrightarrow> intact f (q_delete T P)"
  by (auto simp: intact_def q_delete_def stmt_def stable_def split: if_splits)

subsection \<open>Invariants\<close>

definition keeps :: "(world \<Rightarrow> bool) \<Rightarrow> 'a op \<Rightarrow> bool" where
  "keeps I m \<longleftrightarrow> (\<forall>w. I w \<longrightarrow> I (snd (m w)))"

lemma keepsD: "keeps I m \<Longrightarrow> m w = (r, w') \<Longrightarrow> I w \<Longrightarrow> I w'"
  by (auto simp: keeps_def; metis snd_conv)

lemma keeps_leaves: "leaves I m \<Longrightarrow> keeps I m"
  by (simp add: keeps_def leaves_def)

lemma keeps_bind [keeps_intros]: "keeps I m \<Longrightarrow> (\<And>x. keeps I (k x)) \<Longrightarrow> keeps I (bind m k)"
  by (auto simp: keeps_def bind_def split: prod.splits sum.splits; metis snd_conv)

lemma keeps_attempt [keeps_intros]: "keeps I m \<Longrightarrow> (\<And>r. keeps I (k r)) \<Longrightarrow> keeps I (attempt m k)"
  by (auto simp: keeps_def attempt_def split: prod.splits; metis snd_conv)

lemma keeps_wrap [keeps_intros]: "keeps I m \<Longrightarrow> keeps I (wrap s m)"
  by (auto simp: keeps_def wrap_def split: prod.splits sum.splits; metis snd_conv)

lemma keeps_ret [keeps_intros]: "keeps I (ret x)"
  by (simp add: keeps_def ret_def)

lemma keeps_fail [keeps_intros]: "keeps I (fail e)"
  by (simp add: keeps_def fail_def)

lemma keeps_now [keeps_intros]: "keeps I now"
  by (simp add: keeps_def now_def)

lemma keeps_ignore [keeps_intros]: "keeps I m \<Longrightarrow> keeps I (ignore m)"
  unfolding ignore_def by (intro keeps_intros)

lemma keeps_opt_row [keeps_intros]: "keeps I m \<Longrightarrow> keeps I (opt_row m)"
  by (auto simp: keeps_def opt_row_def split: prod.splits sum.splits; metis snd_conv)

lemma keeps_for_each [keeps_intros]: "(\<And>x. keeps I (g x)) \<Longrightarrow> keeps I (for_each g xs)"
  by (induction xs) (auto intro!: keeps_intros)

lemma keeps_if [keeps_intros]: "(c \<Longrightarrow> keeps I m) \<Longrightarrow> (\<not> c \<Longrightarrow> keeps I n) \<Longrightarrow> keeps I (if c then m else n)"
  by simp

lemma keeps_option [keeps_intros]:
  "keeps I m \<Longrightarrow> (\<And>x. keeps I (k x)) \<Longrightarrow> keeps I (case y of None \<Rightarrow> m | Some x \<Rightarrow> k x)"
  by (simp split: option.split)

lemma keeps_sum [keeps_intros]:
  "(\<And>e. keeps I (m e)) \<Longrightarrow> (\<And>x. keeps I (k x)) \<Longrightarrow> keeps I (case y of Inl e \<Rightarrow> m e | Inr x \<Rightarrow> k x)"
  by (simp split: sum.split)

lemma keeps_prod [keeps_intros]: "(\<And>a b. keeps I (k a b)) \<Longrightarrow> keeps I (case p of (a, b) \<Rightarrow> k a b)"
  by (simp split: prod.split)

lemma keeps_stmt: "stable I \<Longrightarrow> keeps I m \<Longrightarrow> keeps I (stmt e m)"
  by (auto simp: keeps_def stmt_def stable_def)

text \<open>
  A transaction keeps what its body establishes when it commits; on the way the invariant may
  be broken.
\<close>

lemma keeps_transaction:
  assumes "stable I" and "\<And>w x w1. m w = (Inr x, w1) \<Longrightarrow> I w \<Longrightarrow> I w1"
  shows "keeps I (transaction m)"
  using assms by (auto simp: keeps_def transaction_def stable_def split: prod.splits sum.splits)

lemma keeps_atomic:
  assumes "stable I" and "m = transaction f" and "\<And>w x w1. m w = (Inr x, w1) \<Longrightarrow> I w \<Longrightarrow> I w1"
  shows "keeps I m"
  unfolding keeps_def
proof (intro allI impI)
  fix w assume I: "I w"
  obtain r w1 where m: "m w = (r, w1)" by (cases "m w")
  show "I (snd (m w))"
  proof (cases r)
    case (Inl e)
    with m obtain w2 where "w1 = rollback w w2" using assms(2) by (auto dest: transaction_rollback)
    with m I assms(1) show ?thesis by (simp add: stable_def)
  next
    case (Inr x)
    with m I assms(3) show ?thesis by simp
  qed
qed

lemma keeps_draw [keeps_intros]: "stable I \<Longrightarrow> keeps I draw"
  by (rule keeps_leaves) (rule leaves_draw)

lemma keeps_q_first [keeps_intros]: "stable I \<Longrightarrow> keeps I (q_first T P)"
  by (rule keeps_leaves) (rule leaves_q_first)

lemma keeps_q_find [keeps_intros]: "stable I \<Longrightarrow> keeps I (q_find T P)"
  by (rule keeps_leaves) (rule leaves_q_find)

lemma keeps_q_count [keeps_intros]: "stable I \<Longrightarrow> keeps I (q_count T P)"
  by (rule keeps_leaves) (rule leaves_q_count)

lemma keeps_q_page [keeps_intros]: "stable I \<Longrightarrow> keeps I (q_page T P k p s)"
  by (rule keeps_leaves) (rule leaves_q_page)

lemma keeps_q_update:
  "stable I \<Longrightarrow> (\<And>w. I w \<Longrightarrow> I (t_upd T (upd_rows P (\<lambda>r. t_cols T (t_touch T (clock w) (f r)))) w))
   \<Longrightarrow> keeps I (q_update T P f)"
  unfolding q_update_def by (rule keeps_stmt) (auto simp: keeps_def)

lemma keeps_q_delete:
  "stable I \<Longrightarrow> (\<And>w. I w \<Longrightarrow> I (t_upd T (filter (\<lambda>r. \<not> P r)) w)) \<Longrightarrow> keeps I (q_delete T P)"
  unfolding q_delete_def by (rule keeps_stmt) (auto simp: keeps_def)

lemma keeps_q_insert:
  assumes "stable I"
    and "\<And>w i. I w \<Longrightarrow> t_conflict T (t_new T i (clock w) r) (t_get T w) = None
           \<Longrightarrow> I (t_upd T (\<lambda>t. t @ [t_cols T (t_new T i (clock w) r)]) (w\<lparr>seqs := (seqs w)(t_name T := i + 1)\<rparr>))"
  shows "keeps I (q_insert T r)"
  unfolding q_insert_def using assms
  by (intro keeps_stmt) (auto simp: keeps_def Let_def stable_def split: option.splits)

lemma keeps_q_save:
  assumes "stable I"
    and "\<And>w. I w \<Longrightarrow> t_conflict T (t_touch T (clock w) r) (filter (\<lambda>x. key x \<noteq> key r) (t_get T w)) = None
           \<Longrightarrow> I (t_upd T (upd_rows (\<lambda>x. key x = key r) (\<lambda>_. t_cols T (t_touch T (clock w) r))) w)"
    and "\<And>w. I w \<Longrightarrow> \<forall>x\<in>set (t_get T w). key x \<noteq> key r
           \<Longrightarrow> t_conflict T (t_touch T (clock w) r) (filter (\<lambda>x. key x \<noteq> key r) (t_get T w)) = None
           \<Longrightarrow> I (t_upd T (\<lambda>t. t @ [t_cols T (t_touch T (clock w) r)]) w)"
  shows "keeps I (q_save T key r)"
  unfolding q_save_def
proof (rule keeps_stmt [OF assms(1)], unfold keeps_def, intro allI impI)
  fix w assume "I w"
  with assms(2,3) [of w] show "I (snd (let r1 = t_touch T (clock w) r in
      case t_conflict T r1 (filter (\<lambda>x. key x \<noteq> key r) (t_get T w)) of
        Some c \<Rightarrow> (Inl (EUnique c), w)
      | None \<Rightarrow> (Inr (), if \<exists>x\<in>set (t_get T w). key x = key r
                       then t_upd T (upd_rows (\<lambda>x. key x = key r) (\<lambda>_. t_cols T r1)) w
                       else t_upd T (\<lambda>t. t @ [t_cols T r1]) w)))"
    unfolding Let_def by (cases "t_conflict T (t_touch T (clock w) r) (filter (\<lambda>x. key x \<noteq> key r) (t_get T w))") auto
qed

end
