(* ===== verification/Tables.thy ===== *)
theory Tables
  imports World
begin

text \<open>
  The schema (\<^verbatim>\<open>migrations/*.sql\<close>): for every table its unique constraints and
  partial unique indexes, the precision of its decimal columns, its defaults, and the
  timestamps GORM maintains. A zero value of a Go field whose tag names a default is inserted
  as the default.
\<close>

named_theorems table_defs \<open>the tables\<close>

definition clash :: "bool \<Rightarrow> string \<Rightarrow> string option \<Rightarrow> string option" where
  "clash b c rest = (if b then Some c else rest)"

lemma clash_None [simp]: "clash b c rest = None \<longleftrightarrow> \<not> b \<and> rest = None"
  by (simp add: clash_def)

definition stamp :: "time \<Rightarrow> time \<Rightarrow> time" where
  "stamp n t = (if t = zero_time then n else t)"

definition or_default :: "'a \<Rightarrow> 'a \<Rightarrow> 'a \<Rightarrow> 'a" where
  "or_default z d x = (if x = z then d else x)"

definition serial :: "int \<Rightarrow> int \<Rightarrow> int" where
  "serial i x = (if x = 0 then i else x)"

section \<open>billing\<close>

definition wallets_T :: "Wallet tbl" where
  "wallets_T = \<lparr>t_name = ''wallets'', t_get = wallets, t_upd = wallets_update,
     t_conflict = (\<lambda>r t. clash (\<exists>x\<in>set t. wal_ID x = wal_ID r) ''wallets_pkey''
                        (clash (\<exists>x\<in>set t. wal_AccountID x = wal_AccountID r) ''wallets_account_id_key'' None)),
     t_cols = (\<lambda>r. r\<lparr>wal_Balance := dec 4 (wal_Balance r), wal_Frozen := dec 4 (wal_Frozen r),
        wal_LifetimeTopup := dec 2 (wal_LifetimeTopup r), wal_LifetimeSpend := dec 2 (wal_LifetimeSpend r)\<rparr>),
     t_new = (\<lambda>i n r. r\<lparr>wal_ID := serial i (wal_ID r)\<rparr>), t_touch = (\<lambda>n r. r)\<rparr>"

definition transactions_T :: "WalletTransaction tbl" where
  "transactions_T = \<lparr>t_name = ''wallet_transactions'', t_get = transactions, t_upd = transactions_update,
     t_conflict = (\<lambda>r t. clash (\<exists>x\<in>set t. tx_ID x = tx_ID r) ''wallet_transactions_pkey'' None),
     t_cols = (\<lambda>r. r\<lparr>tx_Amount := dec 4 (tx_Amount r), tx_BalanceAfter := dec 4 (tx_BalanceAfter r)\<rparr>),
     t_new = (\<lambda>i n r. r\<lparr>tx_ID := serial i (tx_ID r), tx_CreatedAt := stamp n (tx_CreatedAt r),
        tx_Metadata := or_default JNull (JObj []) (tx_Metadata r)\<rparr>),
     t_touch = (\<lambda>n r. r)\<rparr>"

definition orders_T :: "PaymentOrder tbl" where
  "orders_T = \<lparr>t_name = ''payment_orders'', t_get = orders, t_upd = orders_update,
     t_conflict = (\<lambda>r t. clash (\<exists>x\<in>set t. ord_ID x = ord_ID r) ''payment_orders_pkey''
                        (clash (\<exists>x\<in>set t. ord_OrderNo x = ord_OrderNo r) ''payment_orders_order_no_key'' None)),
     t_cols = (\<lambda>r. r\<lparr>ord_AmountCNY := dec 2 (ord_AmountCNY r)\<rparr>),
     t_new = (\<lambda>i n r. r\<lparr>ord_ID := serial i (ord_ID r), ord_CreatedAt := stamp n (ord_CreatedAt r),
        ord_UpdatedAt := stamp n (ord_UpdatedAt r), ord_Currency := or_default '''' ''CNY'' (ord_Currency r),
        ord_Status := or_default '''' OrderStatusPending (ord_Status r),
        ord_CallbackData := or_default JNull (JObj []) (ord_CallbackData r)\<rparr>),
     t_touch = (\<lambda>n r. r\<lparr>ord_UpdatedAt := n\<rparr>)\<rparr>"

definition codes_T :: "RedemptionCode tbl" where
  "codes_T = \<lparr>t_name = ''redemption_codes'', t_get = codes, t_upd = codes_update,
     t_conflict = (\<lambda>r t. clash (\<exists>x\<in>set t. rc_ID x = rc_ID r) ''redemption_codes_pkey''
                        (clash (\<exists>x\<in>set t. rc_Code x = rc_Code r) ''redemption_codes_code_key'' None)),
     t_cols = (\<lambda>r. r\<lparr>rc_RewardValue := dec 4 (rc_RewardValue r)\<rparr>),
     t_new = (\<lambda>i n r. r\<lparr>rc_ID := serial i (rc_ID r), rc_CreatedAt := stamp n (rc_CreatedAt r),
        rc_MaxUses := or_default 0 1 (rc_MaxUses r),
        rc_RewardMetadata := or_default JNull (JObj []) (rc_RewardMetadata r)\<rparr>),
     t_touch = (\<lambda>n r. r)\<rparr>"

definition refunds_T :: "Refund tbl" where
  "refunds_T = \<lparr>t_name = ''refunds'', t_get = refunds, t_upd = refunds_update,
     t_conflict = (\<lambda>r t. clash (\<exists>x\<in>set t. rfd_ID x = rfd_ID r) ''refunds_pkey''
                        (clash (\<exists>x\<in>set t. rfd_RefundNo x = rfd_RefundNo r) ''refunds_refund_no_key'' None)),
     t_cols = (\<lambda>r. r\<lparr>rfd_AmountCNY := dec 2 (rfd_AmountCNY r)\<rparr>),
     t_new = (\<lambda>i n r. r\<lparr>rfd_ID := serial i (rfd_ID r), rfd_CreatedAt := stamp n (rfd_CreatedAt r),
        rfd_UpdatedAt := stamp n (rfd_UpdatedAt r),
        rfd_Status := or_default '''' RefundStatusPending (rfd_Status r)\<rparr>),
     t_touch = (\<lambda>n r. r\<lparr>rfd_UpdatedAt := n\<rparr>)\<rparr>"

definition invoices_T :: "Invoice tbl" where
  "invoices_T = \<lparr>t_name = ''invoices'', t_get = invoices, t_upd = invoices_update,
     t_conflict = (\<lambda>r t. clash (\<exists>x\<in>set t. inv_ID x = inv_ID r) ''invoices_pkey''
                        (clash (\<exists>x\<in>set t. inv_InvoiceNo x = inv_InvoiceNo r) ''invoices_invoice_no_key''
                        (clash (\<exists>x\<in>set t. inv_OrderNo x = inv_OrderNo r) ''invoices_order_no_key'' None))),
     t_cols = (\<lambda>r. r\<lparr>inv_SubtotalCNY := dec 2 (inv_SubtotalCNY r), inv_TotalCNY := dec 2 (inv_TotalCNY r)\<rparr>),
     t_new = (\<lambda>i n r. r\<lparr>inv_ID := serial i (inv_ID r), inv_CreatedAt := stamp n (inv_CreatedAt r),
        inv_UpdatedAt := stamp n (inv_UpdatedAt r), inv_Currency := or_default '''' ''CNY'' (inv_Currency r),
        inv_Status := or_default '''' InvoiceStatusIssued (inv_Status r)\<rparr>),
     t_touch = (\<lambda>n r. r\<lparr>inv_UpdatedAt := n\<rparr>)\<rparr>"

definition rewards_T :: "ReferralRewardEvent tbl" where
  "rewards_T = \<lparr>t_name = ''referral_reward_events'', t_get = rewards, t_upd = rewards_update,
     t_conflict = (\<lambda>r t. clash (\<exists>x\<in>set t. rre_ID x = rre_ID r) ''referral_reward_events_pkey''
                        (clash (\<exists>x\<in>set t. rre_ReferrerID x = rre_ReferrerID r \<and> rre_RefereeID x = rre_RefereeID r
                                  \<and> rre_EventType x = rre_EventType r) ''uq_referral_reward_event'' None)),
     t_cols = (\<lambda>r. r\<lparr>rre_RewardCredits := dec 4 (rre_RewardCredits r)\<rparr>),
     t_new = (\<lambda>i n r. r\<lparr>rre_ID := serial i (rre_ID r), rre_TriggeredAt := stamp n (rre_TriggeredAt r)\<rparr>),
     t_touch = (\<lambda>n r. r)\<rparr>"

definition org_wallets_T :: "OrgWallet tbl" where
  "org_wallets_T = \<lparr>t_name = ''org_wallets'', t_get = org_wallets, t_upd = org_wallets_update,
     t_conflict = (\<lambda>r t. clash (\<exists>x\<in>set t. owl_OrgID x = owl_OrgID r) ''org_wallets_pkey'' None),
     t_cols = (\<lambda>r. r\<lparr>owl_Balance := dec 4 (owl_Balance r), owl_Frozen := dec 4 (owl_Frozen r),
        owl_LifetimeTopup := dec 4 (owl_LifetimeTopup r), owl_LifetimeSpend := dec 4 (owl_LifetimeSpend r)\<rparr>),
     t_new = (\<lambda>i n r. r\<lparr>owl_UpdatedAt := stamp n (owl_UpdatedAt r)\<rparr>),
     t_touch = (\<lambda>n r. r\<lparr>owl_UpdatedAt := n\<rparr>)\<rparr>"

section \<open>identity\<close>

text \<open>
  Migration 012 adds the partial index on the e-mail column but leaves the constraint
  \<^verbatim>\<open>accounts_email_key\<close> of migration 001 in place, which also covers the empty text.
\<close>

definition accounts_T :: "Account tbl" where
  "accounts_T = \<lparr>t_name = ''accounts'', t_get = accounts, t_upd = accounts_update,
     t_conflict = (\<lambda>r t. clash (\<exists>x\<in>set t. acc_ID x = acc_ID r) ''accounts_pkey''
        (clash (\<exists>x\<in>set t. acc_LurusID x = acc_LurusID r) ''accounts_lurus_id_key''
        (clash (\<exists>x\<in>set t. acc_ZitadelSub x = acc_ZitadelSub r) ''accounts_zitadel_sub_key''
        (clash (\<exists>x\<in>set t. acc_AffCode x = acc_AffCode r) ''accounts_aff_code_key''
        (clash (\<exists>x\<in>set t. acc_Email x = acc_Email r) ''accounts_email_key''
        (clash (acc_Phone r \<noteq> '''' \<and> (\<exists>x\<in>set t. acc_Phone x = acc_Phone r)) ''idx_accounts_phone_unique''
        (clash (acc_Username r \<noteq> '''' \<and> (\<exists>x\<in>set t. acc_Username x \<noteq> '''' \<and> ToLower (acc_Username x) = ToLower (acc_Username r)))
           ''idx_accounts_username_lower_unique'' None))))))),
     t_cols = (\<lambda>r. r),
     t_new = (\<lambda>i n r. r\<lparr>acc_ID := serial i (acc_ID r), acc_CreatedAt := stamp n (acc_CreatedAt r),
        acc_UpdatedAt := stamp n (acc_UpdatedAt r), acc_Status := or_default 0 1 (acc_Status r),
        acc_Locale := or_default '''' ''zh-CN'' (acc_Locale r)\<rparr>),
     t_touch = (\<lambda>n r. r\<lparr>acc_UpdatedAt := n\<rparr>)\<rparr>"

definition bindings_T :: "OAuthBinding tbl" where
  "bindings_T = \<lparr>t_name = ''account_oauth_bindings'', t_get = bindings, t_upd = bindings_update,
     t_conflict = (\<lambda>r t. clash (\<exists>x\<in>set t. oab_ID x = oab_ID r) ''account_oauth_bindings_pkey''
        (clash (\<exists>x\<in>set t. oab_Provider x = oab_Provider r \<and> oab_ProviderID x = oab_ProviderID r)
           ''account_oauth_bindings_provider_key'' None)),
     t_cols = (\<lambda>r. r),
     t_new = (\<lambda>i n r. r\<lparr>oab_ID := serial i (oab_ID r), oab_CreatedAt := stamp n (oab_CreatedAt r)\<rparr>),
     t_touch = (\<lambda>n r. r)\<rparr>"

definition products_T :: "Product tbl" where
  "products_T = \<lparr>t_name = ''products'', t_get = products, t_upd = products_update,
     t_conflict = (\<lambda>r t. clash (\<exists>x\<in>set t. prd_ID x = prd_ID r) ''products_pkey'' None),
     t_cols = (\<lambda>r. r),
     t_new = (\<lambda>i n r. r\<lparr>prd_Status := or_default 0 1 (prd_Status r),
        prd_Config := or_default JNull (JObj []) (prd_Config r)\<rparr>),
     t_touch = (\<lambda>n r. r)\<rparr>"

definition plans_T :: "ProductPlan tbl" where
  "plans_T = \<lparr>t_name = ''product_plans'', t_get = plans, t_upd = plans_update,
     t_conflict = (\<lambda>r t. clash (\<exists>x\<in>set t. plan_ID x = plan_ID r) ''product_plans_pkey''
        (clash (\<exists>x\<in>set t. plan_ProductID x = plan_ProductID r \<and> plan_Code x = plan_Code r)
           ''product_plans_product_id_code_key'' None)),
     t_cols = (\<lambda>r. r\<lparr>plan_PriceCNY := dec 2 (plan_PriceCNY r), plan_PriceUSD := dec 2 (plan_PriceUSD r)\<rparr>),
     t_new = (\<lambda>i n r. r\<lparr>plan_ID := serial i (plan_ID r), plan_CreatedAt := stamp n (plan_CreatedAt r),
        plan_UpdatedAt := stamp n (plan_UpdatedAt r), plan_Status := or_default 0 1 (plan_Status r),
        plan_Features := or_default JNull (JObj []) (plan_Features r)\<rparr>),
     t_touch = (\<lambda>n r. r\<lparr>plan_UpdatedAt := n\<rparr>)\<rparr>"

text \<open>\<^verbatim>\<open>idx_subs_active_unique\<close>: one live subscription per account and product.\<close>

definition subs_T :: "Subscription tbl" where
  "subs_T = \<lparr>t_name = ''subscriptions'', t_get = subs, t_upd = subs_update,
     t_conflict = (\<lambda>r t. clash (\<exists>x\<in>set t. sub_ID x = sub_ID r) ''subscriptions_pkey''
        (clash (IsLive r \<and> (\<exists>x\<in>set t. IsLive x \<and> sub_AccountID x = sub_AccountID r \<and> sub_ProductID x = sub_ProductID r))
           ''idx_subs_active_unique'' None)),
     t_cols = (\<lambda>r. r),
     t_new = (\<lambda>i n r. r\<lparr>sub_ID := serial i (sub_ID r), sub_CreatedAt := stamp n (sub_CreatedAt r),
        sub_UpdatedAt := stamp n (sub_UpdatedAt r),
        sub_Status := or_default '''' SubStatusPending (sub_Status r)\<rparr>),
     t_touch = (\<lambda>n r. r\<lparr>sub_UpdatedAt := n\<rparr>)\<rparr>"

definition ents_T :: "AccountEntitlement tbl" where
  "ents_T = \<lparr>t_name = ''account_entitlements'', t_get = ents, t_upd = ents_update,
     t_conflict = (\<lambda>r t. clash (\<exists>x\<in>set t. ent_ID x = ent_ID r) ''account_entitlements_pkey''
        (clash (\<exists>x\<in>set t. ent_AccountID x = ent_AccountID r \<and> ent_ProductID x = ent_ProductID r \<and> ent_Key x = ent_Key r)
           ''account_entitlements_key'' None)),
     t_cols = (\<lambda>r. r),
     t_new = (\<lambda>i n r. r\<lparr>ent_ID := serial i (ent_ID r),
        ent_ValueType := or_default '''' ''string'' (ent_ValueType r)\<rparr>),
     t_touch = (\<lambda>n r. r)\<rparr>"

definition vips_T :: "AccountVIP tbl" where
  "vips_T = \<lparr>t_name = ''account_vip'', t_get = vips, t_upd = vips_update,
     t_conflict = (\<lambda>r t. clash (\<exists>x\<in>set t. vip_AccountID x = vip_AccountID r) ''account_vip_pkey'' None),
     t_cols = (\<lambda>r. r),
     t_new = (\<lambda>i n r. r\<lparr>vip_UpdatedAt := stamp n (vip_UpdatedAt r)\<rparr>),
     t_touch = (\<lambda>n r. r\<lparr>vip_UpdatedAt := n\<rparr>)\<rparr>"

definition vip_configs_T :: "VIPLevelConfig tbl" where
  "vip_configs_T = \<lparr>t_name = ''vip_level_configs'', t_get = vip_configs, t_upd = vip_configs_update,
     t_conflict = (\<lambda>r t. clash (\<exists>x\<in>set t. vlc_Level x = vlc_Level r) ''vip_level_configs_pkey'' None),
     t_cols = (\<lambda>r. r\<lparr>vlc_MinSpendCNY := dec 2 (vlc_MinSpendCNY r), vlc_GlobalDiscount := dec 3 (vlc_GlobalDiscount r)\<rparr>),
     t_new = (\<lambda>i n r. r), t_touch = (\<lambda>n r. r)\<rparr>"

definition checkins_T :: "Checkin tbl" where
  "checkins_T = \<lparr>t_name = ''checkins'', t_get = checkins, t_upd = checkins_update,
     t_conflict = (\<lambda>r t. clash (\<exists>x\<in>set t. chk_ID x = chk_ID r) ''checkins_pkey''
        (clash (\<exists>x\<in>set t. chk_AccountID x = chk_AccountID r \<and> chk_CheckinDate x = chk_CheckinDate r)
           ''uq_checkin_daily'' None)),
     t_cols = (\<lambda>r. r\<lparr>chk_RewardValue := dec 4 (chk_RewardValue r)\<rparr>),
     t_new = (\<lambda>i n r. r\<lparr>chk_ID := serial i (chk_ID r), chk_CreatedAt := stamp n (chk_CreatedAt r),
        chk_RewardType := or_default '''' ''credits'' (chk_RewardType r)\<rparr>),
     t_touch = (\<lambda>n r. r)\<rparr>"

definition orgs_T :: "Organization tbl" where
  "orgs_T = \<lparr>t_name = ''organizations'', t_get = orgs, t_upd = orgs_update,
     t_conflict = (\<lambda>r t. clash (\<exists>x\<in>set t. org_ID x = org_ID r) ''organizations_pkey''
        (clash (\<exists>x\<in>set t. org_Slug x = org_Slug r) ''organizations_slug_key'' None)),
     t_cols = (\<lambda>r. r),
     t_new = (\<lambda>i n r. r\<lparr>org_ID := serial i (org_ID r), org_CreatedAt := stamp n (org_CreatedAt r),
        org_UpdatedAt := stamp n (org_UpdatedAt r), org_Status := or_default '''' ''active'' (org_Status r),
        org_Plan := or_default '''' ''free'' (org_Plan r)\<rparr>),
     t_touch = (\<lambda>n r. r\<lparr>org_UpdatedAt := n\<rparr>)\<rparr>"

definition members_T :: "OrgMember tbl" where
  "members_T = \<lparr>t_name = ''org_members'', t_get = members, t_upd = members_update,
     t_conflict = (\<lambda>r t. clash (\<exists>x\<in>set t. mem_OrgID x = mem_OrgID r \<and> mem_AccountID x = mem_AccountID r)
        ''org_members_pkey'' None),
     t_cols = (\<lambda>r. r),
     t_new = (\<lambda>i n r. r\<lparr>mem_JoinedAt := stamp n (mem_JoinedAt r),
        mem_Role := or_default '''' ''member'' (mem_Role r)\<rparr>),
     t_touch = (\<lambda>n r. r)\<rparr>"

definition api_keys_T :: "OrgAPIKey tbl" where
  "api_keys_T = \<lparr>t_name = ''org_api_keys'', t_get = api_keys, t_upd = api_keys_update,
     t_conflict = (\<lambda>r t. clash (\<exists>x\<in>set t. key_ID x = key_ID r) ''org_api_keys_pkey''
        (clash (\<exists>x\<in>set t. key_KeyHash x = key_KeyHash r) ''org_api_keys_key_hash_key'' None)),
     t_cols = (\<lambda>r. r),
     t_new = (\<lambda>i n r. r\<lparr>key_ID := serial i (key_ID r), key_CreatedAt := stamp n (key_CreatedAt r),
        key_Status := or_default '''' ''active'' (key_Status r)\<rparr>),
     t_touch = (\<lambda>n r. r)\<rparr>"

definition outbox_T :: "OutboxEvent tbl" where
  "outbox_T = \<lparr>t_name = ''outbox_events'', t_get = outbox, t_upd = outbox_update,
     t_conflict = (\<lambda>r t. clash (\<exists>x\<in>set t. obx_ID x = obx_ID r) ''outbox_events_pkey'' None),
     t_cols = (\<lambda>r. r),
     t_new = (\<lambda>i n r. r\<lparr>obx_ID := serial i (obx_ID r), obx_CreatedAt := stamp n (obx_CreatedAt r)\<rparr>),
     t_touch = (\<lambda>n r. r)\<rparr>"

definition settings_T :: "AdminSetting tbl" where
  "settings_T = \<lparr>t_name = ''settings'', t_get = settings, t_upd = settings_update,
     t_conflict = (\<lambda>r t. clash (\<exists>x\<in>set t. ads_Key x = ads_Key r) ''settings_pkey'' None),
     t_cols = (\<lambda>r. r), t_new = (\<lambda>i n r. r),
     t_touch = (\<lambda>n r. r\<lparr>ads_UpdatedAt := n\<rparr>)\<rparr>"

lemmas table_defs_all [table_defs] =
  wallets_T_def transactions_T_def orders_T_def codes_T_def refunds_T_def invoices_T_def rewards_T_def
  org_wallets_T_def accounts_T_def bindings_T_def products_T_def plans_T_def subs_T_def ents_T_def
  vips_T_def vip_configs_T_def checkins_T_def orgs_T_def members_T_def api_keys_T_def outbox_T_def
  settings_T_def

lemma t_get_tables [simp]:
  "t_get wallets_T = wallets"
  "t_get transactions_T = transactions"
  "t_get orders_T = orders"
  "t_get codes_T = codes"
  "t_get refunds_T = refunds"
  "t_get invoices_T = invoices"
  "t_get rewards_T = rewards"
  "t_get org_wallets_T = org_wallets"
  "t_get accounts_T = accounts"
  "t_get bindings_T = bindings"
  "t_get products_T = products"
  "t_get plans_T = plans"
  "t_get subs_T = subs"
  "t_get ents_T = ents"
  "t_get vips_T = vips"
  "t_get vip_configs_T = vip_configs"
  "t_get checkins_T = checkins"
  "t_get orgs_T = orgs"
  "t_get members_T = members"
  "t_get api_keys_T = api_keys"
  "t_get outbox_T = outbox"
  "t_get settings_T = settings"
  by (simp_all add: table_defs_all)

lemma t_upd_tables [simp]:
  "t_upd wallets_T = wallets_update"
  "t_upd transactions_T = transactions_update"
  "t_upd orders_T = orders_update"
  "t_upd codes_T = codes_update"
  "t_upd refunds_T = refunds_update"
  "t_upd invoices_T = invoices_update"
  "t_upd rewards_T = rewards_update"
  "t_upd org_wallets_T = org_wallets_update"
  "t_upd accounts_T = accounts_update"
  "t_upd bindings_T = bindings_update"
  "t_upd products_T = products_update"
  "t_upd plans_T = plans_update"
  "t_upd subs_T = subs_update"
  "t_upd ents_T = ents_update"
  "t_upd vips_T = vips_update"
  "t_upd vip_configs_T = vip_configs_update"
  "t_upd checkins_T = checkins_update"
  "t_upd orgs_T = orgs_update"
  "t_upd members_T = members_update"
  "t_upd api_keys_T = api_keys_update"
  "t_upd outbox_T = outbox_update"
  "t_upd settings_T = settings_update"
  by (simp_all add: table_defs_all)

lemma t_name_tables [simp]:
  "t_name wallets_T = ''wallets''"
  "t_name transactions_T = ''wallet_transactions''"
  "t_name orders_T = ''payment_orders''"
  "t_name codes_T = ''redemption_codes''"
  "t_name refunds_T = ''refunds''"
  "t_name invoices_T = ''invoices''"
  "t_name rewards_T = ''referral_reward_events''"
  "t_name org_wallets_T = ''org_wallets''"
  "t_name accounts_T = ''accounts''"
  "t_name bindings_T = ''account_oauth_bindings''"
  "t_name products_T = ''products''"
  "t_name plans_T = ''product_plans''"
  "t_name subs_T = ''subscriptions''"
  "t_name ents_T = ''account_entitlements''"
  "t_name vips_T = ''account_vip''"
  "t_name vip_configs_T = ''vip_level_configs''"
  "t_name checkins_T = ''checkins''"
  "t_name orgs_T = ''organizations''"
  "t_name members_T = ''org_members''"
  "t_name api_keys_T = ''org_api_keys''"
  "t_name outbox_T = ''outbox_events''"
  "t_name settings_T = ''settings''"
  by (simp_all add: table_defs_all)

end
