(* ===== verification/Redis.thy ===== *)
theory Redis
  imports Tables
begin

text \<open>
  Redis as the program uses it: \<^verbatim>\<open>GET\<close>, \<^verbatim>\<open>SET\<close> with a time to live,
  \<^verbatim>\<open>SET NX\<close>, \<^verbatim>\<open>DEL\<close>; the two caches of \<^verbatim>\<open>internal/pkg/cache\<close> and the
  webhook deduplication of \<^verbatim>\<open>internal/pkg/idempotency\<close>. A cache stores JSON; the
  model keeps the decoded value, so that decoding what was encoded is the identity.
\<close>

section \<open>Commands\<close>

definition live :: "string \<Rightarrow> world \<Rightarrow> rval option" where
  "live k w = (case redis w k of None \<Rightarrow> None
     | Some (v, None) \<Rightarrow> Some v
     | Some (v, Some t) \<Rightarrow> if clock w < t then Some v else None)"

definition r_get :: "string \<Rightarrow> rval option op" where
  "r_get k = stmt ERedis (\<lambda>w. (Inr (live k w), w))"

definition r_set :: "string \<Rightarrow> rval \<Rightarrow> time \<Rightarrow> unit op" where
  "r_set k v ttl = stmt ERedis (\<lambda>w. (Inr (),
     w\<lparr>redis := (redis w)(k \<mapsto> (v, if ttl = 0 then None else Some (clock w + ttl)))\<rparr>))"

definition r_setnx :: "string \<Rightarrow> rval \<Rightarrow> time \<Rightarrow> bool op" where
  "r_setnx k v ttl = stmt ERedis (\<lambda>w. case live k w of
      Some _ \<Rightarrow> (Inr False, w)
    | None \<Rightarrow> (Inr True, w\<lparr>redis := (redis w)(k \<mapsto> (v, if ttl = 0 then None else Some (clock w + ttl)))\<rparr>))"

definition r_del :: "string \<Rightarrow> unit op" where
  "r_del k = stmt ERedis (\<lambda>w. (Inr (), w\<lparr>redis := (redis w)(k := None)\<rparr>))"

section \<open>Entitlement cache\<close>

definition minutes :: "int \<Rightarrow> time" where
  "minutes n = n * 60000000000"

text \<open>\<^verbatim>\<open>CACHE_ENTITLEMENT_TTL\<close>, default five minutes.\<close>

definition CacheEntitlementTTL :: time where
  "CacheEntitlementTTL = minutes 5"

definition cacheKey :: "int \<Rightarrow> string \<Rightarrow> string" where
  "cacheKey accountID productID = ''identity:entitlements:'' @ itoa accountID @ '':'' @ productID"

definition EntitlementCache_Get :: "int \<Rightarrow> string \<Rightarrow> (string \<Rightarrow> string option) option op" where
  "EntitlementCache_Get accountID productID =
     bind (wrap ''cache get'' (r_get (cacheKey accountID productID))) (\<lambda>v. case v of
       None \<Rightarrow> ret None
     | Some (RMap m) \<Rightarrow> ret (Some m)
     | Some _ \<Rightarrow> fail (EMsg ''cache unmarshal''))"

definition EntitlementCache_Set :: "int \<Rightarrow> string \<Rightarrow> (string \<Rightarrow> string option) \<Rightarrow> unit op" where
  "EntitlementCache_Set accountID productID em = r_set (cacheKey accountID productID) (RMap em) CacheEntitlementTTL"

definition EntitlementCache_Invalidate :: "int \<Rightarrow> string \<Rightarrow> unit op" where
  "EntitlementCache_Invalidate accountID productID = r_del (cacheKey accountID productID)"

section \<open>Overview cache\<close>

definition OverviewTTL :: time where
  "OverviewTTL = minutes 2"

definition overviewKey :: "int \<Rightarrow> string \<Rightarrow> string" where
  "overviewKey accountID productID = ''identity:overview:'' @ itoa accountID @ '':'' @ productID"

definition OverviewCache_Get :: "int \<Rightarrow> string \<Rightarrow> rval option op" where
  "OverviewCache_Get accountID productID = wrap ''overview cache get'' (r_get (overviewKey accountID productID))"

definition OverviewCache_Set :: "int \<Rightarrow> string \<Rightarrow> AccountOverview \<Rightarrow> unit op" where
  "OverviewCache_Set accountID productID data = r_set (overviewKey accountID productID) (ROv data) OverviewTTL"

definition OverviewCache_Invalidate :: "int \<Rightarrow> string \<Rightarrow> unit op" where
  "OverviewCache_Invalidate accountID productID = r_del (overviewKey accountID productID)"

section \<open>Webhook deduplication\<close>

definition DefaultWebhookTTL :: time where
  "DefaultWebhookTTL = minutes (24 * 60)"

definition dedup_key :: "string \<Rightarrow> string" where
  "dedup_key eventID = ''webhook:seen:'' @ eventID"

text \<open>\<open>True\<close>: go on and process the event. A Redis error fails open.\<close>

definition WebhookDeduper_TryProcess :: "string \<Rightarrow> bool op" where
  "WebhookDeduper_TryProcess eventID =
     (if eventID = '''' then ret True else
      attempt (r_setnx (dedup_key eventID) (RStr ''1'') DefaultWebhookTTL) (\<lambda>r. case r of
        Inl e \<Rightarrow> ret True
      | Inr was_set \<Rightarrow> ret was_set))"

section \<open>Facts\<close>

lemma live_adv [simp]: "live k (adv w) = live k w"
  by (simp add: live_def split: option.split)

lemma live_set: "live j (w\<lparr>redis := (redis w)(k \<mapsto> (v, Some (clock w + t)))\<rparr>) =
   (if j = k then (if 0 < t then Some v else None) else live j w)"
  by (simp add: live_def split: option.split)

lemma live_del: "live j (w\<lparr>redis := (redis w)(k := None)\<rparr>) = (if j = k then None else live j w)"
  by (simp add: live_def split: option.split)

lemma live_set_adv: "live j (adv w\<lparr>redis := (redis w)(k \<mapsto> (v, Some (clock w + t)))\<rparr>) =
   (if j = k then (if 0 < t then Some v else None) else live j w)"
  using live_set [of j "adv w"] by simp

lemma live_del_adv: "live j (adv w\<lparr>redis := (redis w)(k := None)\<rparr>) = (if j = k then None else live j w)"
  using live_del [of j "adv w"] by simp

lemma r_get_ok [ok_simps]: "r_get k w = (Inr v, w') \<longleftrightarrow> \<not> faulty w \<and> v = live k w \<and> w' = adv w"
  by (auto simp: r_get_def ok_simps)

lemma leaves_redis [leaves_intros]:
  assumes "stable f" "\<And>w g. f (w\<lparr>redis := g\<rparr>) = f w"
  shows "leaves f (r_get k)" "leaves f (r_set k v t)" "leaves f (r_setnx k v t)" "leaves f (r_del k)"
  unfolding r_get_def r_set_def r_setnx_def r_del_def
  by (rule leaves_stmt, rule assms(1), simp add: leaves_def assms(2) split: option.splits)+

lemma leaves_rval [leaves_intros]:
  "(\<And>x. leaves f (a x)) \<Longrightarrow> (\<And>x. leaves f (b x)) \<Longrightarrow> (\<And>x. leaves f (c x)) \<Longrightarrow> (\<And>x. leaves f (d x)) \<Longrightarrow>
   leaves f (case v of RStr x \<Rightarrow> a x | RMap x \<Rightarrow> b x | ROv x \<Rightarrow> c x | RZSet x \<Rightarrow> d x)"
  by (simp split: rval.split)

text \<open>Keys of different accounts or products are different: an account id contains no colon.\<close>

lemma digit_not_colon: "is_digit c \<Longrightarrow> c \<noteq> CHR '':''"
  by (auto simp: is_digit_def)

lemma itoa_no_colon: "CHR '':'' \<notin> set (itoa n)"
proof -
  have "c \<noteq> CHR '':''" if "c \<in> set (digits_of k)" for c k
    using that digits_of_digits [of k] digit_not_colon by (auto simp: list_all_iff)
  then show ?thesis by (auto simp: itoa_def)
qed

lemma takeWhile_itoa: "takeWhile (\<lambda>c. c \<noteq> CHR '':'') (itoa n @ CHR '':'' # p) = itoa n"
  using itoa_no_colon [of n] by (subst takeWhile_append2) auto


lemma key_split: "itoa a @ '':'' @ p = itoa b @ '':'' @ q \<longleftrightarrow> a = b \<and> p = q"
  using takeWhile_itoa [of a p] takeWhile_itoa [of b q] by (auto simp: itoa_eq)

lemma cacheKey_inj: "cacheKey a p = cacheKey b q \<longleftrightarrow> a = b \<and> p = q"
  using key_split [of a p b q] by (simp add: cacheKey_def)

lemma overviewKey_inj: "overviewKey a p = overviewKey b q \<longleftrightarrow> a = b \<and> p = q"
  using key_split [of a p b q] by (simp add: overviewKey_def)

lemma cache_keys_apart: "cacheKey a p \<noteq> overviewKey b q"
  by (simp add: cacheKey_def overviewKey_def)

subsection \<open>The caches keep the cache contract\<close>

definition ent_cached :: "int \<times> string \<Rightarrow> world \<Rightarrow> (string \<Rightarrow> string option) option" where
  "ent_cached k w = (case live (cacheKey (fst k) (snd k)) w of Some (RMap m) \<Rightarrow> Some m | _ \<Rightarrow> None)"

definition ov_cached :: "int \<times> string \<Rightarrow> world \<Rightarrow> AccountOverview option" where
  "ov_cached k w = (case live (overviewKey (fst k) (snd k)) w of Some (ROv m) \<Rightarrow> Some m | _ \<Rightarrow> None)"

lemma succeeds_stmt: "succeeds (stmt e (\<lambda>w. (Inr x, f w))) w = (\<not> faulty w, if faulty w then adv w else f (adv w))"
  by (simp add: succeeds_def stmt_def)

lemma ent_cached_adv: "ent_cached j (adv w) = ent_cached j w"
  by (simp add: ent_cached_def)

lemma ent_cached_set:
  "ent_cached j (adv w\<lparr>redis := (redis w)(cacheKey a p \<mapsto> (RMap v, Some (clock w + CacheEntitlementTTL)))\<rparr>)
   = (if j = (a, p) then Some v else ent_cached j w)"
proof -
  have "0 < CacheEntitlementTTL" by (simp add: CacheEntitlementTTL_def minutes_def)
  then show ?thesis unfolding ent_cached_def live_set_adv cacheKey_inj by (cases j) auto
qed

lemma ent_cached_del:
  "ent_cached j (adv w\<lparr>redis := (redis w)(cacheKey a p := None)\<rparr>) = (if j = (a, p) then None else ent_cached j w)"
  unfolding ent_cached_def live_del_adv cacheKey_inj by (cases j) auto

lemma ent_set_result:
  "succeeds (EntitlementCache_Set a p v) w = (\<not> faulty w, if faulty w then adv w
     else adv w\<lparr>redis := (redis w)(cacheKey a p \<mapsto> (RMap v, Some (clock w + CacheEntitlementTTL)))\<rparr>)"
  by (simp add: EntitlementCache_Set_def r_set_def succeeds_def stmt_def CacheEntitlementTTL_def minutes_def)

lemma ent_del_result:
  "succeeds (EntitlementCache_Invalidate a p) w = (\<not> faulty w, if faulty w then adv w
     else adv w\<lparr>redis := (redis w)(cacheKey a p := None)\<rparr>)"
  by (simp add: EntitlementCache_Invalidate_def r_del_def succeeds_def stmt_def)

interpretation entitlement_cache: cache ent_cached
  "\<lambda>k v. succeeds (EntitlementCache_Set (fst k) (snd k) v)" "\<lambda>k. succeeds (EntitlementCache_Invalidate (fst k) (snd k))"
  by unfold_locales
    (auto simp: ent_set_result ent_del_result ent_cached_set ent_cached_del ent_cached_adv split: if_splits)

lemma ov_cached_adv: "ov_cached j (adv w) = ov_cached j w"
  by (simp add: ov_cached_def)

lemma ov_cached_set:
  "ov_cached j (adv w\<lparr>redis := (redis w)(overviewKey a p \<mapsto> (ROv v, Some (clock w + OverviewTTL)))\<rparr>)
   = (if j = (a, p) then Some v else ov_cached j w)"
proof -
  have "0 < OverviewTTL" by (simp add: OverviewTTL_def minutes_def)
  then show ?thesis unfolding ov_cached_def live_set_adv overviewKey_inj by (cases j) auto
qed

lemma ov_cached_del:
  "ov_cached j (adv w\<lparr>redis := (redis w)(overviewKey a p := None)\<rparr>) = (if j = (a, p) then None else ov_cached j w)"
  unfolding ov_cached_def live_del_adv overviewKey_inj by (cases j) auto

lemma ov_set_result:
  "succeeds (OverviewCache_Set a p v) w = (\<not> faulty w, if faulty w then adv w
     else adv w\<lparr>redis := (redis w)(overviewKey a p \<mapsto> (ROv v, Some (clock w + OverviewTTL)))\<rparr>)"
  by (simp add: OverviewCache_Set_def r_set_def succeeds_def stmt_def OverviewTTL_def minutes_def)

lemma ov_del_result:
  "succeeds (OverviewCache_Invalidate a p) w = (\<not> faulty w, if faulty w then adv w
     else adv w\<lparr>redis := (redis w)(overviewKey a p := None)\<rparr>)"
  by (simp add: OverviewCache_Invalidate_def r_del_def succeeds_def stmt_def)

interpretation overview_cache: cache ov_cached
  "\<lambda>k v. succeeds (OverviewCache_Set (fst k) (snd k) v)" "\<lambda>k. succeeds (OverviewCache_Invalidate (fst k) (snd k))"
  by unfold_locales
    (auto simp: ov_set_result ov_del_result ov_cached_set ov_cached_del ov_cached_adv split: if_splits)

end
