(* ===== verification/Calendar.thy ===== *)
theory Calendar
  imports Entities
begin

text \<open>
  The part of Go's \<^verbatim>\<open>time\<close> package the program uses, in UTC: an instant is a number of
  nanoseconds since 1970-01-01, a civil date a year, month and day of the proleptic Gregorian
  calendar. Years are counted from March, so that the leap day is the last of its year. The
  round trip between days and dates is proved, and the formatted dates are parsed back.
\<close>

section \<open>Days and civil dates\<close>

definition day_ns :: int where
  "day_ns = 86400000000000"

definition hour_ns :: int where
  "hour_ns = 3600000000000"

definition minute_ns :: int where
  "minute_ns = 60000000000"

definition second_ns :: int where
  "second_ns = 1000000000"

definition year_start :: "int \<Rightarrow> int" where
  "year_start y = 365 * y + y div 4 - y div 100 + y div 400"

definition month_start :: "int \<Rightarrow> int" where
  "month_start mp = (153 * mp + 2) div 5"

definition days_from_civil :: "int \<Rightarrow> int \<Rightarrow> int \<Rightarrow> int" where
  "days_from_civil y m d =
     year_start (if m \<le> 2 then y - 1 else y) + month_start ((m + 9) mod 12) + d - 1 - 719468"

definition year_of :: "int \<Rightarrow> int" where
  "year_of z = (let e = z div 146097; r = z mod 146097; c = r div 365
     in 400 * e + (if r < year_start c then c - 1 else c))"

definition civil_from_days :: "int \<Rightarrow> int \<times> int \<times> int" where
  "civil_from_days n = (let z = n + 719468; y = year_of z; doy = z - year_start y;
      mp = (5 * doy + 2) div 153; m = (if mp < 10 then mp + 3 else mp - 9)
     in (if m \<le> 2 then y + 1 else y, m, doy - month_start mp + 1))"

definition leap :: "int \<Rightarrow> bool" where
  "leap y \<longleftrightarrow> y mod 4 = 0 \<and> (y mod 100 \<noteq> 0 \<or> y mod 400 = 0)"

definition month_len :: "int \<Rightarrow> int \<Rightarrow> int" where
  "month_len y m = (if m = 2 then (if leap y then 29 else 28) else if m \<in> {4, 6, 9, 11} then 30 else 31)"

definition valid_date :: "int \<Rightarrow> int \<Rightarrow> int \<Rightarrow> bool" where
  "valid_date y m d \<longleftrightarrow> 1 \<le> m \<and> m \<le> 12 \<and> 1 \<le> d \<and> d \<le> month_len y m"

lemma div_succ:
  fixes n y :: int
  assumes "0 < n"
  shows "(y + 1) div n = y div n + (if (y + 1) mod n = 0 then 1 else 0)"
proof -
  define q r where "q = (y + 1) div n" and "r = (y + 1) mod n"
  have "y + 1 = n * q + r" unfolding q_def r_def by simp
  then have y: "y = n * q + (r - 1)" by simp
  have r: "0 \<le> r" "r < n" using assms by (simp_all add: r_def)
  have "y div n = (if r = 0 then q - 1 else q)"
  proof (cases "r = 0")
    case True
    then have "y = n * (q - 1) + (n - 1)" using y by (simp add: algebra_simps)
    then show ?thesis using True assms by (intro int_div_pos_eq [of _ _ _ "n - 1"]) auto
  next
    case False
    then show ?thesis using y r by (intro int_div_pos_eq [of _ _ _ "r - 1"]) auto
  qed
  then show ?thesis by (simp flip: q_def r_def)
qed

lemma year_start_step: "year_start (y + 1) = year_start y + (if leap (y + 1) then 366 else 365)"
proof -
  have key: "365 * (y + 1) + a1 - b1 + c1 = 365 * y + a - b + c + (if p \<and> (\<not> q \<or> r) then 366 else 365)"
    if "a1 = a + (if p then 1 else 0)" "b1 = b + (if q then 1 else 0)" "c1 = c + (if r then 1 else 0)"
      "q \<Longrightarrow> p" "r \<Longrightarrow> q" for a b c a1 b1 c1 :: int and p q r
    using that by (cases p; cases q; cases r) simp_all
  have "(y + 1) mod 100 = 0 \<Longrightarrow> (y + 1) mod 4 = 0"
    using dvd_trans [of 4 100 "y + 1"] by (simp add: mod_eq_0_iff_dvd)
  moreover have "(y + 1) mod 400 = 0 \<Longrightarrow> (y + 1) mod 100 = 0"
    using dvd_trans [of 100 400 "y + 1"] by (simp add: mod_eq_0_iff_dvd)
  ultimately show ?thesis unfolding year_start_def leap_def
    by (intro key div_succ) simp_all
qed

lemma year_start_less: "year_start y < year_start (y + 1)"
  by (simp add: year_start_step)

lemma year_start_mono_nat: "year_start y + 365 * int n \<le> year_start (y + int n)"
proof (induction n)
  case (Suc n)
  have "year_start (y + int n + 1) \<ge> year_start (y + int n) + 365" by (simp add: year_start_step)
  then show ?case using Suc by (simp add: algebra_simps)
qed simp

lemma year_start_mono: "y \<le> z \<Longrightarrow> year_start y \<le> year_start z"
  using year_start_mono_nat [of y "nat (z - y)"] by simp

lemma year_start_era: "year_start (400 * e + c) = 146097 * e + year_start c"
proof -
  have "(400 * e + c) div 4 = 100 * e + c div 4" using div_mult_self1 [of 4 c "100 * e"] by (simp add: add.commute)
  moreover have "(400 * e + c) div 100 = 4 * e + c div 100" using div_mult_self1 [of 100 c "4 * e"] by (simp add: add.commute)
  moreover have "(400 * e + c) div 400 = e + c div 400" using div_mult_self1 [of 400 c e] by (simp add: add.commute)
  ultimately show ?thesis unfolding year_start_def by simp
qed

lemma year_unique:
  assumes "year_start y \<le> z" "z < year_start (y + 1)" "year_start x \<le> z" "z < year_start (x + 1)"
  shows "x = y"
proof (rule ccontr)
  assume "x \<noteq> y"
  then consider "x + 1 \<le> y" | "y + 1 \<le> x" by linarith
  then show False using year_start_mono [of "x + 1" y] year_start_mono [of "y + 1" x] assms by cases auto
qed

lemma year_of_bounds: "year_start (year_of z) \<le> z \<and> z < year_start (year_of z + 1)"
proof -
  define e r c where "e = z div 146097" and "r = z mod 146097" and "c = r div 365"
  have z: "z = 146097 * e + r" and r: "0 \<le> r" "r < 146097" by (simp_all add: e_def r_def)
  have c: "0 \<le> c" "365 * c \<le> r" "r < 365 * c + 365"
    using r mult_div_mod_eq [of 365 r] pos_mod_sign [of 365 r] pos_mod_bound [of 365 r]
    by (simp_all add: c_def pos_imp_zdiv_nonneg_iff)
  then have c2: "c \<le> 400" using r by linarith
  have "c div 4 \<le> 100" "c div 400 \<le> 1" "0 \<le> c div 100"
    using zdiv_mono1 [OF c2, of 4] zdiv_mono1 [OF c2, of 400] c(1) by (simp_all add: pos_imp_zdiv_nonneg_iff)
  then have lo: "year_start c \<le> r + 101" using c unfolding year_start_def by linarith
  have "(c + 1) div 100 \<le> (c + 1) div 4" using c(1) by (intro zdiv_mono2) auto
  moreover have "0 \<le> (c + 1) div 400" using c(1) by (simp add: pos_imp_zdiv_nonneg_iff)
  ultimately have hi: "365 * c + 365 \<le> year_start (c + 1)" unfolding year_start_def by (simp add: distrib_left)
  have c1: "year_start c < r + 365" using lo by simp
  have "year_start c - year_start (c - 1) \<ge> 365" using year_start_step [of "c - 1"] by simp
  then have "year_start (c - 1) \<le> r" using lo by simp
  moreover have "r < year_start (c + 1)" using c hi by simp
  ultimately show ?thesis
    unfolding year_of_def Let_def e_def [symmetric] r_def [symmetric] c_def [symmetric]
    using year_start_era [of e c] year_start_era [of e "c - 1"] year_start_era [of e "c + 1"] z
    by (auto simp: algebra_simps)
qed

lemma year_of_unique: "year_start y \<le> z \<Longrightarrow> z < year_start (y + 1) \<Longrightarrow> year_of z = y"
  using year_of_bounds [of z] year_unique by blast

lemma month_cases: "1 \<le> (m::int) \<Longrightarrow> m \<le> 12 \<Longrightarrow> m \<in> {1, 2, 3, 4, 5, 6, 7, 8, 9, 10, 11, 12}"
  by (simp only: insert_iff empty_iff) presburger

lemma month_start_vals:
  "month_start 0 = 0" "month_start 1 = 31" "month_start 2 = 61" "month_start 3 = 92" "month_start 4 = 122"
  "month_start 5 = 153" "month_start 6 = 184" "month_start 7 = 214" "month_start 8 = 245"
  "month_start 9 = 275" "month_start 10 = 306" "month_start 11 = 337"
  by (simp_all add: month_start_def)

lemma month_of_doy:
  assumes "month_start mp \<le> doy" and "doy < month_start (mp + 1)"
  shows "(5 * doy + 2) div 153 = mp"
proof -
  define q p where "q = (153 * mp + 2) div 5" and "p = (153 * (mp + 1) + 2) div 5"
  have "5 * q + (153 * mp + 2) mod 5 = 153 * mp + 2" unfolding q_def by simp
  moreover have "(153 * mp + 2) mod 5 < 5" "0 \<le> (153 * (mp + 1) + 2) mod 5" by simp_all
  moreover have "5 * p + (153 * (mp + 1) + 2) mod 5 = 153 * (mp + 1) + 2" unfolding p_def by simp
  moreover have "q \<le> doy" "doy + 1 \<le> p" using assms by (simp_all add: month_start_def q_def p_def)
  ultimately have "153 * mp \<le> 5 * doy + 2" "5 * doy + 2 < 153 * mp + 153" by (simp_all add: distrib_left)
  then show ?thesis by (intro int_div_pos_eq [of _ _ _ "5 * doy + 2 - 153 * mp"]) auto
qed

lemma month_index:
  assumes "valid_date y m d"
  defines "mp \<equiv> (m + 9) mod 12" and "y1 \<equiv> (if m \<le> 2 then y - 1 else y)"
  shows "(5 * (month_start mp + d - 1) + 2) div 153 = mp" and "(if mp < 10 then mp + 3 else mp - 9) = m"
    and "0 \<le> month_start mp + d - 1"
    and "month_start mp + d - 1 < (if leap (y1 + 1) then 366 else 365)"
proof -
  have "1 \<le> m" "m \<le> 12" using assms(1) by (simp_all add: valid_date_def)
  note m = month_cases [OF this]
  have len: "month_start mp + month_len y m \<le> month_start (mp + 1)
      \<and> month_start mp + month_len y m \<le> (if leap (y1 + 1) then 366 else 365)
      \<and> 0 \<le> month_start mp \<and> (if mp < 10 then mp + 3 else mp - 9) = m"
    using m unfolding mp_def y1_def month_len_def
    by (elim insertE) (simp_all add: month_start_def)
  show "(5 * (month_start mp + d - 1) + 2) div 153 = mp"
    by (rule month_of_doy) (use len assms(1) in \<open>auto simp: valid_date_def\<close>)
  show "(if mp < 10 then mp + 3 else mp - 9) = m" using len by blast
  show "0 \<le> month_start mp + d - 1" "month_start mp + d - 1 < (if leap (y1 + 1) then 366 else 365)"
    using len assms(1) unfolding valid_date_def by linarith+
qed

lemma civil_from_days_civil:
  assumes "valid_date y m d"
  shows "civil_from_days (days_from_civil y m d) = (y, m, d)"
proof -
  define y1 mp where "y1 = (if m \<le> 2 then y - 1 else y)" and "mp = (m + 9) mod 12"
  define doy where "doy = month_start mp + d - 1"
  have doy: "0 \<le> doy" "doy < (if leap (y1 + 1) then 366 else 365)"
      "(5 * doy + 2) div 153 = mp" "(if mp < 10 then mp + 3 else mp - 9) = m"
    using month_index [OF assms] unfolding doy_def mp_def y1_def by blast+
  have z: "days_from_civil y m d + 719468 = year_start y1 + doy"
    by (simp add: days_from_civil_def y1_def mp_def doy_def)
  have yr: "year_of (year_start y1 + doy) = y1"
    by (rule year_of_unique) (use doy year_start_step [of y1] in auto)
  have "civil_from_days (days_from_civil y m d) = (if m \<le> 2 then y1 + 1 else y1, m, doy - month_start mp + 1)"
    by (simp only: civil_from_days_def Let_def z yr add_diff_cancel_left' doy(3) doy(4))
  then show ?thesis by (simp add: y1_def doy_def)
qed

text \<open>Every day is a valid date, and denotes itself.\<close>

lemma civil_from_days_valid:
  assumes "civil_from_days n = (y, m, d)"
  shows "valid_date y m d" and "days_from_civil y m d = n"
proof -
  define z yy doy mp where "z = n + 719468" and "yy = year_of z" and "doy = z - year_start yy"
    and "mp = (5 * doy + 2) div 153"
  have e: "m = (if mp < 10 then mp + 3 else mp - 9)" "y = (if m \<le> 2 then yy + 1 else yy)"
    "d = doy - month_start mp + 1"
    using assms unfolding civil_from_days_def Let_def z_def [symmetric] yy_def [symmetric] doy_def [symmetric] mp_def [symmetric]
    by (auto simp del: if_split)
  have doy: "0 \<le> doy" "doy < (if leap (yy + 1) then 366 else 365)"
    using year_of_bounds [of z] year_start_step [of yy] by (auto simp: doy_def yy_def)
  have "5 * doy + 2 < 153 * 12" using doy(2) by (simp split: if_splits)
  then have mp: "0 \<le> mp" "mp \<le> 11" using doy(1) unfolding mp_def by (simp_all add: pos_imp_zdiv_nonneg_iff)
  have "153 * mp + (5 * doy + 2) mod 153 = 5 * doy + 2" unfolding mp_def by simp
  moreover have "0 \<le> (5 * doy + 2) mod 153" "(5 * doy + 2) mod 153 < 153" by simp_all
  ultimately have b: "153 * mp \<le> 5 * doy + 2" "5 * doy + 2 < 153 * mp + 153" by linarith+
  have "1 \<le> mp + 1" "mp + 1 \<le> 12" using mp by simp_all
  note mps = month_cases [OF this]
  have "valid_date y m d \<and> (m + 9) mod 12 = mp \<and> (if m \<le> 2 then y - 1 else y) = yy"
  proof -
    obtain r where r: "5 * month_start mp + r = 153 * mp + 2" "0 \<le> r"
      using mult_div_mod_eq [of 5 "153 * mp + 2"] by (simp only: month_start_def)
    obtain s where s: "5 * month_start (mp + 1) + s = 153 * (mp + 1) + 2" "s < 5"
      using mult_div_mod_eq [of 5 "153 * (mp + 1) + 2"] by (simp only: month_start_def)
    have "month_start mp \<le> doy \<and> doy < month_start (mp + 1)" using b r s by simp
    then have "1 \<le> d" "d \<le> month_start (mp + 1) - month_start mp" "month_start mp + d - 1 = doy"
      unfolding e(3) by simp_all
    moreover have "mp \<in> {0, 1, 2, 3, 4, 5, 6, 7, 8, 9, 10, 11}" using mps by auto
    ultimately show ?thesis using doy(2)
      unfolding valid_date_def month_len_def e(1,2)
      by (elim insertE) (simp_all add: month_start_def split: if_splits)
  qed
  then show "valid_date y m d" and "days_from_civil y m d = n"
    unfolding days_from_civil_def e(3) by (simp_all add: doy_def z_def)
qed

section \<open>Months\<close>

lemma month_len_pos: "1 \<le> month_len y m" "month_len y m \<le> 31"
  by (simp_all add: month_len_def)

text \<open>The last day of a month is the day before the first of the next.\<close>

lemma next_month_first:
  assumes "1 \<le> m" "m \<le> 12"
  shows "days_from_civil (y + m div 12) (m mod 12 + 1) 1 = days_from_civil y m 1 + month_len y m"
proof -
  have ys: "year_start y = year_start (y - 1) + (if leap y then 366 else 365)"
    using year_start_step [of "y - 1"] by simp
  show ?thesis using month_cases [OF assms] ys
    by (elim insertE) (simp_all add: days_from_civil_def month_start_def month_len_def)
qed

text \<open>Counting months from year 0, the first days of the months increase.\<close>

definition month_first :: "int \<Rightarrow> int" where
  "month_first n = days_from_civil (n div 12) (n mod 12 + 1) 1"

lemma month_first_step: "month_first (n + 1) = month_first n + month_len (n div 12) (n mod 12 + 1)"
proof -
  obtain q r where n: "n = 12 * q + r" and r: "0 \<le> r" "r < 12"
    by (metis mult_div_mod_eq pos_mod_bound pos_mod_sign zero_less_numeral)
  have "(n + 1) div 12 = n div 12 + (n mod 12 + 1) div 12" "(n + 1) mod 12 = (n mod 12 + 1) mod 12"
    using r by (cases "r = 11"; simp add: n add.assoc)+
  then show ?thesis using next_month_first [of "n mod 12 + 1" "n div 12"] by (simp add: month_first_def)
qed

lemma month_first_mono: "m < n \<Longrightarrow> month_first m + month_len (m div 12) (m mod 12 + 1) \<le> month_first n"
proof (induction "nat (n - m - 1)" arbitrary: n)
  case 0
  then have "n = m + 1" by simp
  then show ?case using month_first_step [of m] by simp
next
  case (Suc k)
  then have "month_first m + month_len (m div 12) (m mod 12 + 1) \<le> month_first (n - 1)" by simp
  moreover have "month_first (n - 1) \<le> month_first n"
    using month_first_step [of "n - 1"] month_len_pos(1) [of "(n - 1) div 12" "(n - 1) mod 12 + 1"] by simp
  ultimately show ?case by simp
qed

text \<open>A later day has a later date.\<close>

lemma civil_from_days_mono:
  assumes "civil_from_days d = (y, m, k)" and "civil_from_days e = (y', m', k')" and "d < e"
  shows "y < y' \<or> y = y' \<and> (m < m' \<or> m = m' \<and> k < k')"
proof -
  define n n' where "n = 12 * y + (m - 1)" and "n' = 12 * y' + (m' - 1)"
  have v: "1 \<le> m" "m \<le> 12" "1 \<le> k" "1 \<le> m'" "m' \<le> 12" "k' \<le> month_len y' m'"
    using civil_from_days_valid(1) [OF assms(1)] civil_from_days_valid(1) [OF assms(2)] by (simp_all add: valid_date_def)
  then have n: "n div 12 = y" "n mod 12 + 1 = m" "n' div 12 = y'" "n' mod 12 + 1 = m'"
    by (simp_all add: n_def n'_def)
  have day: "days_from_civil u v w = days_from_civil u v 1 + (w - 1)" for u v w by (simp add: days_from_civil_def)
  have d: "d = month_first n + (k - 1)" and e: "e = month_first n' + (k' - 1)"
    using civil_from_days_valid(2) [OF assms(1)] civil_from_days_valid(2) [OF assms(2)] day [of y m k] day [of y' m' k'] n
    by (simp_all add: month_first_def)
  have "n \<le> n'"
  proof (rule ccontr)
    assume "\<not> n \<le> n'"
    then have "month_first n' + month_len y' m' \<le> month_first n" using month_first_mono [of n' n] n by simp
    then show False using d e v assms(3) by simp
  qed
  moreover have "k < k'" if "n = n'" using that d e assms(3) by simp
  ultimately have "y \<le> y'" "y = y' \<Longrightarrow> m \<le> m'" "y = y' \<Longrightarrow> m = m' \<Longrightarrow> k < k'"
    using v unfolding n_def n'_def by simp_all
  then show ?thesis by (cases "y = y'"; cases "m = m'") simp_all
qed

section \<open>Instants\<close>

definition days_of :: "time \<Rightarrow> int" where
  "days_of t = t div day_ns"

definition clock_of :: "time \<Rightarrow> int" where
  "clock_of t = t mod day_ns"

text \<open>\<^verbatim>\<open>t.Date()\<close>\<close>

definition date_of :: "time \<Rightarrow> int \<times> int \<times> int" where
  "date_of t = civil_from_days (days_of t)"

text \<open>
  \<^verbatim>\<open>time.Date\<close> with the clock part \<open>tod\<close>: months outside 1..12 carry into the year,
  days outside the month carry into the following or preceding months.
\<close>

definition go_date :: "int \<Rightarrow> int \<Rightarrow> int \<Rightarrow> int \<Rightarrow> time" where
  "go_date y m d tod = (days_from_civil (y + (m - 1) div 12) ((m - 1) mod 12 + 1) 1 + (d - 1)) * day_ns + tod"

definition AddDate :: "time \<Rightarrow> int \<Rightarrow> int \<Rightarrow> int \<Rightarrow> time" where
  "AddDate t years months days = (case date_of t of (y, m, d) \<Rightarrow>
     go_date (y + years) (m + months) (d + days) (clock_of t))"

lemma clock_of_range: "0 \<le> clock_of t" "clock_of t < day_ns"
  by (simp_all add: clock_of_def day_ns_def)

lemma time_split: "t = days_of t * day_ns + clock_of t"
  by (simp add: days_of_def clock_of_def)

lemma days_clock_join:
  "0 \<le> c \<Longrightarrow> c < day_ns \<Longrightarrow> days_of (n * day_ns + c) = n"
  "0 \<le> c \<Longrightarrow> c < day_ns \<Longrightarrow> clock_of (n * day_ns + c) = c"
  by (simp_all add: days_of_def clock_of_def day_ns_def)

lemma days_from_civil_day: "days_from_civil y m d = days_from_civil y m 1 + (d - 1)"
  by (simp add: days_from_civil_def)

lemma go_date_valid:
  assumes "valid_date y m d" "0 \<le> tod" "tod < day_ns"
  shows "date_of (go_date y m d tod) = (y, m, d)" and "clock_of (go_date y m d tod) = tod"
proof -
  have m: "1 \<le> m" "m \<le> 12" using assms(1) by (simp_all add: valid_date_def)
  then have "go_date y m d tod = days_from_civil y m d * day_ns + tod"
    using days_from_civil_day [of y m d] by (simp add: go_date_def)
  then show "date_of (go_date y m d tod) = (y, m, d)" "clock_of (go_date y m d tod) = tod"
    using assms days_clock_join by (simp_all add: date_of_def civil_from_days_civil)
qed

text \<open>Adding days never depends on the calendar.\<close>

lemma AddDate_days: "AddDate t 0 0 n = t + n * day_ns"
proof -
  obtain y m d where c: "date_of t = (y, m, d)" by (cases "date_of t")
  then have v: "valid_date y m d" "days_from_civil y m d = days_of t"
    using civil_from_days_valid by (simp_all add: date_of_def)
  then have "1 \<le> m" "m \<le> 12" by (simp_all add: valid_date_def)
  then have "AddDate t 0 0 n = (days_from_civil y m 1 + (d + n - 1)) * day_ns + clock_of t"
    by (simp add: AddDate_def c go_date_def)
  also have "\<dots> = (days_of t + n) * day_ns + clock_of t"
    using v(2) days_from_civil_day [of y m d] by simp
  also have "\<dots> = t + n * day_ns" using time_split [of t] by (simp add: distrib_right)
  finally show ?thesis .
qed

section \<open>Layouts\<close>

text \<open>The layouts \<^verbatim>\<open>"2006-01-02"\<close>, \<^verbatim>\<open>"2006-01"\<close> and \<^verbatim>\<open>"20060102"\<close>.\<close>

definition format_date :: "time \<Rightarrow> string" where
  "format_date t = (case date_of t of (y, m, d) \<Rightarrow> pad_int 4 y @ ''-'' @ pad_int 2 m @ ''-'' @ pad_int 2 d)"

definition format_month :: "time \<Rightarrow> string" where
  "format_month t = (case date_of t of (y, m, d) \<Rightarrow> pad_int 4 y @ ''-'' @ pad_int 2 m)"

definition format_compact :: "time \<Rightarrow> string" where
  "format_compact t = (case date_of t of (y, m, d) \<Rightarrow> pad_int 4 y @ pad_int 2 m @ pad_int 2 d)"

text \<open>\<^verbatim>\<open>time.Parse("2006-01-02", s)\<close>\<close>

definition parse_date :: "string \<Rightarrow> time option" where
  "parse_date s =
    (if length s = 10 \<and> s ! 4 = CHR ''-'' \<and> s ! 7 = CHR ''-''
        \<and> list_all is_digit (take 4 s @ take 2 (drop 5 s) @ drop 8 s)
     then (let y = digits_val (take 4 s); m = digits_val (take 2 (drop 5 s)); d = digits_val (drop 8 s)
           in if valid_date y m d then Some (go_date y m d 0) else None)
     else None)"

lemma digits_val_zeros: "digits_val (replicate k CHR ''0'' @ s) = digits_val s"
  by (induction k) (simp_all add: digits_val_def digit_val_def)

lemma length_digits_of: "n < 10 ^ k \<Longrightarrow> 0 < k \<Longrightarrow> length (digits_of n) \<le> k"
proof (induction n arbitrary: k rule: digits_of.induct)
  case (1 n)
  show ?case
  proof (cases "n < 10")
    case True
    then show ?thesis using "1.prems" by (subst digits_of.simps) simp
  next
    case False
    with "1.prems" obtain j where j: "k = Suc j" "0 < j" by (cases k; cases "k - 1") auto
    have "n div 10 < 10 ^ j" using "1.prems"(1) j(1) by (simp add: less_mult_imp_div_less mult.commute)
    then show ?thesis using "1.IH" [OF False _ j(2)] False j by (subst digits_of.simps) simp
  qed
qed

lemma pad_int_props:
  assumes "0 \<le> n" "n < 10 ^ k" "0 < k"
  shows "length (pad_int k n) = k" and "list_all is_digit (pad_int k n)" and "digits_val (pad_int k n) = n"
proof -
  have "nat n < 10 ^ k" using assms by (simp add: nat_less_iff)
  then have l: "length (digits_of (nat n)) \<le> k" using assms(3) by (rule length_digits_of)
  have z: "is_digit CHR ''0''" by (simp add: is_digit_def)
  show "length (pad_int k n) = k" using l assms(1) by (simp add: pad_int_def Let_def)
  show "list_all is_digit (pad_int k n)" using assms(1) digits_of_digits z
    by (auto simp: pad_int_def Let_def list_all_iff)
  show "digits_val (pad_int k n) = n" using assms(1)
    by (simp add: pad_int_def Let_def digits_val_zeros digits_val_digits_of)
qed

lemma parse_format_date:
  assumes "date_of t = (y, m, d)" and "0 \<le> y" "y < 10000"
  shows "parse_date (format_date t) = Some (days_of t * day_ns)"
proof -
  have v: "valid_date y m d" "days_from_civil y m d = days_of t"
    using assms(1) civil_from_days_valid by (simp_all add: date_of_def)
  then have m: "1 \<le> m" "m \<le> 12" and d: "1 \<le> d" "d < 100"
    by (auto simp: valid_date_def month_len_def split: if_splits)
  note Y = pad_int_props [of y 4] and M = pad_int_props [of m 2] and D = pad_int_props [of d 2]
  have "go_date y m d 0 = days_of t * day_ns"
    using m v(2) days_from_civil_day [of y m d] by (simp add: go_date_def)
  moreover have "take 4 (format_date t) = pad_int 4 y" "take 2 (drop 5 (format_date t)) = pad_int 2 m"
    "drop 8 (format_date t) = pad_int 2 d" "length (format_date t) = 10" "format_date t ! 4 = CHR ''-''" "format_date t ! 7 = CHR ''-''"
    using assms Y M D m d by (simp_all add: format_date_def nth_append)
  ultimately show ?thesis using assms v(1) Y M D m d by (simp add: parse_date_def Let_def)
qed

lemma format_date_inj:
  assumes "format_date s = format_date t" and "date_of s = (y, m, d)" "0 \<le> y" "y < 10000"
    and "date_of t = (y', m', d')" "0 \<le> y'" "y' < 10000"
  shows "days_of s = days_of t"
  using parse_format_date [OF assms(2-4)] parse_format_date [OF assms(5-7)] assms(1) by (simp add: day_ns_def)

text \<open>
  The instants inside messages: \<^verbatim>\<open>time.Time\<close> marshals as RFC 3339 with nanoseconds,
  trailing zeros of the fraction cut. The program only writes UTC times; the parser accepts
  only those.
\<close>

definition frac_text :: "int \<Rightarrow> string" where
  "frac_text n = (if n = 0 then [] else CHR ''.'' # rev (dropWhile (\<lambda>c. c = CHR ''0'') (rev (pad_int 9 n))))"

definition clock_text :: "int \<Rightarrow> string" where
  "clock_text c = pad_int 2 (c div hour_ns) @ '':'' @ pad_int 2 (c div minute_ns mod 60) @ '':''
     @ pad_int 2 (c div second_ns mod 60) @ frac_text (c mod second_ns)"

definition format_rfc3339 :: "time \<Rightarrow> string" where
  "format_rfc3339 t = format_date t @ ''T'' @ clock_text (clock_of t) @ ''Z''"

definition parse_frac :: "string \<Rightarrow> int option" where
  "parse_frac s = (case s of [] \<Rightarrow> Some 0 | c # ds \<Rightarrow>
     if c = CHR ''.'' \<and> ds \<noteq> [] \<and> list_all is_digit ds \<and> length ds \<le> 9
     then Some (digits_val ds * 10 ^ (9 - length ds)) else None)"

definition parse_clock :: "string \<Rightarrow> int option" where
  "parse_clock s = (if 8 \<le> length s \<and> s ! 2 = CHR '':'' \<and> s ! 5 = CHR '':''
       \<and> list_all is_digit (take 2 s @ take 2 (drop 3 s) @ take 2 (drop 6 s))
     then (let h = digits_val (take 2 s); m = digits_val (take 2 (drop 3 s)); sec = digits_val (take 2 (drop 6 s)) in
       if h < 24 \<and> m < 60 \<and> sec < 60
       then map_option (\<lambda>f. h * hour_ns + m * minute_ns + sec * second_ns + f) (parse_frac (drop 8 s)) else None)
     else None)"

definition parse_rfc3339 :: "string \<Rightarrow> time option" where
  "parse_rfc3339 s = (if 11 < length s \<and> s ! 10 = CHR ''T'' \<and> last s = CHR ''Z''
     then (case (parse_date (take 10 s), parse_clock (butlast (drop 11 s))) of
         (Some d, Some c) \<Rightarrow> Some (d + c) | _ \<Rightarrow> None)
     else None)"

lemma digits_val_pad: "digits_val (ds @ replicate k (CHR ''0'')) = digits_val ds * 10 ^ k"
proof (induction k)
  case (Suc k)
  have "ds @ replicate (Suc k) CHR ''0'' = (ds @ replicate k CHR ''0'') @ [CHR ''0'']"
    by (simp add: replicate_append_same)
  then show ?case using Suc by (simp only: digits_val_snoc) (simp add: digit_val_def)
qed simp

lemma trim_zeros: "\<exists>k. s = rev (dropWhile (\<lambda>c. c = CHR ''0'') (rev s)) @ replicate k (CHR ''0'')"
proof (induction s rule: rev_induct)
  case (snoc c s)
  then obtain k where k: "s = rev (dropWhile (\<lambda>c. c = CHR ''0'') (rev s)) @ replicate k (CHR ''0'')" by blast
  show ?case
  proof (cases "c = CHR ''0''")
    case True
    then have "s @ [c] = rev (dropWhile (\<lambda>c. c = CHR ''0'') (rev s)) @ replicate (Suc k) (CHR ''0'')"
      using k by (metis append_assoc replicate_Suc replicate_append_same)
    moreover have "rev (dropWhile (\<lambda>c. c = CHR ''0'') (rev (s @ [c]))) = rev (dropWhile (\<lambda>c. c = CHR ''0'') (rev s))"
      using True by simp
    ultimately show ?thesis by metis
  next
    case False
    then show ?thesis by (intro exI [of _ 0]) simp
  qed
qed simp

lemma parse_frac_text:
  assumes "0 \<le> n" "n < 10 ^ 9"
  shows "parse_frac (frac_text n) = Some n"
proof (cases "n = 0")
  case True
  then show ?thesis by (simp add: frac_text_def parse_frac_def)
next
  case False
  define ds where "ds = rev (dropWhile (\<lambda>c. c = CHR ''0'') (rev (pad_int 9 n)))"
  obtain k where k: "pad_int 9 n = ds @ replicate k (CHR ''0'')" unfolding ds_def using trim_zeros by blast
  note P = pad_int_props [OF assms, simplified]
  have len: "length ds = 9 - k" "k \<le> 9" using P(1) arg_cong [OF k, of length] by simp_all
  have dig: "list_all is_digit ds" using P(2) k by (metis list_all_append)
  have val: "digits_val ds * 10 ^ k = n" using P(3) arg_cong [OF k, of digits_val] by (simp only: digits_val_pad)
  have "ds \<noteq> []" using val False by (auto simp: digits_val_def)
  moreover have "9 - length ds = k" "length ds \<le> 9" using len by simp_all
  moreover have "frac_text n = CHR ''.'' # ds" using False by (simp add: frac_text_def ds_def)
  ultimately show ?thesis using dig val unfolding parse_frac_def by simp
qed

lemma parse_clock_text:
  assumes "0 \<le> c" "c < day_ns"
  shows "parse_clock (clock_text c) = Some c"
proof -
  let ?h = "c div hour_ns" and ?m = "c div minute_ns mod 60" and ?s = "c div second_ns mod 60" and ?f = "c mod second_ns"
  have h: "0 \<le> ?h" "?h < 24" using assms by (simp_all add: hour_ns_def day_ns_def)
  have ms: "0 \<le> ?m" "?m < 60" "0 \<le> ?s" "?s < 60" by simp_all
  have f: "0 \<le> ?f" "?f < 10 ^ 9" by (simp_all add: second_ns_def)
  note H = pad_int_props [of ?h 2] and M = pad_int_props [of ?m 2] and S = pad_int_props [of ?s 2]
  have e: "take 2 (clock_text c) = pad_int 2 ?h" "take 2 (drop 3 (clock_text c)) = pad_int 2 ?m"
    "take 2 (drop 6 (clock_text c)) = pad_int 2 ?s" "drop 8 (clock_text c) = frac_text ?f"
    "clock_text c ! 2 = CHR '':''" "clock_text c ! 5 = CHR '':''" "8 \<le> length (clock_text c)"
    using h ms H M S by (simp_all add: clock_text_def nth_append)
  define q where "q = c div second_ns"
  have q: "c div minute_ns = q div 60" "c div hour_ns = q div 60 div 60" "c div second_ns = q"
    unfolding q_def second_ns_def minute_ns_def hour_ns_def by (simp_all add: zdiv_zmult2_eq [symmetric])
  have "?h * hour_ns + ?m * minute_ns + ?s * second_ns
      = (q div 60 div 60 * 3600 + q div 60 mod 60 * 60 + q mod 60) * second_ns"
    unfolding q by (simp add: hour_ns_def minute_ns_def second_ns_def)
  also have "q div 60 div 60 * 3600 + q div 60 mod 60 * 60 + q mod 60 = q" by presburger
  finally have "?h * hour_ns + ?m * minute_ns + ?s * second_ns + ?f = c"
    using div_mult_mod_eq [of c second_ns] by (simp add: q_def)
  then show ?thesis using e h ms H M S parse_frac_text [OF f] by (simp add: parse_clock_def Let_def)
qed

lemma parse_rfc3339_text:
  assumes "date_of t = (y, m, d)" and "0 \<le> y" "y < 10000"
  shows "parse_rfc3339 (format_rfc3339 t) = Some t"
proof -
  have "valid_date y m d" using assms(1) civil_from_days_valid(1) by (simp add: date_of_def)
  then have m: "1 \<le> m" "m \<le> 12" and d: "1 \<le> d" "d < 100" by (auto simp: valid_date_def month_len_def split: if_splits)
  then have l: "length (format_date t) = 10"
    using assms pad_int_props(1) [of y 4] pad_int_props(1) [of m 2] pad_int_props(1) [of d 2] by (simp add: format_date_def)
  have "take 10 (format_rfc3339 t) = format_date t" "format_rfc3339 t ! 10 = CHR ''T''" "last (format_rfc3339 t) = CHR ''Z''"
    "butlast (drop 11 (format_rfc3339 t)) = clock_text (clock_of t)" "11 < length (format_rfc3339 t)"
    using l by (simp_all add: format_rfc3339_def nth_append butlast_append)
  then show ?thesis
    using parse_format_date [OF assms] parse_clock_text [OF clock_of_range] time_split [of t]
    by (simp add: parse_rfc3339_def)
qed

end
