(* ===== verification/Entitlements.thy ===== *)
theory Entitlements
  imports Redis Calendar
begin

text \<open>
  Products, subscriptions and entitlements in the database
  (\<^verbatim>\<open>adapter/repo/product.go\<close>, \<^verbatim>\<open>adapter/repo/subscription.go\<close>), the catalogue
  service (\<^verbatim>\<open>app/product_service.go\<close>) and the entitlement service
  (\<^verbatim>\<open>app/entitlement_service.go\<close>) with the text it makes of a plan's features.
\<close>

section \<open>Catalogue\<close>

definition ProductRepo_GetByID :: "string \<Rightarrow> Product option op" where
  "ProductRepo_GetByID pid = opt_row (q_first products_T (\<lambda>p. prd_ID p = pid))"

definition ProductRepo_ListActive :: "Product list op" where
  "ProductRepo_ListActive = bind (q_find products_T (\<lambda>p. prd_Status p = 1)) (\<lambda>l. ret (sort_key prd_SortOrder l))"

definition ProductRepo_Create :: "Product \<Rightarrow> Product op" where
  "ProductRepo_Create p = q_insert products_T p"

text \<open>\<^verbatim>\<open>Save\<close> of a row whose key is zero inserts it.\<close>

definition ProductRepo_Update :: "Product \<Rightarrow> Product op" where
  "ProductRepo_Update p = (if prd_ID p = '''' then q_insert products_T p else bind (q_save products_T prd_ID p) (\<lambda>_. ret p))"

definition ProductRepo_GetPlanByID :: "int \<Rightarrow> ProductPlan option op" where
  "ProductRepo_GetPlanByID pid = opt_row (q_first plans_T (\<lambda>p. plan_ID p = pid))"

definition ProductRepo_GetPlanByCode :: "string \<Rightarrow> string \<Rightarrow> ProductPlan option op" where
  "ProductRepo_GetPlanByCode productID code =
     opt_row (q_first plans_T (\<lambda>p. plan_ProductID p = productID \<and> plan_Code p = code))"

definition ProductRepo_ListPlans :: "string \<Rightarrow> ProductPlan list op" where
  "ProductRepo_ListPlans productID =
     bind (q_find plans_T (\<lambda>p. plan_ProductID p = productID \<and> plan_Status p = 1)) (\<lambda>l. ret (sort_key plan_SortOrder l))"

definition ProductRepo_CreatePlan :: "ProductPlan \<Rightarrow> ProductPlan op" where
  "ProductRepo_CreatePlan p = q_insert plans_T p"

definition ProductRepo_UpdatePlan :: "ProductPlan \<Rightarrow> ProductPlan op" where
  "ProductRepo_UpdatePlan p = (if plan_ID p = 0 then q_insert plans_T p else bind (q_save plans_T plan_ID p) (\<lambda>_. ret p))"

definition ProductService_GetByID :: "string \<Rightarrow> Product option op" where
  "ProductService_GetByID pid = ProductRepo_GetByID pid"

definition ProductService_ListActive :: "Product list op" where
  "ProductService_ListActive = ProductRepo_ListActive"

definition ProductService_CreateProduct :: "Product \<Rightarrow> Product op" where
  "ProductService_CreateProduct p = ProductRepo_Create p"

definition ProductService_UpdateProduct :: "Product \<Rightarrow> Product op" where
  "ProductService_UpdateProduct p = ProductRepo_Update p"

definition ProductService_GetPlanByID :: "int \<Rightarrow> ProductPlan option op" where
  "ProductService_GetPlanByID pid = ProductRepo_GetPlanByID pid"

definition ProductService_ListPlans :: "string \<Rightarrow> ProductPlan list op" where
  "ProductService_ListPlans productID = ProductRepo_ListPlans productID"

definition ProductService_CreatePlan :: "ProductPlan \<Rightarrow> ProductPlan op" where
  "ProductService_CreatePlan p = ProductRepo_CreatePlan p"

definition ProductService_UpdatePlan :: "ProductPlan \<Rightarrow> ProductPlan op" where
  "ProductService_UpdatePlan p = ProductRepo_UpdatePlan p"

section \<open>Subscriptions and entitlements in the database\<close>

definition SubscriptionRepo_Create :: "Subscription \<Rightarrow> Subscription op" where
  "SubscriptionRepo_Create s = q_insert subs_T s"

definition SubscriptionRepo_Update :: "Subscription \<Rightarrow> unit op" where
  "SubscriptionRepo_Update s = q_save subs_T sub_ID s"

definition SubscriptionRepo_GetByID :: "int \<Rightarrow> Subscription option op" where
  "SubscriptionRepo_GetByID sid = opt_row (q_first subs_T (\<lambda>s. sub_ID s = sid))"

definition live_for :: "int \<Rightarrow> string \<Rightarrow> Subscription \<Rightarrow> bool" where
  "live_for accountID productID s \<longleftrightarrow> sub_AccountID s = accountID \<and> sub_ProductID s = productID
     \<and> sub_Status s \<in> {''active'', ''grace'', ''trial''}"

definition SubscriptionRepo_GetActive :: "int \<Rightarrow> string \<Rightarrow> Subscription option op" where
  "SubscriptionRepo_GetActive accountID productID = opt_row (q_first subs_T (live_for accountID productID))"

definition SubscriptionRepo_ListByAccount :: "int \<Rightarrow> Subscription list op" where
  "SubscriptionRepo_ListByAccount accountID =
     bind (q_find subs_T (\<lambda>s. sub_AccountID s = accountID)) (\<lambda>l. ret (rev (sort_key sub_ID l)))"

definition opt_less :: "time option \<Rightarrow> time \<Rightarrow> bool" where
  "opt_less t n = (case t of None \<Rightarrow> False | Some u \<Rightarrow> u < n)"

definition SubscriptionRepo_ListExpiring :: "int \<Rightarrow> Subscription list op" where
  "SubscriptionRepo_ListExpiring withinHours = bind now (\<lambda>n.
     q_find subs_T (\<lambda>s. sub_Status s = ''active'' \<and> opt_less (sub_ExpiresAt s) (n + withinHours * hour_ns + 1)))"

definition SubscriptionRepo_ListActiveExpired :: "Subscription list op" where
  "SubscriptionRepo_ListActiveExpired = bind now (\<lambda>n.
     q_find subs_T (\<lambda>s. sub_Status s = SubStatusActive \<and> opt_less (sub_ExpiresAt s) n))"

definition SubscriptionRepo_ListGraceExpired :: "Subscription list op" where
  "SubscriptionRepo_ListGraceExpired = bind now (\<lambda>n.
     q_find subs_T (\<lambda>s. sub_Status s = SubStatusGrace \<and> opt_less (sub_GraceUntil s) n))"

definition due_for_renewal :: "time \<Rightarrow> Subscription \<Rightarrow> bool" where
  "due_for_renewal n s \<longleftrightarrow> sub_AutoRenew s \<and> sub_Status s = SubStatusActive
     \<and> (case sub_ExpiresAt s of None \<Rightarrow> False | Some t \<Rightarrow> n \<le> t \<and> t \<le> n + 24 * hour_ns)
     \<and> sub_RenewalAttempts s < 3
     \<and> (case sub_NextRenewalAt s of None \<Rightarrow> True | Some t \<Rightarrow> t \<le> n)"

definition SubscriptionRepo_ListDueForRenewal :: "Subscription list op" where
  "SubscriptionRepo_ListDueForRenewal = bind now (\<lambda>n. q_find subs_T (due_for_renewal n))"

definition SubscriptionRepo_UpdateRenewalState :: "int \<Rightarrow> int \<Rightarrow> time option \<Rightarrow> unit op" where
  "SubscriptionRepo_UpdateRenewalState subID attempts nextAt =
     bind (q_update subs_T (\<lambda>s. sub_ID s = subID)
       (\<lambda>s. s\<lparr>sub_RenewalAttempts := attempts, sub_NextRenewalAt := nextAt\<rparr>)) (\<lambda>_. ret ())"

definition ent_key :: "AccountEntitlement \<Rightarrow> int \<times> string \<times> string" where
  "ent_key e = (ent_AccountID e, ent_ProductID e, ent_Key e)"

text \<open>
  \<^verbatim>\<open>Assign(struct)\<close> updates the non-zero fields only: an empty value or a nil expiry
  leaves the stored column as it is.
\<close>

definition assign_ent :: "AccountEntitlement \<Rightarrow> AccountEntitlement \<Rightarrow> AccountEntitlement" where
  "assign_ent e x = x\<lparr>
     ent_Value := (if ent_Value e = '''' then ent_Value x else ent_Value e),
     ent_ValueType := (if ent_ValueType e = '''' then ent_ValueType x else ent_ValueType e),
     ent_Source := (if ent_Source e = '''' then ent_Source x else ent_Source e),
     ent_SourceRef := (if ent_SourceRef e = '''' then ent_SourceRef x else ent_SourceRef e),
     ent_ExpiresAt := (case ent_ExpiresAt e of None \<Rightarrow> ent_ExpiresAt x | Some t \<Rightarrow> Some t)\<rparr>"

definition SubscriptionRepo_UpsertEntitlement :: "AccountEntitlement \<Rightarrow> unit op" where
  "SubscriptionRepo_UpsertEntitlement e =
     q_assign_or_create ents_T (\<lambda>x. ent_key x = ent_key e) ent_ID (assign_ent e) e"

definition ent_current :: "time \<Rightarrow> AccountEntitlement \<Rightarrow> bool" where
  "ent_current n e = (case ent_ExpiresAt e of None \<Rightarrow> True | Some t \<Rightarrow> n < t)"

definition SubscriptionRepo_GetEntitlements :: "int \<Rightarrow> string \<Rightarrow> AccountEntitlement list op" where
  "SubscriptionRepo_GetEntitlements accountID productID = bind now (\<lambda>n.
     q_find ents_T (\<lambda>e. ent_AccountID e = accountID \<and> ent_ProductID e = productID \<and> ent_current n e))"

definition SubscriptionRepo_DeleteEntitlements :: "int \<Rightarrow> string \<Rightarrow> unit op" where
  "SubscriptionRepo_DeleteEntitlements accountID productID =
     bind (q_delete ents_T (\<lambda>e. ent_AccountID e = accountID \<and> ent_ProductID e = productID)) (\<lambda>_. ret ())"

section \<open>Feature values as text\<close>

text \<open>
  \<^verbatim>\<open>FormatFloat(v, 'f', -1, 64)\<close> of a decimal: its digits without trailing zeros. A
  decimal with more than 17 fractional digits is cut there.
\<close>

fun frac_digits :: "nat \<Rightarrow> rat \<Rightarrow> nat" where
  "frac_digits 0 x = 0"
| "frac_digits (Suc k) x = (if is_dec 0 x then 0 else Suc (frac_digits k (x * 10)))"

definition format_float :: "rat \<Rightarrow> string" where
  "format_float x = fixed (frac_digits 17 x) x"

text \<open>\<^verbatim>\<open>json.Marshal\<close> of a decoded value: compact, object keys sorted.\<close>

definition esc_char :: "char \<Rightarrow> string" where
  "esc_char c = (if c = CHR 0x22 then [CHR 0x5C, CHR 0x22] else if c = CHR 0x5C then [CHR 0x5C, CHR 0x5C]
     else if c = CHR 0x3C then CHR 0x5C # ''u003c'' else if c = CHR 0x3E then CHR 0x5C # ''u003e''
     else if c = CHR 0x26 then CHR 0x5C # ''u0026'' else [c])"

definition quoted :: "string \<Rightarrow> string" where
  "quoted s = [CHR 0x22] @ concat (map esc_char s) @ [CHR 0x22]"

fun str_less :: "string \<Rightarrow> string \<Rightarrow> bool" where
  "str_less [] t \<longleftrightarrow> t \<noteq> []"
| "str_less (c # cs) [] \<longleftrightarrow> False"
| "str_less (c # cs) (d # ds) \<longleftrightarrow> (of_char c :: nat) < of_char d \<or> (c = d \<and> str_less cs ds)"

fun insert_kv :: "string \<times> 'a \<Rightarrow> (string \<times> 'a) list \<Rightarrow> (string \<times> 'a) list" where
  "insert_kv p [] = [p]"
| "insert_kv p (q # qs) = (if fst p = fst q then p # qs
     else if str_less (fst p) (fst q) then p # q # qs else q # insert_kv p qs)"

definition commas :: "string list \<Rightarrow> string" where
  "commas xs = concat (case xs of [] \<Rightarrow> [] | y # ys \<Rightarrow> y # map (\<lambda>z. CHR '','' # z) ys)"

fun json_text :: "json \<Rightarrow> string" where
  "json_text JNull = ''null''"
| "json_text (JBool b) = (if b then ''true'' else ''false'')"
| "json_text (JNum x) = format_float x"
| "json_text (JStr s) = quoted s"
| "json_text (JArr xs) = ''['' @ commas (map json_text xs) @ '']''"
| "json_text (JObj kvs) = CHR 0x7B # commas (map (\<lambda>(k, t). quoted k @ '':'' @ t)
     (foldl (\<lambda>acc p. insert_kv p acc) [] (map (\<lambda>(k, v). (k, json_text v)) kvs))) @ [CHR 0x7D]"

definition anyToString :: "json \<Rightarrow> string" where
  "anyToString v = (case v of
      JStr s \<Rightarrow> s
    | JBool b \<Rightarrow> (if b then ''true'' else ''false'')
    | JNum x \<Rightarrow> (if is_dec 0 x \<and> - (2 ^ 63) \<le> x \<and> x < 2 ^ 63 then itoa \<lfloor>x\<rfloor> else format_float x)
    | _ \<Rightarrow> json_text v)"

text \<open>
  The decimal syntax of \<^verbatim>\<open>strconv.ParseFloat\<close>: sign, digits with at most one point and
  at least one digit, an optional exponent; or \<^verbatim>\<open>inf\<close>, \<^verbatim>\<open>infinity\<close>, \<^verbatim>\<open>nan\<close>. Hexadecimal
  floats and the range error of huge exponents are left out.
\<close>

definition strip_sign :: "string \<Rightarrow> string" where
  "strip_sign s = (case s of c # cs \<Rightarrow> if c = CHR ''+'' \<or> c = CHR ''-'' then cs else s | [] \<Rightarrow> [])"

definition is_exponent :: "string \<Rightarrow> bool" where
  "is_exponent s \<longleftrightarrow> (case s of [] \<Rightarrow> True | c # cs \<Rightarrow> (c = CHR ''e'' \<or> c = CHR ''E'')
     \<and> strip_sign cs \<noteq> [] \<and> list_all is_digit (strip_sign cs))"

definition is_float :: "string \<Rightarrow> bool" where
  "is_float s0 = (let s = strip_sign s0; a = takeWhile is_digit s; r = dropWhile is_digit s;
      b = (case r of CHR ''.'' # cs \<Rightarrow> takeWhile is_digit cs | _ \<Rightarrow> []);
      e = (case r of CHR ''.'' # cs \<Rightarrow> dropWhile is_digit cs | _ \<Rightarrow> r)
     in (a @ b \<noteq> [] \<and> is_exponent e)
        \<or> ToLower s \<in> {''inf'', ''infinity'', ''nan''} \<and> (ToLower s = ''nan'' \<longrightarrow> s = s0))"

definition inferValueType :: "string \<Rightarrow> string" where
  "inferValueType v = (if v = ''true'' \<or> v = ''false'' then ''boolean''
     else if atoi v \<noteq> None then ''integer'' else if is_float v then ''decimal'' else ''string'')"

section \<open>Entitlement service\<close>

definition ents_map :: "AccountEntitlement list \<Rightarrow> string \<Rightarrow> string option" where
  "ents_map rows = foldl (\<lambda>m e. m(ent_Key e \<mapsto> ent_Value e)) (\<lambda>_. None) rows"

definition EntitlementService_Refresh :: "int \<Rightarrow> string \<Rightarrow> (string \<Rightarrow> string option) op" where
  "EntitlementService_Refresh accountID productID =
     bind (wrap ''get entitlements'' (SubscriptionRepo_GetEntitlements accountID productID)) (\<lambda>rows.
     let m = ents_map rows;
         em = (if m ''plan_code'' = None then m(''plan_code'' \<mapsto> ''free'') else m) in
     bind (ignore (EntitlementCache_Set accountID productID em)) (\<lambda>_.
     ret em))"

definition EntitlementService_Get :: "int \<Rightarrow> string \<Rightarrow> (string \<Rightarrow> string option) op" where
  "EntitlementService_Get accountID productID =
     attempt (EntitlementCache_Get accountID productID) (\<lambda>r. case r of
       Inr (Some em) \<Rightarrow> ret em
     | _ \<Rightarrow> EntitlementService_Refresh accountID productID)"

text \<open>The entries written for a plan: its code, then its features, a later key overriding.\<close>

definition plan_entries :: "ProductPlan \<Rightarrow> (string \<times> json) list \<Rightarrow> (string \<times> string) list" where
  "plan_entries plan features =
     foldl (\<lambda>acc (k, v). insert_kv (k, anyToString v) acc) [(''plan_code'', plan_Code plan)] features"

definition EntitlementService_SyncFromSubscription :: "Subscription \<Rightarrow> unit op" where
  "EntitlementService_SyncFromSubscription sub =
     attempt (ProductRepo_GetPlanByID (sub_PlanID sub)) (\<lambda>r. case r of
       Inl e \<Rightarrow> fail (EWrap (''plan '' @ itoa (sub_PlanID sub) @ '' not found'') e)
     | Inr None \<Rightarrow> fail (EMsg (''plan '' @ itoa (sub_PlanID sub) @ '' not found''))
     | Inr (Some plan) \<Rightarrow>
     (case (case plan_Features plan of JObj kvs \<Rightarrow> Some kvs | JNull \<Rightarrow> Some [] | _ \<Rightarrow> None) of
       None \<Rightarrow> fail (EMsg ''parse plan features'')
     | Some features \<Rightarrow>
     bind (for_each (\<lambda>(k, v). wrap (''upsert entitlement '' @ k) (SubscriptionRepo_UpsertEntitlement
        (AccountEntitlement0\<lparr>ent_AccountID := sub_AccountID sub, ent_ProductID := sub_ProductID sub,
           ent_Key := k, ent_Value := v, ent_ValueType := inferValueType v, ent_Source := ''subscription'',
           ent_SourceRef := itoa (sub_ID sub), ent_ExpiresAt := sub_ExpiresAt sub\<rparr>))) (plan_entries plan features)) (\<lambda>_.
     ignore (EntitlementCache_Invalidate (sub_AccountID sub) (sub_ProductID sub)))))"

definition EntitlementService_ResetToFree :: "int \<Rightarrow> string \<Rightarrow> unit op" where
  "EntitlementService_ResetToFree accountID productID =
     bind (SubscriptionRepo_DeleteEntitlements accountID productID) (\<lambda>_.
     bind (SubscriptionRepo_UpsertEntitlement (AccountEntitlement0\<lparr>ent_AccountID := accountID,
        ent_ProductID := productID, ent_Key := ''plan_code'', ent_Value := ''free'',
        ent_ValueType := ''string'', ent_Source := ''system''\<rparr>)) (\<lambda>_.
     ignore (EntitlementCache_Invalidate accountID productID)))"

section \<open>What a read returns after a write\<close>

text \<open>
  \<open>ents_ok w\<close>: the table's keys are unique and its id sequence is ahead of every row.
\<close>

definition ents_ok :: "world \<Rightarrow> bool" where
  "ents_ok w \<longleftrightarrow> uniq_by ent_key (ents w) \<and> 0 < seqs w ''account_entitlements''
     \<and> (\<forall>x\<in>set (ents w). ent_ID x < seqs w ''account_entitlements'') \<and> uniq_by ent_ID (ents w)"

definition ent_at :: "world \<Rightarrow> int \<times> string \<times> string \<Rightarrow> AccountEntitlement option" where
  "ent_at w k = find (\<lambda>x. ent_key x = k) (ents w)"

text \<open>What \<open>UpsertEntitlement e\<close> leaves at the key of \<open>e\<close>, whose row was \<open>old\<close>.\<close>

definition upserted :: "AccountEntitlement \<Rightarrow> int \<Rightarrow> AccountEntitlement option \<Rightarrow> AccountEntitlement" where
  "upserted e i old = (case old of None \<Rightarrow> t_new ents_T i 0 e | Some x \<Rightarrow> assign_ent e x)"

lemma assign_ent_key [simp]: "ent_key (assign_ent e x) = ent_key x" "ent_ID (assign_ent e x) = ent_ID x"
  by (simp_all add: ent_key_def assign_ent_def)

lemma new_ent: "ent_key (t_new ents_T i n e) = ent_key e" "ent_ID e = 0 \<Longrightarrow> ent_ID (t_new ents_T i n e) = i"
  "t_cols ents_T e = e" "t_touch ents_T n e = e"
  by (simp_all add: ents_T_def ent_key_def serial_def)

lemma new_ent_time: "t_new ents_T i n e = t_new ents_T i 0 e"
  by (simp add: ents_T_def)

lemma ent_conflict: "t_conflict ents_T r t = None \<longleftrightarrow> (\<forall>x\<in>set t. ent_ID x \<noteq> ent_ID r \<and> ent_key x \<noteq> ent_key r)"
  by (auto simp: ents_T_def ent_key_def)

lemma Upsert_runs:
  assumes "faults w = []" and ok: "ents_ok w" and "ent_ID e = 0"
  shows "\<exists>w'. SubscriptionRepo_UpsertEntitlement e w = (Inr (), w') \<and> faults w' = [] \<and> ents_ok w'
    \<and> redis w' = redis w \<and> clock w' = clock w
    \<and> (\<forall>k. ent_at w' k = (if k = ent_key e then Some (upserted e (seqs w ''account_entitlements'') (ent_at w k)) else ent_at w k))"
proof (cases "ent_at w (ent_key e)")
  case None
  let ?i = "seqs w ''account_entitlements''" and ?n = "t_new ents_T (seqs w ''account_entitlements'') 0 e"
  let ?w = "ents_update (\<lambda>t. t @ [?n]) (w\<lparr>seqs := (seqs w)(''account_entitlements'' := ?i + 1)\<rparr>)"
  have free: "\<forall>x\<in>set (ents w). ent_ID x \<noteq> ?i \<and> ent_key x \<noteq> ent_key e"
    using ok None find_NoneD by (fastforce simp: ents_ok_def ent_at_def)
  then have run: "SubscriptionRepo_UpsertEntitlement e w = (Inr (), ?w)"
    using assms None unfolding SubscriptionRepo_UpsertEntitlement_def q_assign_or_create_def
    by (simp add: calm ent_at_def calm_insert [OF _ refl] ent_conflict new_ent(1,2,3) new_ent_time [of _ "clock w"]) 
  have "find (\<lambda>x. ent_ID x = ent_ID ?n) (ents w) = None" "find (\<lambda>x. ent_key x = ent_key ?n) (ents w) = None"
    using free assms(3) by (auto simp: find_None_iff new_ent)
  then have "ents_ok ?w" using ok assms(3)
    by (auto simp: ents_ok_def new_ent intro!: uniq_by_snoc)
  moreover have "ent_at ?w k = (if k = ent_key e then Some (upserted e ?i (ent_at w k)) else ent_at w k)" for k
    using None by (auto simp: ent_at_def find_append new_ent upserted_def split: option.split)
  ultimately show ?thesis using run assms(1) by (intro exI [of _ ?w]) simp
next
  case (Some x)
  let ?w = "ents_update (upd_rows (\<lambda>y. ent_key y = ent_key e \<and> ent_ID y = ent_ID x) (assign_ent e)) w"
  have run: "SubscriptionRepo_UpsertEntitlement e w = (Inr (), ?w)"
    using assms Some unfolding SubscriptionRepo_UpsertEntitlement_def q_assign_or_create_def
    by (simp add: calm ent_at_def new_ent)
  have "ents_ok ?w" using ok by (auto simp: ents_ok_def uniq_by_upd set_upd_rows)
  moreover have "ent_at ?w k = (if k = ent_key e then Some (upserted e (seqs w ''account_entitlements'') (ent_at w k)) else ent_at w k)" for k
  proof -
    have f: "ent_at ?w k = map_option (\<lambda>r. if ent_key r = ent_key e \<and> ent_ID r = ent_ID x then assign_ent e r else r) (ent_at w k)"
      by (simp add: ent_at_def) (rule find_upd_rows_on, simp)
    show ?thesis
    proof (cases "k = ent_key e")
      case True
      have "ent_key x = k" using Some True find_SomeD by (fastforce simp: ent_at_def)
      then show ?thesis using f True Some by (simp add: upserted_def)
    next
      case False
      have "ent_key r = k" if "ent_at w k = Some r" for r using that find_SomeD by (fastforce simp: ent_at_def)
      then show ?thesis using f False by (cases "ent_at w k") auto
    qed
  qed
  ultimately show ?thesis using run assms(1) by (intro exI [of _ ?w]) simp
qed

text \<open>The map a read builds: the value of the current row of each key.\<close>

lemma ents_map_append: "ents_map (rows @ [e]) = (ents_map rows)(ent_Key e \<mapsto> ent_Value e)"
  by (simp add: ents_map_def)

lemma ents_map_find:
  "uniq_by ent_Key rows \<Longrightarrow> ents_map rows k = map_option ent_Value (find (\<lambda>e. ent_Key e = k) rows)"
proof (induction rows rule: rev_induct)
  case Nil
  then show ?case by (simp add: ents_map_def)
next
  case (snoc e rows)
  then have u: "uniq_by ent_Key rows" "find (\<lambda>x. ent_Key x = ent_Key e) rows = None"
    by (auto simp: uniq_by_def find_None_iff image_iff)
  show ?case
  proof (cases "k = ent_Key e")
    case True
    then show ?thesis using u by (simp add: ents_map_append find_append)
  next
    case False
    then show ?thesis using u(1) snoc.IH by (simp add: ents_map_append find_append split: option.split)
  qed
qed

definition visible :: "int \<Rightarrow> string \<Rightarrow> world \<Rightarrow> string \<Rightarrow> string option" where
  "visible a p w k = (case ent_at w (a, p, k) of None \<Rightarrow> None
     | Some e \<Rightarrow> if ent_current (clock w) e then Some (ent_Value e) else None)"

lemma find_filter_key:
  "uniq_by key t \<Longrightarrow> find Q (filter P t) = (case find Q t of Some x \<Rightarrow> if P x then Some x else None | None \<Rightarrow> None)"
  if "\<And>x y. Q x \<Longrightarrow> Q y \<Longrightarrow> key x = key y" for key :: "'r \<Rightarrow> 'k"
proof (induction t)
  case (Cons a t)
  have "\<not> Q x" if "x \<in> set t" "Q a" for x using that \<open>\<And>x y. Q x \<Longrightarrow> Q y \<Longrightarrow> key x = key y\<close> Cons.prems by (metis uniq_by_Cons)
  then show ?case using Cons by (auto simp: uniq_by_Cons find_None_iff split: option.splits dest: find_SomeD)
qed simp

lemma rows_map:
  assumes "ents_ok w"
  shows "ents_map (filter (\<lambda>e. ent_AccountID e = a \<and> ent_ProductID e = p \<and> ent_current (clock w) e) (ents w))
    = visible a p w"
proof
  fix k
  let ?P = "\<lambda>e. ent_AccountID e = a \<and> ent_ProductID e = p \<and> ent_current (clock w) e"
  have u: "uniq_by ent_key (ents w)" using assms by (simp add: ents_ok_def)
  then have "distinct (map ent_key (filter ?P (ents w)))" by (simp add: uniq_by_def distinct_map_filter)
  moreover have "map ent_key (filter ?P (ents w)) = map (\<lambda>k. (a, p, k)) (map ent_Key (filter ?P (ents w)))"
    by (auto simp: ent_key_def)
  ultimately have "distinct (map (\<lambda>k. (a, p, k)) (map ent_Key (filter ?P (ents w))))" by metis
  then have "distinct (map ent_Key (filter ?P (ents w)))" by (rule distinct_map [THEN iffD1, THEN conjunct1])
  then have v: "uniq_by ent_Key (filter ?P (ents w))" by (simp add: uniq_by_def distinct_map)
  have "find (\<lambda>e. ent_Key e = k) (filter ?P (ents w)) = find (\<lambda>e. ent_key e = (a, p, k)) (filter ?P (ents w))"
    by (rule find_cong) (auto simp: ent_key_def)
  also have "\<dots> = (case ent_at w (a, p, k) of Some x \<Rightarrow> if ?P x then Some x else None | None \<Rightarrow> None)"
    unfolding ent_at_def by (rule find_filter_key [OF _ u]) auto
  finally have f: "find (\<lambda>e. ent_Key e = k) (filter ?P (ents w)) = \<dots>" .
  show "ents_map (filter ?P (ents w)) k = visible a p w k"
  proof (cases "ent_at w (a, p, k)")
    case None
    then show ?thesis by (simp add: ents_map_find [OF v] f visible_def)
  next
    case (Some x)
    then have "ent_AccountID x = a" "ent_ProductID x = p" using find_SomeD by (fastforce simp: ent_at_def ent_key_def)+
    with Some show ?thesis by (simp add: ents_map_find [OF v] f visible_def)
  qed
qed

text \<open>A read on an empty cache computes the map from the table and caches it.\<close>

definition with_plan :: "(string \<Rightarrow> string option) \<Rightarrow> string \<Rightarrow> string option" where
  "with_plan m = (if m ''plan_code'' = None then m(''plan_code'' \<mapsto> ''free'') else m)"

lemma Get_miss:
  assumes "faults w = []" and "ents_ok w" and "live (cacheKey a p) w = None"
  obtains w' where "EntitlementService_Get a p w = (Inr (with_plan (visible a p w)), w')" and "faults w' = []"
    and "ents w' = ents w" and "ent_cached (a, p) w' = Some (with_plan (visible a p w))"
proof -
  let ?m = "with_plan (visible a p w)"
  let ?w = "snd (EntitlementCache_Set a p ?m w)"
  have get: "EntitlementCache_Get a p w = (Inr None, w)"
    using assms by (simp add: EntitlementCache_Get_def calm r_get_def calm_stmt)
  have "EntitlementService_Get a p w = (Inr ?m, ?w)"
    using get assms unfolding EntitlementService_Get_def EntitlementService_Refresh_def SubscriptionRepo_GetEntitlements_def
    by (simp add: calm Let_def rows_map with_plan_def)
  moreover have "succeeds (EntitlementCache_Set a p ?m) w = (True, ?w)"
    using assms(1) by (simp add: EntitlementCache_Set_def r_set_def calm_stmt succeeds_def)
  then have "ent_cached (a, p) ?w = Some ?m"
    using entitlement_cache.get_put [of "(a, p)" ?m w ?w "(a, p)"] by simp
  moreover have "faults ?w = [] \<and> ents ?w = ents w"
    using assms(1) by (simp add: EntitlementCache_Set_def r_set_def calm_stmt)
  ultimately show thesis using that by blast
qed

text \<open>Keys in byte order: what \<open>insert_kv\<close> builds is sorted, so each key occurs once.\<close>

lemma str_less_irrefl [simp]: "\<not> str_less s s"
  by (induction s) auto

lemma str_less_total: "s = t \<or> str_less s t \<or> str_less t s"
proof (induction s t rule: str_less.induct)
  case (3 c cs d ds)
  have "c = d \<or> (of_char c :: nat) < of_char d \<or> (of_char d :: nat) < of_char c"
    by (metis of_char_eq_iff nat_neq_iff)
  with 3 show ?case by auto
qed auto

lemma str_less_trans: "str_less s t \<Longrightarrow> str_less t u \<Longrightarrow> str_less s u"
proof (induction s t arbitrary: u rule: str_less.induct)
  case (1 t)
  then show ?case by (cases t; cases u) auto
next
  case (3 c cs d ds)
  then show ?case by (cases u) auto
qed simp

lemma insert_kv_keys: "fst ` set (insert_kv p l) = insert (fst p) (fst ` set l)"
  by (induction l) auto

lemma insert_kv_sorted:
  "sorted_wrt str_less (map fst l) \<Longrightarrow> sorted_wrt str_less (map fst (insert_kv p l))"
proof (induction l)
  case (Cons q l)
  then show ?case
  proof (cases "str_less (fst p) (fst q)")
    case True
    then show ?thesis using Cons.prems by (auto intro: str_less_trans)
  next
    case False
    have "\<forall>x\<in>fst ` set (insert_kv p l). str_less (fst q) x" if "fst p \<noteq> fst q"
      using that False Cons.prems str_less_total [of "fst p" "fst q"] by (simp add: insert_kv_keys)
    then show ?thesis using Cons False by auto
  qed
qed simp

lemma sorted_distinct: "sorted_wrt str_less ks \<Longrightarrow> distinct ks"
  by (induction ks) auto

lemma insert_kv_map: "sorted_wrt str_less (map fst l) \<Longrightarrow> map_of (insert_kv p l) = (map_of l)(fst p \<mapsto> snd p)"
proof (induction l)
  case (Cons q l)
  then show ?case by (cases p; cases q) (auto simp: fun_upd_twist)
qed (cases p; simp)

lemma plan_entries_fold:
  "sorted_wrt str_less (map fst acc) \<Longrightarrow>
   sorted_wrt str_less (map fst (foldl (\<lambda>acc (k, v). insert_kv (k, anyToString v) acc) acc kvs))
   \<and> map_of (foldl (\<lambda>acc (k, v). insert_kv (k, anyToString v) acc) acc kvs) k
     = (case map_of (rev kvs) k of None \<Rightarrow> map_of acc k | Some j \<Rightarrow> Some (anyToString j))"
proof (induction kvs arbitrary: acc)
  case (Cons q kvs)
  obtain j v where q: "q = (j, v)" by (cases q)
  note Cons.IH [of "insert_kv (j, anyToString v) acc", OF insert_kv_sorted [OF Cons.prems]]
  moreover have "map_of (insert_kv (j, anyToString v) acc) k = (if k = j then Some (anyToString v) else map_of acc k)"
    using insert_kv_map [OF Cons.prems, of "(j, anyToString v)"] by simp
  ultimately show ?case unfolding q foldl_Cons prod.case rev.simps map_of_append map_add_def
    by (simp split: option.split)
qed simp

lemma plan_entries_map:
  "map_of (plan_entries plan kvs) k = (case map_of (rev kvs) k of
     Some j \<Rightarrow> Some (anyToString j) | None \<Rightarrow> if k = ''plan_code'' then Some (plan_Code plan) else None)"
  using plan_entries_fold [of "[(''plan_code'', plan_Code plan)]" kvs k]
  by (auto simp: plan_entries_def split: option.splits)

lemma plan_entries_distinct: "distinct (map fst (plan_entries plan kvs))"
  using plan_entries_fold [of "[(''plan_code'', plan_Code plan)]" kvs]
  by (simp add: plan_entries_def sorted_distinct)

text \<open>The loop of upserts over entries with distinct keys.\<close>

definition sub_entry :: "Subscription \<Rightarrow> string \<Rightarrow> string \<Rightarrow> AccountEntitlement" where
  "sub_entry sub k v = AccountEntitlement0\<lparr>ent_AccountID := sub_AccountID sub, ent_ProductID := sub_ProductID sub,
     ent_Key := k, ent_Value := v, ent_ValueType := inferValueType v, ent_Source := ''subscription'',
     ent_SourceRef := itoa (sub_ID sub), ent_ExpiresAt := sub_ExpiresAt sub\<rparr>"

lemma sub_entry_fields:
  "ent_key (sub_entry sub k v) = (sub_AccountID sub, sub_ProductID sub, k)" "ent_ID (sub_entry sub k v) = 0"
  by (simp_all add: sub_entry_def ent_key_def AccountEntitlement0_def)

lemma upserted_entry:
  assumes "v \<noteq> ''''" and "sub_ExpiresAt sub = Some t"
  shows "ent_Value (upserted (sub_entry sub k v) i old) = v" "ent_ExpiresAt (upserted (sub_entry sub k v) i old) = Some t"
  using assms by (auto simp: upserted_def sub_entry_def assign_ent_def ents_T_def AccountEntitlement0_def split: option.split)

lemma entries_run:
  assumes "faults w = []" and "ents_ok w" and "distinct (map fst es)"
  shows "\<exists>w'. for_each (\<lambda>(k, v). wrap (''upsert entitlement '' @ k) (SubscriptionRepo_UpsertEntitlement (sub_entry sub k v))) es w
      = (Inr (), w') \<and> faults w' = [] \<and> ents_ok w' \<and> redis w' = redis w \<and> clock w' = clock w
    \<and> (\<forall>key. (\<forall>k\<in>fst ` set es. key \<noteq> (sub_AccountID sub, sub_ProductID sub, k)) \<longrightarrow> ent_at w' key = ent_at w key)
    \<and> (\<forall>k v. (k, v) \<in> set es \<longrightarrow> (\<exists>i old. ent_at w' (sub_AccountID sub, sub_ProductID sub, k)
          = Some (upserted (sub_entry sub k v) i old)))"
  using assms
proof (induction es arbitrary: w)
  case Nil
  then show ?case by (simp add: ret_def)
next
  case (Cons q es)
  obtain k v where q: "q = (k, v)" by (cases q)
  obtain w1 where run: "SubscriptionRepo_UpsertEntitlement (sub_entry sub k v) w = (Inr (), w1)"
    and w1: "faults w1 = []" "ents_ok w1" "redis w1 = redis w" "clock w1 = clock w"
    and at: "\<And>key. ent_at w1 key = (if key = ent_key (sub_entry sub k v)
        then Some (upserted (sub_entry sub k v) (seqs w ''account_entitlements'') (ent_at w key)) else ent_at w key)"
    using Upsert_runs [OF Cons.prems(1,2) sub_entry_fields(2), of sub k v] by blast
  have d: "distinct (map fst es)" and k: "k \<notin> fst ` set es" using Cons.prems(3) q by auto
  from Cons.IH [OF w1(1,2) d] obtain w2 where w2:
    "for_each (\<lambda>(k, v). wrap (''upsert entitlement '' @ k) (SubscriptionRepo_UpsertEntitlement (sub_entry sub k v))) es w1
      = (Inr (), w2)" "faults w2 = []" "ents_ok w2" "redis w2 = redis w1" "clock w2 = clock w1"
    and off: "\<And>key. \<forall>k\<in>fst ` set es. key \<noteq> (sub_AccountID sub, sub_ProductID sub, k) \<Longrightarrow> ent_at w2 key = ent_at w1 key"
    and on: "\<And>k v. (k, v) \<in> set es \<Longrightarrow> \<exists>i old. ent_at w2 (sub_AccountID sub, sub_ProductID sub, k)
          = Some (upserted (sub_entry sub k v) i old)" by blast
  have "for_each (\<lambda>(k, v). wrap (''upsert entitlement '' @ k) (SubscriptionRepo_UpsertEntitlement (sub_entry sub k v))) (q # es) w
      = (Inr (), w2)" using run w2(1) q by (simp add: bind_def wrap_def)
  moreover have "\<forall>key. (\<forall>k\<in>fst ` set (q # es). key \<noteq> (sub_AccountID sub, sub_ProductID sub, k)) \<longrightarrow> ent_at w2 key = ent_at w key"
    using off at q by (simp add: sub_entry_fields)
  moreover have "\<exists>i old. ent_at w2 (sub_AccountID sub, sub_ProductID sub, j) = Some (upserted (sub_entry sub j u) i old)"
    if "(j, u) \<in> set (q # es)" for j u
  proof (cases "(j, u) \<in> set es")
    case True
    then show ?thesis by (rule on)
  next
    case False
    then have "j = k" "u = v" using that q by auto
    then show ?thesis using off [of "(sub_AccountID sub, sub_ProductID sub, k)"] k
      at [of "(sub_AccountID sub, sub_ProductID sub, k)"] by (auto simp: sub_entry_fields)
  qed
  ultimately show ?case using w1 w2(2-) by (intro exI [of _ w2] conjI) simp_all
qed

lemma Invalidate_run:
  assumes "faults w = []"
  shows "ignore (EntitlementCache_Invalidate a p) w = (Inr (), w\<lparr>redis := (redis w)(cacheKey a p := None)\<rparr>)"
  using assms by (simp add: ignore_run EntitlementCache_Invalidate_def r_del_def calm_stmt)

lemma ent_at_redis [simp]: "ent_at (w\<lparr>redis := g\<rparr>) k = ent_at w k" "ents_ok (w\<lparr>redis := g\<rparr>) = ents_ok w"
  "visible a p (w\<lparr>redis := g\<rparr>) = visible a p w"
  by (simp_all add: ent_at_def ents_ok_def visible_def fun_eq_iff split: option.split)

lemma live_del_same [simp]: "live k (w\<lparr>redis := (redis w)(k := None)\<rparr>) = None"
  by (simp add: live_def)

section \<open>Properties\<close>


text \<open>A small catalogue: two plans of one product, and a monthly subscription on the first.\<close>

definition demo_plans :: world where
  "demo_plans = world0\<lparr>
     plans := [ProductPlan0\<lparr>plan_ID := 1, plan_ProductID := ''api'', plan_Code := ''pro'',
                  plan_BillingCycle := ''monthly'', plan_PriceCNY := 30,
                  plan_Features := JObj [(''quota'', JNum 500), (''group'', JStr ''vip''), (''sso'', JBool True)]\<rparr>,
               ProductPlan0\<lparr>plan_ID := 2, plan_ProductID := ''api'', plan_Code := ''life'',
                  plan_BillingCycle := ''forever'', plan_PriceCNY := 300, plan_Features := JObj [(''quota'', JNum 900)]\<rparr>],
     clock := 1000, seqs := (\<lambda>_. 10)\<rparr>"

definition demo_sub :: Subscription where
  "demo_sub = Subscription0\<lparr>sub_ID := 5, sub_AccountID := 7, sub_ProductID := ''api'', sub_PlanID := 1,
     sub_Status := SubStatusActive, sub_ExpiresAt := Some 2000\<rparr>"


text \<open>C13: The end of grace takes the entitlements back. When no statement fails, a read after
  \<open>ResetToFree\<close> answers exactly \<open>plan_code = free\<close>, whatever the cache held, and the entitlements
  of other accounts and products are untouched.\<close>

theorem reset_to_free_reads_free:
  assumes "faults w = []" and "ents_ok w"
  shows "\<exists>w1 w2. EntitlementService_ResetToFree a p w = (Inr (), w1)
    \<and> EntitlementService_Get a p w1 = (Inr [''plan_code'' \<mapsto> ''free''], w2)
    \<and> (\<forall>b q j. (b, q) \<noteq> (a, p) \<longrightarrow> ent_at w1 (b, q, j) = ent_at w (b, q, j))"
proof -
  let ?P = "\<lambda>e. ent_AccountID e = a \<and> ent_ProductID e = p"
  let ?d = "ents_update (filter (\<lambda>r. \<not> ?P r)) w"
  let ?e = "AccountEntitlement0\<lparr>ent_AccountID := a, ent_ProductID := p, ent_Key := ''plan_code'',
     ent_Value := ''free'', ent_ValueType := ''string'', ent_Source := ''system''\<rparr>"
  have e: "ent_key ?e = (a, p, ''plan_code'')" "ent_ID ?e = 0" by (simp_all add: ent_key_def AccountEntitlement0_def)
  have del: "SubscriptionRepo_DeleteEntitlements a p w = (Inr (), ?d)"
    using assms(1) by (simp add: SubscriptionRepo_DeleteEntitlements_def calm)
  have d: "faults ?d = []" "ents_ok ?d" using assms by (simp_all add: ents_ok_def uniq_by_filter)
  obtain w1 where up: "SubscriptionRepo_UpsertEntitlement ?e ?d = (Inr (), w1)"
    and w1: "faults w1 = []" "ents_ok w1" and "redis w1 = redis ?d" "clock w1 = clock ?d"
    and at: "\<And>k. ent_at w1 k = (if k = ent_key ?e then Some (upserted ?e (seqs ?d ''account_entitlements'') (ent_at ?d k)) else ent_at ?d k)"
    using Upsert_runs [OF d e(2)] by blast
  have gone: "ent_at ?d (a, p, k) = None" for k
    by (auto simp: ent_at_def find_None_iff ent_key_def)
  have kept: "ent_at ?d (b, q, j) = ent_at w (b, q, j)" if "(b, q) \<noteq> (a, p)" for b q j
  proof -
    have "ent_at ?d (b, q, j) = (case ent_at w (b, q, j) of Some x \<Rightarrow> if \<not> ?P x then Some x else None | None \<Rightarrow> None)"
      using assms(2) find_filter_key [of "\<lambda>x. ent_key x = (b, q, j)" ent_key "ents w" "\<lambda>r. \<not> ?P r"]
      by (simp add: ent_at_def ents_ok_def)
    moreover have "\<not> ?P x" if "ent_at w (b, q, j) = Some x" for x
      using \<open>(b, q) \<noteq> (a, p)\<close> that find_SomeD [of "\<lambda>x. ent_key x = (b, q, j)" "ents w" x]
      unfolding ent_at_def ent_key_def by auto
    ultimately show ?thesis by (cases "ent_at w (b, q, j)") auto
  qed
  let ?w = "w1\<lparr>redis := (redis w1)(cacheKey a p := None)\<rparr>"
  have run: "EntitlementService_ResetToFree a p w = (Inr (), ?w)"
    using del up Invalidate_run [OF w1(1)] by (simp add: EntitlementService_ResetToFree_def bind_def)
  have at2: "ent_at w1 (a, p, k) = (if k = ''plan_code'' then Some (t_new ents_T (seqs w ''account_entitlements'') 0 ?e) else None)" for k
    using at [of "(a, p, k)"] gone [of k] by (simp only: e upserted_def prod.inject simp_thms) simp
  have "visible a p w1 = [''plan_code'' \<mapsto> ''free'']"
    by (auto simp: visible_def at2 fun_eq_iff ents_T_def AccountEntitlement0_def ent_current_def)
  then have wp: "with_plan (visible a p ?w) = [''plan_code'' \<mapsto> ''free'']" by (simp add: with_plan_def)
  obtain w2 where get: "EntitlementService_Get a p ?w = (Inr (with_plan (visible a p ?w)), w2)"
    using Get_miss [of ?w a p] w1 by auto
  moreover have "\<forall>b q j. (b, q) \<noteq> (a, p) \<longrightarrow> ent_at ?w (b, q, j) = ent_at w (b, q, j)"
    using at kept by (simp add: e)
  ultimately show ?thesis using run wp by auto
qed

theorem reset_to_free_reads_free_witness:
  "\<exists>w1 w2. EntitlementService_ResetToFree 7 ''api'' (demo_plans\<lparr>ents := [AccountEntitlement0\<lparr>ent_ID := 1,
       ent_AccountID := 7, ent_ProductID := ''api'', ent_Key := ''quota'', ent_Value := ''500''\<rparr>]\<rparr>) = (Inr (), w1)
    \<and> EntitlementService_Get 7 ''api'' w1 = (Inr [''plan_code'' \<mapsto> ''free''], w2)"
proof -
  let ?w = "demo_plans\<lparr>ents := [AccountEntitlement0\<lparr>ent_ID := 1,
       ent_AccountID := 7, ent_ProductID := ''api'', ent_Key := ''quota'', ent_Value := ''500''\<rparr>]\<rparr>"
  have "faults ?w = []" "ents_ok ?w"
    by (simp_all add: demo_plans_def world0_def ents_ok_def uniq_by_def AccountEntitlement0_def)
  from reset_to_free_reads_free [OF this] show ?thesis by blast
qed

end
