(* ===== verification/Encoding.thy ===== *)
theory Encoding
  imports Entitlements "HOL-Library.Word"
begin

text \<open>
  What the program uses of Go's \<^verbatim>\<open>encoding/hex\<close>, \<^verbatim>\<open>encoding/base64\<close>,
  \<^verbatim>\<open>crypto/sha256\<close>, \<^verbatim>\<open>crypto/hmac\<close> and \<^verbatim>\<open>encoding/json\<close>, on texts that are
  sequences of bytes: the unpadded URL alphabet of base64 with its decoder, the hash function
  of FIPS 180-4 on 32-bit words, its keyed form, and a parser of JSON texts. The lemmas show
  that decoding inverts encoding.
\<close>

unbundle bit_operations_syntax

section \<open>Hexadecimal and base64\<close>

definition hex_lower :: "nat \<Rightarrow> char" where
  "hex_lower k = (if k < 10 then char_of (48 + k) else char_of (87 + k))"

definition hex_text :: "string \<Rightarrow> string" where
  "hex_text s = concat (map (\<lambda>c. let n = of_char c :: nat in [hex_lower (n div 16), hex_lower (n mod 16)]) s)"

definition b64_char :: "nat \<Rightarrow> char" where
  "b64_char k = (if k < 26 then char_of (65 + k) else if k < 52 then char_of (71 + k)
     else if k < 62 then char_of (k - 4) else if k = 62 then CHR ''-'' else CHR ''_'')"

definition b64_val :: "char \<Rightarrow> nat option" where
  "b64_val c = (let n = of_char c :: nat in
     if 65 \<le> n \<and> n \<le> 90 then Some (n - 65) else if 97 \<le> n \<and> n \<le> 122 then Some (n - 71)
     else if 48 \<le> n \<and> n \<le> 57 then Some (n + 4) else if n = 45 then Some 62 else if n = 95 then Some 63 else None)"

text \<open>\<^verbatim>\<open>base64.RawURLEncoding\<close>. The decoder skips line ends and ignores trailing bits.\<close>

fun b64_nats :: "nat list \<Rightarrow> nat list" where
  "b64_nats [] = []"
| "b64_nats [a] = [a div 4, a mod 4 * 16]"
| "b64_nats [a, b] = [a div 4, a mod 4 * 16 + b div 16, b mod 16 * 4]"
| "b64_nats (a # b # c # rest) = [a div 4, a mod 4 * 16 + b div 16, b mod 16 * 4 + c div 64, c mod 64] @ b64_nats rest"

fun nats_b64 :: "nat list \<Rightarrow> nat list option" where
  "nats_b64 [] = Some []"
| "nats_b64 [p] = None"
| "nats_b64 [p, q] = Some [p * 4 + q div 16]"
| "nats_b64 [p, q, r] = Some [p * 4 + q div 16, q mod 16 * 16 + r div 4]"
| "nats_b64 (p # q # r # t # rest) = map_option (\<lambda>l. [p * 4 + q div 16, q mod 16 * 16 + r div 4, r mod 4 * 64 + t] @ l) (nats_b64 rest)"

definition b64_encode :: "string \<Rightarrow> string" where
  "b64_encode s = map b64_char (b64_nats (map of_char s))"

fun b64_vals :: "string \<Rightarrow> nat list option" where
  "b64_vals [] = Some []"
| "b64_vals (c # cs) = (case b64_val c of None \<Rightarrow> None | Some n \<Rightarrow> map_option (\<lambda>l. n # l) (b64_vals cs))"

definition b64_decode :: "string \<Rightarrow> string option" where
  "b64_decode s = (case b64_vals (filter (\<lambda>c. of_char c \<noteq> (10 :: nat) \<and> of_char c \<noteq> (13 :: nat)) s) of
     None \<Rightarrow> None | Some l \<Rightarrow> map_option (map char_of) (nats_b64 l))"

section \<open>SHA-256 and HMAC\<close>

text \<open>
  The tables of the standard, as decimals: the leading fraction bits of the cube roots of the first
  64 primes and of the square roots of the first eight.
\<close>

type_synonym u32 = "32 word"

definition sha_K :: "u32 list" where
  "sha_K = [1116352408, 1899447441, 3049323471, 3921009573, 961987163, 1508970993, 2453635748, 2870763221,
     3624381080, 310598401, 607225278, 1426881987, 1925078388, 2162078206, 2614888103, 3248222580,
     3835390401, 4022224774, 264347078, 604807628, 770255983, 1249150122, 1555081692, 1996064986,
     2554220882, 2821834349, 2952996808, 3210313671, 3336571891, 3584528711, 113926993, 338241895,
     666307205, 773529912, 1294757372, 1396182291, 1695183700, 1986661051, 2177026350, 2456956037,
     2730485921, 2820302411, 3259730800, 3345764771, 3516065817, 3600352804, 4094571909, 275423344,
     430227734, 506948616, 659060556, 883997877, 958139571, 1322822218, 1537002063, 1747873779,
     1955562222, 2024104815, 2227730452, 2361852424, 2428436474, 2756734187, 3204031479, 3329325298]"

definition sha_H0 :: "u32 list" where
  "sha_H0 = [1779033703, 3144134277, 1013904242, 2773480762, 1359893119, 2600822924, 528734635, 1541459225]"

definition sha_s0 :: "u32 \<Rightarrow> u32" where
  "sha_s0 x = word_rotr 7 x XOR word_rotr 18 x XOR drop_bit 3 x"

definition sha_s1 :: "u32 \<Rightarrow> u32" where
  "sha_s1 x = word_rotr 17 x XOR word_rotr 19 x XOR drop_bit 10 x"

definition sha_schedule :: "u32 list \<Rightarrow> u32 list" where
  "sha_schedule blk = foldl (\<lambda>W t. W @ [sha_s1 (W ! (t - 2)) + W ! (t - 7) + sha_s0 (W ! (t - 15)) + W ! (t - 16)])
     blk [16..<64]"

fun sha_round :: "u32 list \<Rightarrow> u32 \<times> u32 \<Rightarrow> u32 list" where
  "sha_round [a, b, c, d, e, f, g, h] (k, x) =
     (let t1 = h + (word_rotr 6 e XOR word_rotr 11 e XOR word_rotr 25 e) + ((e AND f) XOR (NOT e AND g)) + k + x;
          t2 = (word_rotr 2 a XOR word_rotr 13 a XOR word_rotr 22 a) + ((a AND b) XOR (a AND c) XOR (b AND c))
      in [t1 + t2, a, b, c, d + t1, e, f, g])"
| "sha_round s kx = s"

definition sha_block :: "u32 list \<Rightarrow> u32 list \<Rightarrow> u32 list" where
  "sha_block H blk = map2 (+) H (foldl sha_round H (zip sha_K (sha_schedule blk)))"

fun words_of :: "nat list \<Rightarrow> u32 list" where
  "words_of (a # b # c # d # rest) = of_nat (((a * 256 + b) * 256 + c) * 256 + d) # words_of rest"
| "words_of xs = []"

definition be_bytes :: "nat \<Rightarrow> nat \<Rightarrow> nat list" where
  "be_bytes k n = map (\<lambda>i. n div 256 ^ (k - 1 - i) mod 256) [0..<k]"

definition sha_pad :: "nat list \<Rightarrow> nat list" where
  "sha_pad m = m @ [128] @ replicate ((119 - length m mod 64) mod 64) 0 @ be_bytes 8 (8 * length m)"

fun sha_blocks :: "nat \<Rightarrow> u32 list \<Rightarrow> u32 list \<Rightarrow> u32 list" where
  "sha_blocks 0 H ws = H"
| "sha_blocks (Suc n) H ws = sha_blocks n (sha_block H (take 16 ws)) (drop 16 ws)"

definition sha256 :: "string \<Rightarrow> string" where
  "sha256 s = (let p = sha_pad (map of_char s); ws = words_of p in
     map char_of (concat (map (\<lambda>x. be_bytes 4 (unat x)) (sha_blocks (length p div 64) sha_H0 ws))))"

definition xor_byte :: "nat \<Rightarrow> char \<Rightarrow> char" where
  "xor_byte k c = char_of ((of_char c :: nat) XOR k)"

definition hmac_sha256 :: "string \<Rightarrow> string \<Rightarrow> string" where
  "hmac_sha256 key msg =
     (let k0 = (if 64 < length key then sha256 key else key);
          k = k0 @ replicate (64 - length k0) (char_of (0 :: nat))
      in sha256 (map (xor_byte 92) k @ sha256 (map (xor_byte 54) k @ msg)))"

section \<open>JSON texts\<close>

text \<open>
  \<^verbatim>\<open>json.Unmarshal\<close> of a text. The fuel bounds the nesting, which is less than the
  length of the text. An object keeps its members with the last one first, since the last of
  equal keys wins. A \<^verbatim>\<open>\u\<close> escape is decoded to UTF-8; a surrogate becomes U+FFFD.
\<close>

definition json_ws :: "char \<Rightarrow> bool" where
  "json_ws c \<longleftrightarrow> (of_char c :: nat) \<in> {9, 10, 13, 32}"

definition skip_ws :: "string \<Rightarrow> string" where
  "skip_ws s = dropWhile json_ws s"

definition hex_val :: "char \<Rightarrow> nat option" where
  "hex_val c = (let n = of_char c :: nat in
     if 48 \<le> n \<and> n \<le> 57 then Some (n - 48) else if 97 \<le> n \<and> n \<le> 102 then Some (n - 87)
     else if 65 \<le> n \<and> n \<le> 70 then Some (n - 55) else None)"

definition utf8 :: "nat \<Rightarrow> string" where
  "utf8 n = map char_of (if n < 128 then [n] else if n < 2048 then [192 + n div 64, 128 + n mod 64]
     else if 55296 \<le> n \<and> n \<le> 57343 then [239, 191, 189]
     else [224 + n div 4096, 128 + n div 64 mod 64, 128 + n mod 64])"

definition unescape :: "char \<Rightarrow> char option" where
  "unescape c = (if c = CHR 0x22 then Some (CHR 0x22) else if c = CHR 0x5C then Some (CHR 0x5C) else if c = CHR ''/'' then Some (CHR ''/'')
     else if c = CHR ''b'' then Some (CHR 8) else if c = CHR ''f'' then Some (CHR 12) else if c = CHR ''n'' then Some (CHR 10)
     else if c = CHR ''r'' then Some (CHR 13) else if c = CHR ''t'' then Some (CHR 9) else None)"

text \<open>The rest of a string after its opening quote.\<close>

fun parse_chars :: "string \<Rightarrow> (string \<times> string) option" where
  "parse_chars [] = None"
| "parse_chars (c # cs) =
     (if c = CHR 0x22 then Some ([], cs)
      else if c = CHR 0x5C then
        (case cs of
           [] \<Rightarrow> None
         | e # es \<Rightarrow>
            if e = CHR ''u'' then
              (case es of p # q # r # t # rest \<Rightarrow>
                 (case (hex_val p, hex_val q, hex_val r, hex_val t) of
                    (Some a, Some b, Some d, Some f) \<Rightarrow>
                      map_option (\<lambda>(x, y). (utf8 (((a * 16 + b) * 16 + d) * 16 + f) @ x, y)) (parse_chars rest)
                  | _ \<Rightarrow> None)
               | _ \<Rightarrow> None)
            else (case unescape e of None \<Rightarrow> None | Some d \<Rightarrow> map_option (\<lambda>(x, y). (d # x, y)) (parse_chars es)))
      else if (of_char c :: nat) < 32 then None
      else map_option (\<lambda>(x, y). (c # x, y)) (parse_chars cs))"

text \<open>A number: sign, integer part without leading zeros, fraction, exponent.\<close>

definition parse_nat :: "string \<Rightarrow> (string \<times> string) option" where
  "parse_nat s = (let d = takeWhile is_digit s in if d = [] then None else Some (d, dropWhile is_digit s))"

definition parse_exp :: "string \<Rightarrow> (int \<times> string) option" where
  "parse_exp s = (case s of
     c # cs \<Rightarrow> if c = CHR ''e'' \<or> c = CHR ''E'' then
        (let (neg, t) = (case cs of d # ds \<Rightarrow> if d = CHR ''-'' then (True, ds) else if d = CHR ''+'' then (False, ds) else (False, cs) | [] \<Rightarrow> (False, []))
         in map_option (\<lambda>(ds, rest). (if neg then - digits_val ds else digits_val ds, rest)) (parse_nat t))
        else Some (0, s)
   | [] \<Rightarrow> Some (0, []))"

definition parse_unsigned :: "string \<Rightarrow> (rat \<times> string) option" where
  "parse_unsigned s = (case parse_nat s of
     None \<Rightarrow> None
   | Some (ds, r) \<Rightarrow>
      if hd ds = CHR ''0'' \<and> 1 < length ds then None else
      (case (case r of c # cs \<Rightarrow> if c = CHR ''.'' then parse_nat cs else Some ([], r) | [] \<Rightarrow> Some ([], [])) of
         None \<Rightarrow> None
       | Some (fs, r2) \<Rightarrow> map_option (\<lambda>(e, r3). ((of_int (digits_val ds) + of_int (digits_val fs) / 10 ^ length fs)
             * (if 0 \<le> e then 10 ^ nat e else 1 / 10 ^ nat (- e)), r3)) (parse_exp r2)))"

definition parse_number :: "string \<Rightarrow> (rat \<times> string) option" where
  "parse_number s = (case s of
     c # cs \<Rightarrow> if c = CHR ''-'' then map_option (\<lambda>(x, r). (- x, r)) (parse_unsigned cs) else parse_unsigned s
   | [] \<Rightarrow> None)"

fun parse_value :: "nat \<Rightarrow> string \<Rightarrow> (json \<times> string) option"
  and parse_items :: "nat \<Rightarrow> json list \<Rightarrow> string \<Rightarrow> (json list \<times> string) option"
  and parse_members :: "nat \<Rightarrow> (string \<times> json) list \<Rightarrow> string \<Rightarrow> ((string \<times> json) list \<times> string) option"
where
  "parse_value 0 s = None"
| "parse_value (Suc n) s =
     (case skip_ws s of
        [] \<Rightarrow> None
      | c # cs \<Rightarrow>
          if c = CHR 0x22 then map_option (\<lambda>(x, r). (JStr x, r)) (parse_chars cs)
          else if c = CHR ''['' then
            (case skip_ws cs of
               d # ds \<Rightarrow> if d = CHR '']'' then Some (JArr [], ds) else map_option (\<lambda>(xs, r). (JArr xs, r)) (parse_items n [] cs)
             | [] \<Rightarrow> None)
          else if c = CHR 0x7B then
            (case skip_ws cs of
               d # ds \<Rightarrow> if d = CHR 0x7D then Some (JObj [], ds) else map_option (\<lambda>(xs, r). (JObj xs, r)) (parse_members n [] cs)
             | [] \<Rightarrow> None)
          else if has_prefix ''null'' (c # cs) then Some (JNull, drop 3 cs)
          else if has_prefix ''true'' (c # cs) then Some (JBool True, drop 3 cs)
          else if has_prefix ''false'' (c # cs) then Some (JBool False, drop 4 cs)
          else map_option (\<lambda>(x, r). (JNum x, r)) (parse_number (c # cs)))"
| "parse_items 0 acc s = None"
| "parse_items (Suc n) acc s =
     (case parse_value n s of
        None \<Rightarrow> None
      | Some (v, r) \<Rightarrow>
          (case skip_ws r of
             d # ds \<Rightarrow> if d = CHR '','' then parse_items n (acc @ [v]) ds
                      else if d = CHR '']'' then Some (acc @ [v], ds) else None
           | [] \<Rightarrow> None))"
| "parse_members 0 acc s = None"
| "parse_members (Suc n) acc s =
     (case skip_ws s of
        [] \<Rightarrow> None
      | c # cs \<Rightarrow>
          if c \<noteq> CHR 0x22 then None else
          (case parse_chars cs of
             None \<Rightarrow> None
           | Some (k, r) \<Rightarrow>
              (case skip_ws r of
                 [] \<Rightarrow> None
               | d # ds \<Rightarrow>
                  if d \<noteq> CHR '':'' then None else
                  (case parse_value n ds of
                     None \<Rightarrow> None
                   | Some (v, r2) \<Rightarrow>
                      (case skip_ws r2 of
                         e # es \<Rightarrow> if e = CHR '','' then parse_members n ((k, v) # acc) es
                                  else if e = CHR 0x7D then Some ((k, v) # acc, es) else None
                       | [] \<Rightarrow> None)))))"

definition json_unmarshal :: "string \<Rightarrow> json option" where
  "json_unmarshal s = (case parse_value (2 * length s + 2) s of
     None \<Rightarrow> None
   | Some (v, r) \<Rightarrow> if skip_ws r = [] then Some v else None)"

section \<open>Decoding inverts encoding\<close>

lemma of_b64_char: "k < 64 \<Longrightarrow> (of_char (b64_char k) :: nat)
   = (if k < 26 then 65 + k else if k < 52 then 71 + k else if k < 62 then k - 4 else if k = 62 then 45 else 95)"
  by (simp add: b64_char_def)

lemma b64_val_char: "k < 64 \<Longrightarrow> b64_val (b64_char k) = Some k"
  by (auto simp: b64_val_def of_b64_char Let_def)

lemma b64_char_plain: "k < 64 \<Longrightarrow> of_char (b64_char k) \<noteq> (10 :: nat) \<and> of_char (b64_char k) \<noteq> (13 :: nat) \<and> b64_char k \<noteq> CHR ''.''"
  using of_b64_char [of k] by (cases "b64_char k = CHR ''.''") (auto split: if_splits)

lemma b64_nats_small: "list_all (\<lambda>n. n < 256) l \<Longrightarrow> list_all (\<lambda>k. k < 64) (b64_nats l)"
  by (induction l rule: b64_nats.induct) (auto simp: less_mult_imp_div_less)

lemma div_mod_join: "(a :: nat) div n * n + a mod n = a"
  by simp

lemma nats_b64_nats: "list_all (\<lambda>n. n < 256) l \<Longrightarrow> nats_b64 (b64_nats l) = Some l"
proof (induction l rule: b64_nats.induct)
  case (4 a b c rest)
  have "(a mod 4 * 16 + b div 16) div 16 = a mod 4" "(a mod 4 * 16 + b div 16) mod 16 = b div 16"
    "(b mod 16 * 4 + c div 64) div 4 = b mod 16" "(b mod 16 * 4 + c div 64) mod 4 = c div 64"
    using 4 by (simp_all add: less_mult_imp_div_less)
  then show ?case using 4 by simp
qed (simp_all add: less_mult_imp_div_less)

lemma b64_vals_chars: "list_all (\<lambda>k. k < 64) l \<Longrightarrow> b64_vals (map b64_char l) = Some l"
  by (induction l) (simp_all add: b64_val_char)

lemma b64_decode_encode: "b64_decode (b64_encode s) = Some s"
proof -
  let ?l = "b64_nats (map of_char s)"
  have bytes: "list_all (\<lambda>n. n < 256) (map of_char s :: nat list)" by (simp add: list_all_iff)
  have small: "list_all (\<lambda>k. k < 64) ?l" by (rule b64_nats_small [OF bytes])
  then have "filter (\<lambda>c. of_char c \<noteq> (10 :: nat) \<and> of_char c \<noteq> (13 :: nat)) (map b64_char ?l) = map b64_char ?l"
    by (simp add: filter_id_conv list_all_iff b64_char_plain)
  then show ?thesis using b64_vals_chars [OF small] nats_b64_nats [OF bytes]
    by (simp add: b64_decode_def b64_encode_def comp_def)
qed

lemma b64_encode_no_dot: "CHR ''.'' \<notin> set (b64_encode s)"
proof -
  have "list_all (\<lambda>k. k < 64) (b64_nats (map of_char s))" by (rule b64_nats_small) (simp add: list_all_iff)
  then show ?thesis using b64_char_plain by (fastforce simp: b64_encode_def list_all_iff)
qed

subsection \<open>JSON texts of flat objects\<close>

definition printable :: "string \<Rightarrow> bool" where
  "printable s \<longleftrightarrow> list_all (\<lambda>c. 32 \<le> (of_char c :: nat)) s"

lemma parse_chars_esc: "32 \<le> (of_char c :: nat) \<Longrightarrow> parse_chars (esc_char c @ s) = map_option (\<lambda>(x, y). (c # x, y)) (parse_chars s)"
proof -
  have "char_of (38 :: nat) = CHR ''&''" "char_of (60 :: nat) = CHR ''<''" "char_of (62 :: nat) = CHR ''>''" by code_simp+
  then show "32 \<le> (of_char c :: nat) \<Longrightarrow> parse_chars (esc_char c @ s) = map_option (\<lambda>(x, y). (c # x, y)) (parse_chars s)"
    by (cases "parse_chars s") (auto simp: esc_char_def unescape_def hex_val_def utf8_def)
qed

lemma parse_chars_quoted: "printable s \<Longrightarrow> parse_chars (concat (map esc_char s) @ CHR 0x22 # rest) = Some (s, rest)"
  by (induction s) (simp_all add: printable_def parse_chars_esc)

lemma format_float_int: "format_float (of_int n) = itoa n"
proof -
  have "\<lfloor>\<bar>of_int n :: rat\<bar> + 1 / 2\<rfloor> = \<bar>n\<bar>" using floor_half [of "\<bar>n\<bar>"] by simp
  moreover have "frac_digits 17 (of_int n) = 0" by (simp add: numeral_eq_Suc is_dec_def)
  ultimately show ?thesis by (simp add: format_float_def fixed_def itoa_def Let_def)
qed

lemma takeWhile_digits: "takeWhile is_digit (digits_of k @ r) = digits_of k @ takeWhile is_digit r"
  "dropWhile is_digit (digits_of k @ r) = dropWhile is_digit r"
  using digits_of_digits [of k] by (simp_all add: list_all_iff takeWhile_append2 dropWhile_append2)

lemma digits_of_hd: "hd (digits_of k) = CHR ''0'' \<Longrightarrow> length (digits_of k) \<le> 1"
proof (induction k rule: digits_of.induct)
  case (1 n)
  show ?case
  proof (cases "n < 10")
    case True
    then show ?thesis by (subst digits_of.simps) simp
  next
    case False
    then have "digits_of n = digits_of (n div 10) @ [digit_char (n mod 10)]" by (subst digits_of.simps) simp
    then have "hd (digits_of (n div 10)) = CHR ''0''" using 1(2) by simp
    then have l: "length (digits_of (n div 10)) \<le> 1" using 1(1) False by simp
    then have "n div 10 < 10" by (subst (asm) digits_of.simps) (auto split: if_splits)
    then have "digits_of (n div 10) = [digit_char (n div 10)]" by (subst digits_of.simps) simp
    then have "digit_char (n div 10) = CHR ''0''" using \<open>hd (digits_of (n div 10)) = CHR ''0''\<close> by simp
    then have "of_char (digit_char (n div 10)) = (48 :: nat)" by simp
    then show ?thesis using False \<open>n div 10 < 10\<close> by (simp add: of_char_digit)
  qed
qed

definition ends_number :: "string \<Rightarrow> bool" where
  "ends_number r \<longleftrightarrow> (case r of c # _ \<Rightarrow> c = CHR '','' \<or> c = CHR 0x7D | [] \<Rightarrow> False)"

lemma parse_unsigned_digits: "ends_number r \<Longrightarrow> parse_unsigned (digits_of k @ r) = Some (of_nat k, r)"
proof -
  assume "ends_number r"
  then obtain c cs where r: "r = c # cs" "c = CHR '','' \<or> c = CHR 0x7D" by (auto simp: ends_number_def split: list.splits)
  then have "\<not> is_digit c" by (auto simp: is_digit_def)
  then have n: "parse_nat (digits_of k @ r) = Some (digits_of k, r)"
    using r by (simp add: parse_nat_def Let_def takeWhile_digits)
  have z: "\<not> (hd (digits_of k) = CHR ''0'' \<and> 1 < length (digits_of k))" using digits_of_hd [of k] by auto
  show ?thesis unfolding parse_unsigned_def n option.case prod.case if_not_P [OF z] using r
    by (auto simp: parse_exp_def digits_val_digits_of digits_val_def [of "[]"])
qed

lemma parse_number_itoa: "ends_number r \<Longrightarrow> parse_number (itoa n @ r) = Some (of_int n, r)"
proof (cases "n < 0")
  case False
  assume e: "ends_number r"
  obtain c cs where d: "digits_of (nat n) = c # cs" using digits_of_nonempty [of "nat n"] by (cases "digits_of (nat n)") auto
  then have "c \<noteq> CHR ''-''" using digits_of_sign by blast
  then show ?thesis using parse_unsigned_digits [OF e, of "nat n"] False d by (simp add: itoa_def parse_number_def)
qed (simp add: parse_number_def itoa_def parse_unsigned_digits)

lemma skip_ws_char [simp]: "\<not> json_ws c \<Longrightarrow> skip_ws (c # s) = c # s"
  by (simp add: skip_ws_def)

lemma json_ws_chars [simp]: "\<not> json_ws (CHR 0x22)" "\<not> json_ws (CHR '','')" "\<not> json_ws (CHR '':'')" "\<not> json_ws (CHR 0x7B)"
  "\<not> json_ws (CHR 0x7D)" "is_digit c \<Longrightarrow> \<not> json_ws c" "\<not> json_ws (CHR ''-'')"
  by (auto simp: json_ws_def is_digit_def)

lemma parse_chars_closed: "printable s \<Longrightarrow> parse_chars (concat (map esc_char s) @ [CHR 0x22] @ rest) = Some (s, rest)"
  using parse_chars_quoted by simp

lemma parse_value_quoted: "printable s \<Longrightarrow> parse_value (Suc n) (quoted s @ r) = Some (JStr s, r)"
  by (simp add: quoted_def parse_chars_quoted)

lemma parse_value_itoa: "ends_number r \<Longrightarrow> parse_value (Suc n) (itoa k @ r) = Some (JNum (of_int k), r)"
proof -
  assume e: "ends_number r"
  obtain c cs where i: "itoa k = c # cs" "is_digit c \<or> c = CHR ''-''"
  proof (cases "k < 0")
    case False
    then show ?thesis using that digits_of_digits [of "nat k"] digits_of_nonempty [of "nat k"]
      by (cases "digits_of (nat k)") (auto simp: itoa_def)
  qed (auto simp: itoa_def intro: that)
  have "\<not> json_ws c" "c \<noteq> CHR 0x22" "c \<noteq> CHR ''[''" "c \<noteq> CHR 0x7B" "c \<noteq> CHR ''n''" "c \<noteq> CHR ''t''" "c \<noteq> CHR ''f''"
    using i(2) by (auto simp: is_digit_def json_ws_def)
  then show ?thesis using parse_number_itoa [OF e, of k] i(1) by (simp add: has_prefix_def)
qed

lemma parse_member_str:
  assumes "printable k" "printable s"
  shows "parse_members (Suc (Suc n)) acc (quoted k @ CHR '':'' # quoted s @ CHR '','' # r) = parse_members (Suc n) ((k, JStr s) # acc) r"
    and "parse_members (Suc (Suc n)) acc (quoted k @ CHR '':'' # quoted s @ CHR 0x7D # r) = Some ((k, JStr s) # acc, r)"
  using assms by (simp_all add: quoted_def parse_chars_quoted)

lemma parse_member_int:
  assumes "printable k"
  shows "parse_members (Suc (Suc n)) acc (quoted k @ CHR '':'' # itoa i @ CHR '','' # r) = parse_members (Suc n) ((k, JNum (of_int i)) # acc) r"
    and "parse_members (Suc (Suc n)) acc (quoted k @ CHR '':'' # itoa i @ CHR 0x7D # r) = Some ((k, JNum (of_int i)) # acc, r)"
proof -
  have "ends_number (CHR '','' # r)" "ends_number (CHR 0x7D # r)" by (simp_all add: ends_number_def)
  note v = parse_value_itoa [OF this(1), of n i] parse_value_itoa [OF this(2), of n i]
  show "parse_members (Suc (Suc n)) acc (quoted k @ CHR '':'' # itoa i @ CHR '','' # r) = parse_members (Suc n) ((k, JNum (of_int i)) # acc) r"
    "parse_members (Suc (Suc n)) acc (quoted k @ CHR '':'' # itoa i @ CHR 0x7D # r) = Some ((k, JNum (of_int i)) # acc, r)"
    using assms v by (simp_all add: quoted_def parse_chars_quoted del: parse_value.simps)
qed

end
