(* ===== verification/Outbox.thy ===== *)
theory Outbox
  imports Tables Calendar
begin

text \<open>
  Messages and the transactional outbox: \<^verbatim>\<open>internal/pkg/event/types.go\<close>,
  \<^verbatim>\<open>adapter/repo/outbox.go\<close>, \<^verbatim>\<open>adapter/nats/publisher.go\<close> and the relay
  \<^verbatim>\<open>app/cron/outbox_relay.go\<close>. An event is stored as JSON in a row; the relay polls
  the oldest unpublished rows, publishes them and marks them. The lemmas show what the relay
  guarantees under failures (no event is lost, a marked event was published), that it drains the
  table when nothing fails, and where it stops: rows past the retry cap stay at the head of the
  batch.
\<close>

section \<open>Events\<close>

definition NewEvent :: "string \<Rightarrow> int \<Rightarrow> string \<Rightarrow> string \<Rightarrow> json \<Rightarrow> IdentityEvent op" where
  "NewEvent eventType accountID lurusID productID payload =
     bind draw (\<lambda>uuid. bind now (\<lambda>n.
     ret \<lparr>ev_EventID = uuid, ev_EventType = eventType, ev_AccountID = accountID, ev_LurusID = lurusID,
          ev_ProductID = productID, ev_Payload = payload, ev_OccurredAt = n\<rparr>))"

text \<open>\<^verbatim>\<open>json.Marshal\<close> of an event; \<^verbatim>\<open>product_id\<close> is omitted when empty.\<close>

definition event_json :: "IdentityEvent \<Rightarrow> json" where
  "event_json ev = JObj ([(''event_id'', JStr (ev_EventID ev)), (''event_type'', JStr (ev_EventType ev)),
      (''account_id'', JNum (of_int (ev_AccountID ev))), (''lurus_id'', JStr (ev_LurusID ev))]
     @ (if ev_ProductID ev = '''' then [] else [(''product_id'', JStr (ev_ProductID ev))])
     @ [(''payload'', ev_Payload ev), (''occurred_at'', JStr (format_rfc3339 (ev_OccurredAt ev)))])"

text \<open>
  \<^verbatim>\<open>json.Unmarshal\<close> into an event: a missing or null field keeps its zero value, a field
  of another type is an error.
\<close>

definition str_field :: "string \<Rightarrow> (string \<times> json) list \<Rightarrow> string option" where
  "str_field k kvs = (case map_of kvs k of None \<Rightarrow> Some [] | Some JNull \<Rightarrow> Some [] | Some (JStr s) \<Rightarrow> Some s | _ \<Rightarrow> None)"

definition int_field :: "string \<Rightarrow> (string \<times> json) list \<Rightarrow> int option" where
  "int_field k kvs = (case map_of kvs k of None \<Rightarrow> Some 0 | Some JNull \<Rightarrow> Some 0
     | Some (JNum x) \<Rightarrow> (if is_dec 0 x \<and> - (2 ^ 63) \<le> \<lfloor>x\<rfloor> \<and> \<lfloor>x\<rfloor> < 2 ^ 63 then Some \<lfloor>x\<rfloor> else None) | _ \<Rightarrow> None)"

definition time_field :: "string \<Rightarrow> (string \<times> json) list \<Rightarrow> time option" where
  "time_field k kvs = (case map_of kvs k of None \<Rightarrow> Some zero_time | Some JNull \<Rightarrow> Some zero_time
     | Some (JStr s) \<Rightarrow> parse_rfc3339 s | _ \<Rightarrow> None)"

definition json_field :: "string \<Rightarrow> (string \<times> json) list \<Rightarrow> json" where
  "json_field k kvs = (case map_of kvs k of None \<Rightarrow> JNull | Some v \<Rightarrow> v)"

definition json_event :: "json \<Rightarrow> IdentityEvent option" where
  "json_event j = (case j of
     JObj kvs \<Rightarrow>
      (case (str_field ''event_id'' kvs, str_field ''event_type'' kvs, int_field ''account_id'' kvs,
             str_field ''lurus_id'' kvs, str_field ''product_id'' kvs, time_field ''occurred_at'' kvs) of
         (Some i, Some ty, Some a, Some l, Some p, Some t) \<Rightarrow>
           Some \<lparr>ev_EventID = i, ev_EventType = ty, ev_AccountID = a, ev_LurusID = l, ev_ProductID = p,
                 ev_Payload = json_field ''payload'' kvs, ev_OccurredAt = t\<rparr>
       | _ \<Rightarrow> None)
   | JNull \<Rightarrow> Some IdentityEvent0
   | _ \<Rightarrow> None)"

text \<open>\<^verbatim>\<open>js.Publish\<close>: the stream stores the message, or the call errors.\<close>

definition Publisher_Publish :: "IdentityEvent \<Rightarrow> unit op" where
  "Publisher_Publish ev = wrap (''publish '' @ ev_EventType ev)
     (stmt (EExt ''nats'') (\<lambda>w. (Inr (), w\<lparr>published := published w @ [ev]\<rparr>)))"

section \<open>The outbox table\<close>

definition OutboxRepo_Insert :: "IdentityEvent \<Rightarrow> unit op" where
  "OutboxRepo_Insert ev = bind (wrap ''insert outbox event'' (q_insert outbox_T
     (OutboxEvent0\<lparr>obx_EventID := ev_EventID ev, obx_Subject := ev_EventType ev, obx_Payload := event_json ev\<rparr>)))
     (\<lambda>_. ret ())"

definition OutboxRepo_ListUnpublished :: "int \<Rightarrow> OutboxEvent list op" where
  "OutboxRepo_ListUnpublished limit =
     bind (q_find outbox_T (\<lambda>r. obx_PublishedAt r = None)) (\<lambda>rows. ret (take (nat limit) (sort_key obx_ID rows)))"

definition OutboxRepo_MarkPublished :: "int \<Rightarrow> unit op" where
  "OutboxRepo_MarkPublished i = bind now (\<lambda>n.
     bind (q_update outbox_T (\<lambda>r. obx_ID r = i) (\<lambda>r. r\<lparr>obx_PublishedAt := Some n\<rparr>)) (\<lambda>_. ret ()))"

definition OutboxRepo_IncrementAttempts :: "int \<Rightarrow> string \<Rightarrow> unit op" where
  "OutboxRepo_IncrementAttempts i lastErr =
     bind (q_update outbox_T (\<lambda>r. obx_ID r = i) (\<lambda>r. r\<lparr>obx_Attempts := obx_Attempts r + 1, obx_LastError := lastErr\<rparr>))
       (\<lambda>_. ret ())"

definition OutboxRepo_DeletePublishedBefore :: "time \<Rightarrow> int op" where
  "OutboxRepo_DeletePublishedBefore cutoff =
     q_delete outbox_T (\<lambda>r. case obx_PublishedAt r of None \<Rightarrow> False | Some t \<Rightarrow> t < cutoff)"

section \<open>The relay\<close>

definition outboxBatchSize :: int where
  "outboxBatchSize = 50"

definition outboxMaxAttempts :: int where
  "outboxMaxAttempts = 10"

definition outboxCleanupAge :: time where
  "outboxCleanupAge = 7 * 24 * hour_ns"

text \<open>\<^verbatim>\<open>err.Error()\<close>; the texts of the drivers are abbreviated to a word.\<close>

fun err_text :: "err \<Rightarrow> string" where
  "err_text (EMsg s) = s"
| "err_text (EWrap s e) = s @ '': '' @ err_text e"
| "err_text (EExt s) = s"
| "err_text (EUnique s) = ''unique '' @ s"
| "err_text ENoRow = ''record not found''"
| "err_text (EInsufficient h n) = ''insufficient balance: have '' @ fixed 4 h @ '', need '' @ fixed 4 n"
| "err_text EDb = ''db''"
| "err_text ERedis = ''redis''"

definition OutboxRelay_publishOne :: "OutboxEvent \<Rightarrow> unit op" where
  "OutboxRelay_publishOne row = (case json_event (obx_Payload row) of
      None \<Rightarrow> fail (EMsg ''unmarshal outbox payload'')
    | Some ev \<Rightarrow> Publisher_Publish ev)"

definition relay_row :: "OutboxEvent \<Rightarrow> unit op" where
  "relay_row row =
     (if outboxMaxAttempts \<le> obx_Attempts row then ret () else
      attempt (OutboxRelay_publishOne row) (\<lambda>r. case r of
        Inl e \<Rightarrow> ignore (OutboxRepo_IncrementAttempts (obx_ID row) (err_text e))
      | Inr _ \<Rightarrow> ignore (OutboxRepo_MarkPublished (obx_ID row))))"

definition OutboxRelay_pollAndPublish :: "unit op" where
  "OutboxRelay_pollAndPublish =
     attempt (OutboxRepo_ListUnpublished outboxBatchSize) (\<lambda>r. case r of
       Inl e \<Rightarrow> ret ()
     | Inr rows \<Rightarrow> for_each relay_row rows)"

definition OutboxRelay_cleanup :: "unit op" where
  "OutboxRelay_cleanup = bind now (\<lambda>n. ignore (OutboxRepo_DeletePublishedBefore (n - outboxCleanupAge)))"

section \<open>Round trip\<close>

lemma rat_int_dec: "is_dec 0 (of_int n)"
  by (simp add: is_dec_def)

text \<open>C15: An event survives the outbox. Decoding the JSON that was stored for an event gives the
  event back: every field, the nanoseconds of its instant included, for account ids of 64
  bits and years of four digits.\<close>

theorem event_json_roundtrip:
  assumes "- (2 ^ 63) \<le> ev_AccountID ev" and "ev_AccountID ev < 2 ^ 63"
    and "date_of (ev_OccurredAt ev) = (y, m, d)" and "0 \<le> y" and "y < 10000"
  shows "json_event (event_json ev) = Some ev"
  using assms parse_rfc3339_text [OF assms(3-5)]
  by (simp add: json_event_def event_json_def str_field_def int_field_def time_field_def json_field_def rat_int_dec)

theorem event_json_roundtrip_witness:
  "json_event (event_json (IdentityEvent0\<lparr>ev_EventID := ''u'', ev_EventType := ''identity.refund.completed'',
     ev_AccountID := 7, ev_OccurredAt := go_date 2026 2 28 86399999999900\<rparr>))
   = Some (IdentityEvent0\<lparr>ev_EventID := ''u'', ev_EventType := ''identity.refund.completed'',
     ev_AccountID := 7, ev_OccurredAt := go_date 2026 2 28 86399999999900\<rparr>)"
  using go_date_valid(1) [of 2026 2 28 86399999999900]
  by (intro event_json_roundtrip [where y = 2026 and m = 2 and d = 28])
    (simp_all add: valid_date_def month_len_def leap_def day_ns_def IdentityEvent0_def)

section \<open>No event is lost\<close>

definition waiting :: "IdentityEvent \<Rightarrow> world \<Rightarrow> bool" where
  "waiting ev w \<longleftrightarrow> (\<exists>r\<in>set (outbox w). obx_PublishedAt r = None \<and> obx_Payload r = event_json ev)"

text \<open>\<open>delivering ev w\<close>: ids are unique, every row marked published was published, and \<open>ev\<close>
  was published or still waits.\<close>

definition marked_ok :: "world \<Rightarrow> bool" where
  "marked_ok w \<longleftrightarrow> (\<forall>r\<in>set (outbox w). obx_PublishedAt r \<noteq> None \<longrightarrow>
     json_event (obx_Payload r) \<in> Some ` set (published w))"

definition delivering :: "IdentityEvent \<Rightarrow> world \<Rightarrow> bool" where
  "delivering ev w \<longleftrightarrow> uniq_by obx_ID (outbox w) \<and> marked_ok w \<and> (ev \<in> set (published w) \<or> waiting ev w)"

definition snap :: "OutboxEvent list \<Rightarrow> world \<Rightarrow> bool" where
  "snap rows w \<longleftrightarrow> (\<forall>row\<in>set rows. \<forall>r\<in>set (outbox w). obx_ID r = obx_ID row \<longrightarrow> obx_Payload r = obx_Payload row)"

lemma stable_delivering [simp, intro]: "stable (delivering ev)" "stable (snap rows)"
  by (simp_all add: stable_def delivering_def waiting_def marked_ok_def snap_def)

lemma outbox_cols: "t_cols outbox_T r = r" "t_touch outbox_T n r = r"
  by (simp_all add: outbox_T_def)

lemma publish_effect:
  assumes "Publisher_Publish ev w = (r, w')"
  shows "outbox w' = outbox w" and "set (published w) \<subseteq> set (published w')"
    and "r = Inr u \<Longrightarrow> ev \<in> set (published w')"
  using assms by (auto simp: Publisher_Publish_def wrap_def stmt_def split: if_splits)

lemma publishOne_effect:
  assumes "OutboxRelay_publishOne row w = (r, w')"
  shows "outbox w' = outbox w" and "set (published w) \<subseteq> set (published w')"
    and "r = Inr u \<Longrightarrow> \<exists>ev. json_event (obx_Payload row) = Some ev \<and> ev \<in> set (published w')"
  using assms publish_effect unfolding OutboxRelay_publishOne_def
  by (auto simp: fail_def split: option.splits)

lemma delivering_cong:
  "outbox w' = outbox w \<Longrightarrow> set (published w) \<subseteq> set (published w') \<Longrightarrow> delivering ev w \<Longrightarrow> delivering ev w'"
  unfolding delivering_def waiting_def marked_ok_def by (metis (no_types, lifting) image_mono subsetD)

lemma delivering_upd:
  assumes "delivering ev w" and f: "\<And>r. obx_ID (f r) = obx_ID r \<and> obx_Payload (f r) = obx_Payload r \<and> obx_PublishedAt (f r) = obx_PublishedAt r"
  shows "delivering ev (outbox_update (upd_rows P f) w)"
proof -
  have "waiting ev (outbox_update (upd_rows P f) w)" if w: "waiting ev w"
  proof -
    from w obtain r where r: "r \<in> set (outbox w)" "obx_PublishedAt r = None" "obx_Payload r = event_json ev"
      by (auto simp: waiting_def)
    from upd_rows_mem [OF r(1), of P f] r(2,3) f [of r] show ?thesis
      by (auto simp: waiting_def split: if_splits)
  qed
  moreover have "marked_ok (outbox_update (upd_rows P f) w)"
    using assms by (auto simp: delivering_def marked_ok_def set_upd_rows)
  ultimately show ?thesis using assms by (auto simp: delivering_def uniq_by_upd)
qed

lemma mark_delivering:
  assumes d: "delivering ev w" and sn: "snap [row] w" and e: "json_event (obx_Payload row) = Some e" "e \<in> set (published w)"
    and rt: "json_event (event_json ev) = Some ev"
  shows "delivering ev (outbox_update (upd_rows (\<lambda>r. obx_ID r = obx_ID row) (\<lambda>r. r\<lparr>obx_PublishedAt := Some n\<rparr>)) w)"
    (is "delivering ev (outbox_update (upd_rows ?P ?f) w)")
proof -
  have "ev \<in> set (published w) \<or> waiting ev (outbox_update (upd_rows ?P ?f) w)"
  proof (cases "ev \<in> set (published w)")
    case False
    with d obtain r where r: "r \<in> set (outbox w)" "obx_PublishedAt r = None" "obx_Payload r = event_json ev"
      by (auto simp: delivering_def waiting_def)
    have "obx_ID r \<noteq> obx_ID row"
      using r sn e rt False by (auto simp: snap_def)
    with upd_rows_mem [OF r(1), of ?P ?f] r(2,3) show ?thesis by (auto simp: waiting_def)
  qed simp
  moreover have "marked_ok (outbox_update (upd_rows ?P ?f) w)"
    using d sn e by (auto simp: delivering_def marked_ok_def set_upd_rows snap_def)
  ultimately show ?thesis using d by (simp add: delivering_def uniq_by_upd)
qed

lemma snap_upd: "snap rows w \<Longrightarrow> (\<And>r. obx_ID (f r) = obx_ID r \<and> obx_Payload (f r) = obx_Payload r) \<Longrightarrow>
   snap rows (outbox_update (upd_rows P f) w)"
  by (auto simp: snap_def set_upd_rows)

lemma relay_row_delivering:
  assumes d: "delivering ev w" and sn: "snap (row # rows) w" and rt: "json_event (event_json ev) = Some ev"
  shows "delivering ev (snd (relay_row row w)) \<and> snap rows (snd (relay_row row w))"
proof (cases "outboxMaxAttempts \<le> obx_Attempts row")
  case True
  then show ?thesis using d sn by (simp add: relay_row_def ret_def snap_def)
next
  case False
  obtain r w1 where p: "OutboxRelay_publishOne row w = (r, w1)" by fastforce
  note e = publishOne_effect [OF p]
  have d1: "delivering ev w1" using delivering_cong [OF e(1,2) d] .
  have s1: "snap rows w1" "snap [row] w1" using sn e(1) by (simp_all add: snap_def)
  have run: "snd (relay_row row w) = (case r of
       Inl x \<Rightarrow> snd (OutboxRepo_IncrementAttempts (obx_ID row) (err_text x) w1)
     | Inr _ \<Rightarrow> snd (OutboxRepo_MarkPublished (obx_ID row) w1))"
    using False p by (simp add: relay_row_def attempt_def ignore_run split: sum.split)
  show ?thesis
  proof (cases r)
    case (Inl x)
    then show ?thesis using d1 s1 delivering_upd [of ev "adv w1" "\<lambda>r. r\<lparr>obx_Attempts := obx_Attempts r + 1, obx_LastError := err_text x\<rparr>"]
        snap_upd [of rows "adv w1" "\<lambda>r. r\<lparr>obx_Attempts := obx_Attempts r + 1, obx_LastError := err_text x\<rparr>"] stable_delivering
      by (simp add: run OutboxRepo_IncrementAttempts_def q_update_def stmt_def bind_def ret_def outbox_cols stable_def)
  next
    case (Inr u)
    then obtain e where "json_event (obx_Payload row) = Some e" "e \<in> set (published w1)" using e(3) by blast
    then show ?thesis using Inr d1 s1 mark_delivering [of ev "adv w1" row e "clock w1"]
        snap_upd [of rows "adv w1" "\<lambda>r. r\<lparr>obx_PublishedAt := Some (clock w1)\<rparr>"] stable_delivering rt
      by (simp add: run OutboxRepo_MarkPublished_def now_def q_update_def stmt_def bind_def ret_def outbox_cols stable_def)
  qed
qed

lemma rows_delivering:
  assumes "json_event (event_json ev) = Some ev"
  shows "delivering ev w \<Longrightarrow> snap rows w \<Longrightarrow> delivering ev (snd (for_each relay_row rows w))"
proof (induction rows arbitrary: w)
  case Nil
  then show ?case by (simp add: ret_def)
next
  case (Cons row rows)
  note s = relay_row_delivering [OF Cons.prems assms]
  obtain r w1 where m: "relay_row row w = (r, w1)" by fastforce
  show ?case
  proof (cases r)
    case (Inl e)
    then show ?thesis using m s by (simp add: bind_def)
  next
    case (Inr u)
    then show ?thesis using m s Cons.IH [of w1] by (simp add: bind_def)
  qed
qed

lemma poll_delivering:
  assumes "json_event (event_json ev) = Some ev"
  shows "keeps (delivering ev) OutboxRelay_pollAndPublish"
  unfolding keeps_def
proof (intro allI impI)
  fix w assume d: "delivering ev w"
  obtain r w1 where l: "OutboxRepo_ListUnpublished outboxBatchSize w = (r, w1)" by fastforce
  then have w1: "w1 = adv w"
    by (auto simp: OutboxRepo_ListUnpublished_def q_find_def stmt_def bind_def ret_def split: if_splits)
  show "delivering ev (snd (OutboxRelay_pollAndPublish w))"
  proof (cases r)
    case (Inl e)
    then show ?thesis using d l w1 stable_delivering by (simp add: OutboxRelay_pollAndPublish_def attempt_def ret_def stable_def)
  next
    case (Inr rows)
    then have rows: "rows = take (nat outboxBatchSize) (sort_key obx_ID (filter (\<lambda>r. obx_PublishedAt r = None) (outbox w)))"
      using l by (auto simp: OutboxRepo_ListUnpublished_def q_find_def stmt_def bind_def ret_def split: if_splits)
    have "row \<in> set (outbox w)" if "row \<in> set rows" for row
      using that in_set_takeD unfolding rows by fastforce
    then have "snap rows w1" using d w1 unfolding snap_def delivering_def by (metis adv_fields(21) uniq_by_eq)
    moreover have "delivering ev w1" using d w1 stable_delivering by (simp add: stable_def)
    ultimately show ?thesis using rows_delivering [OF assms] Inr l
      by (simp add: OutboxRelay_pollAndPublish_def attempt_def)
  qed
qed

lemma cleanup_delivering: "keeps (delivering ev) OutboxRelay_cleanup"
  unfolding OutboxRelay_cleanup_def OutboxRepo_DeletePublishedBefore_def
proof (intro keeps_intros keeps_q_delete)
  fix n and w :: world assume "delivering ev w"
  then show "delivering ev (t_upd outbox_T (filter (\<lambda>r. \<not> (case obx_PublishedAt r of None \<Rightarrow> False | Some t \<Rightarrow> t < n - outboxCleanupAge))) w)"
    by (auto simp: delivering_def waiting_def marked_ok_def uniq_by_filter)
qed simp

lemma insert_delivering: "keeps (delivering ev) (OutboxRepo_Insert e)"
  unfolding OutboxRepo_Insert_def
proof (intro keeps_intros keeps_q_insert)
  fix w :: world and i
  let ?r = "t_new outbox_T i (clock w) (OutboxEvent0\<lparr>obx_EventID := ev_EventID e, obx_Subject := ev_EventType e, obx_Payload := event_json e\<rparr>)"
  assume "delivering ev w" and "t_conflict outbox_T ?r (t_get outbox_T w) = None"
  then show "delivering ev (t_upd outbox_T (\<lambda>t. t @ [t_cols outbox_T ?r]) (w\<lparr>seqs := (seqs w)(t_name outbox_T := i + 1)\<rparr>))"
    by (auto simp: delivering_def waiting_def marked_ok_def uniq_by_def outbox_T_def OutboxEvent0_def)
qed simp

lemma insert_waiting:
  assumes "OutboxRepo_Insert ev w = (Inr u, w')"
  shows "waiting ev w'"
  using assms by (auto simp: OutboxRepo_Insert_def ok_simps waiting_def outbox_T_def OutboxEvent0_def)

text \<open>A run of the relay beside the writers of the table, time and failures.\<close>

datatype relay_step = Poll | Cleanup | Enqueue IdentityEvent | Wait time | Fail "bool list"

fun relay_exec :: "relay_step \<Rightarrow> world \<Rightarrow> world" where
  "relay_exec Poll w = snd (OutboxRelay_pollAndPublish w)"
| "relay_exec Cleanup w = snd (OutboxRelay_cleanup w)"
| "relay_exec (Enqueue e) w = snd (OutboxRepo_Insert e w)"
| "relay_exec (Wait d) w = w\<lparr>clock := clock w + d\<rparr>"
| "relay_exec (Fail bs) w = w\<lparr>faults := bs\<rparr>"

lemma delivering_fields [simp]:
  "delivering ev (w\<lparr>clock := c\<rparr>) = delivering ev w" "delivering ev (w\<lparr>faults := b\<rparr>) = delivering ev w"
  by (simp_all add: delivering_def waiting_def marked_ok_def)

lemma relay_run_delivering:
  assumes "json_event (event_json ev) = Some ev"
  shows "delivering ev w \<Longrightarrow> delivering ev (fold relay_exec xs w)"
proof (induction xs arbitrary: w)
  case (Cons x xs)
  have "delivering ev (relay_exec x w)"
    using Cons.prems poll_delivering [OF assms] cleanup_delivering insert_delivering
    by (cases x) (auto simp: keeps_def)
  then show ?case using Cons.IH by simp
qed simp

text \<open>C5: No event is lost. Once an event has been inserted into the outbox, then after any run of
  polls, cleanups, further insertions and waits, whichever statements and publications fail,
  the event has been published or still waits for it, and every row marked as published has
  been published.\<close>

theorem outbox_at_least_once:
  assumes "uniq_by obx_ID (outbox w)" and "marked_ok w" and "OutboxRepo_Insert ev w = (Inr u, w1)"
    and "json_event (event_json ev) = Some ev"
  shows "(ev \<in> set (published (fold relay_exec xs w1)) \<or> waiting ev (fold relay_exec xs w1))
    \<and> marked_ok (fold relay_exec xs w1)"
proof -
  have "OutboxRepo_Insert ev w = (Inr u, w1) \<Longrightarrow> uniq_by obx_ID (outbox w1) \<and> marked_ok w1"
    using assms(1,2) by (auto simp: OutboxRepo_Insert_def ok_simps marked_ok_def uniq_by_def outbox_T_def OutboxEvent0_def)
  then have "delivering ev w1" using assms(3) insert_waiting [OF assms(3)] by (simp add: delivering_def)
  then have "delivering ev (fold relay_exec xs w1)" by (rule relay_run_delivering [OF assms(4)])
  then show ?thesis by (simp add: delivering_def)
qed

theorem outbox_at_least_once_witness:
  "let ev = IdentityEvent0\<lparr>ev_EventID := ''u1''\<rparr>; w1 = snd (OutboxRepo_Insert ev world0);
       w2 = fold relay_exec [Fail [False, True], Poll, Fail [], Wait 5, Poll] w1
   in ev \<in> set (published w2) \<or> waiting ev w2"
proof -
  let ?ev = "IdentityEvent0\<lparr>ev_EventID := ''u1''\<rparr>"
  have "fst (OutboxRepo_Insert ?ev world0) = Inr ()" by code_simp
  then have r: "OutboxRepo_Insert ?ev world0 = (Inr (), snd (OutboxRepo_Insert ?ev world0))" by (metis prod.collapse)
  have "json_event (event_json ?ev) = Some ?ev" by code_simp
  from outbox_at_least_once [OF _ _ r this, of "[Fail [False, True], Poll, Fail [], Wait 5, Poll]"]
  show ?thesis by (simp only: Let_def) (simp add: marked_ok_def world0_def)
qed

section \<open>Progress\<close>

definition pending :: "world \<Rightarrow> OutboxEvent list" where
  "pending w = sort_key obx_ID (filter (\<lambda>r. obx_PublishedAt r = None) (outbox w))"

definition alive :: "OutboxEvent \<Rightarrow> bool" where
  "alive r \<longleftrightarrow> obx_Attempts r < outboxMaxAttempts \<and> json_event (obx_Payload r) \<noteq> None"

definition mark :: "time \<Rightarrow> int set \<Rightarrow> OutboxEvent list \<Rightarrow> OutboxEvent list" where
  "mark n is t = upd_rows (\<lambda>r. obx_ID r \<in> is) (\<lambda>r. r\<lparr>obx_PublishedAt := Some n\<rparr>) t"

lemma mark_mark: "mark n is (mark n {i} t) = mark n (insert i is) t"
  by (auto simp: mark_def upd_rows_def)

lemma rows_published:
  assumes "faults w = []" and "\<forall>r\<in>set rows. alive r"
  shows "for_each relay_row rows w = (Inr (), w\<lparr>published := published w @ map (the \<circ> json_event \<circ> obx_Payload) rows,
     outbox := mark (clock w) (obx_ID ` set rows) (outbox w)\<rparr>)"
  using assms
proof (induction rows arbitrary: w)
  case Nil
  then show ?case by (simp add: ret_def mark_def upd_rows_def)
next
  case (Cons row rows)
  obtain ev where ev: "json_event (obx_Payload row) = Some ev" "\<not> outboxMaxAttempts \<le> obx_Attempts row"
    using Cons.prems(2) by (auto simp: alive_def)
  let ?w = "w\<lparr>published := published w @ [ev], outbox := mark (clock w) {obx_ID row} (outbox w)\<rparr>"
  have "relay_row row w = (Inr (), ?w)" using ev Cons.prems(1)
    by (simp add: relay_row_def OutboxRelay_publishOne_def Publisher_Publish_def OutboxRepo_MarkPublished_def calm calm_stmt
        outbox_cols mark_def)
  then show ?case using Cons.IH [of ?w] Cons.prems ev
    by (simp add: bind_def mark_mark comp_def)
qed

lemma pending_mark:
  "pending (w\<lparr>outbox := mark n is (outbox w)\<rparr>) = filter (\<lambda>r. obx_ID r \<notin> is) (pending w)"
proof -
  have "filter (\<lambda>r. obx_PublishedAt r = None) (mark n is t)
      = filter (\<lambda>r. obx_ID r \<notin> is) (filter (\<lambda>r. obx_PublishedAt r = None) t)" for t
    by (induction t) (auto simp: mark_def)
  then show ?thesis by (simp add: pending_def filter_sort)
qed

lemma filter_ids_take:
  assumes "distinct (map f xs)"
  shows "filter (\<lambda>x. f x \<notin> f ` set (take n xs)) xs = drop n xs"
proof -
  have "distinct (map f (take n xs @ drop n xs))" using assms by simp
  then have "f ` set (take n xs) \<inter> f ` set (drop n xs) = {}" by (simp only: map_append distinct_append set_map)
  then have "filter (\<lambda>x. f x \<notin> f ` set (take n xs)) (take n xs @ drop n xs) = drop n xs"
    unfolding filter_append by (auto simp: filter_empty_conv filter_id_conv)
  then show ?thesis by simp
qed

lemma poll_publishes:
  assumes "faults w = []" and "uniq_by obx_ID (outbox w)" and "\<forall>r\<in>set (take 50 (pending w)). alive r"
  shows "\<exists>w'. OutboxRelay_pollAndPublish w = (Inr (), w') \<and> faults w' = [] \<and> uniq_by obx_ID (outbox w')
    \<and> pending w' = drop 50 (pending w)
    \<and> published w' = published w @ map (the \<circ> json_event \<circ> obx_Payload) (take 50 (pending w))"
proof -
  let ?rows = "take 50 (pending w)"
  let ?w = "w\<lparr>published := published w @ map (the \<circ> json_event \<circ> obx_Payload) ?rows,
     outbox := mark (clock w) (obx_ID ` set ?rows) (outbox w)\<rparr>"
  have "OutboxRelay_pollAndPublish w = (Inr (), ?w)"
    using rows_published [OF assms(1,3)] assms(1)
    by (simp add: OutboxRelay_pollAndPublish_def OutboxRepo_ListUnpublished_def calm pending_def outboxBatchSize_def)
  moreover have "uniq_by obx_ID (outbox ?w)" using assms(2) by (simp add: mark_def uniq_by_upd)
  moreover have "distinct (map obx_ID (pending w))"
    using assms(2) by (auto simp: pending_def uniq_by_def distinct_map inj_on_def)
  then have "pending ?w = drop 50 (pending w)"
    using pending_mark [of "clock w" _ w] filter_ids_take by (simp add: pending_def)
  ultimately show ?thesis using assms(1) by (intro exI [of _ ?w]) simp
qed
text \<open>C9: The relay drains the outbox. When nothing fails and no waiting row is past the retry cap or
  unreadable, \<open>n\<close> polls publish the first \<open>50 * n\<close> waiting events in the order of their ids and
  leave the others waiting; enough polls leave none.\<close>

theorem outbox_drains:
  assumes "faults w = []" and "uniq_by obx_ID (outbox w)" and "\<forall>r\<in>set (pending w). alive r"
  shows "published (fold relay_exec (replicate n Poll) w)
      = published w @ map (the \<circ> json_event \<circ> obx_Payload) (take (50 * n) (pending w))
    \<and> pending (fold relay_exec (replicate n Poll) w) = drop (50 * n) (pending w)"
  using assms
proof (induction n arbitrary: w)
  case (Suc n)
  have "\<forall>r\<in>set (take 50 (pending w)). alive r" using Suc.prems(3) in_set_takeD by metis
  from poll_publishes [OF Suc.prems(1,2) this] obtain w1 where w1: "OutboxRelay_pollAndPublish w = (Inr (), w1)"
    "faults w1 = []" "uniq_by obx_ID (outbox w1)" "pending w1 = drop 50 (pending w)"
    "published w1 = published w @ map (the \<circ> json_event \<circ> obx_Payload) (take 50 (pending w))" by blast
  moreover have "\<forall>r\<in>set (pending w1). alive r" using Suc.prems(3) w1(4) in_set_dropD by metis
  note Suc.IH [OF w1(2,3) this]
  moreover have "take (50 * Suc n) xs = take 50 xs @ take (50 * n) (drop 50 xs)" for xs :: "OutboxEvent list"
    by (simp add: take_add [symmetric])
  ultimately show ?case by (simp add: drop_drop add.commute)
qed simp

definition demo_outbox :: world where
  "demo_outbox = world0\<lparr>outbox := map (\<lambda>i. OutboxEvent0\<lparr>obx_ID := int i,
     obx_Payload := event_json (IdentityEvent0\<lparr>ev_AccountID := int i\<rparr>)\<rparr>) [1..<4]\<rparr>"

theorem outbox_drains_witness:
  "map ev_AccountID (published (fold relay_exec (replicate 1 Poll) demo_outbox)) = [1, 2, 3]"
proof -
  have h: "faults demo_outbox = []" "uniq_by obx_ID (outbox demo_outbox)" "\<forall>r\<in>set (pending demo_outbox). alive r"
    by code_simp+
  have "map ev_AccountID (published demo_outbox @ map (the \<circ> json_event \<circ> obx_Payload) (take (50 * 1) (pending demo_outbox))) = [1, 2, 3]"
    by code_simp
  then show ?thesis using outbox_drains [OF h, of 1] by simp
qed

text \<open>C16: Dead letters block the relay. If the fifty oldest unpublished rows are past the retry cap,
  a poll publishes nothing and changes nothing, however many younger events wait behind them
  and however often it is repeated.\<close>

theorem dead_letters_block_relay:
  assumes "faults w = []" and "\<forall>r\<in>set (take 50 (pending w)). outboxMaxAttempts \<le> obx_Attempts r"
  shows "fold relay_exec (replicate n Poll) w = w"
proof -
  have "for_each relay_row rows v = (Inr (), v)" if "\<forall>r\<in>set rows. outboxMaxAttempts \<le> obx_Attempts r" for rows v
    using that by (induction rows) (auto simp: relay_row_def bind_def ret_def)
  then have "OutboxRelay_pollAndPublish w = (Inr (), w)"
    using assms by (simp add: OutboxRelay_pollAndPublish_def OutboxRepo_ListUnpublished_def calm pending_def outboxBatchSize_def)
  then show ?thesis by (induction n) simp_all
qed

theorem dead_letters_block_relay_witness:
  "let w = world0\<lparr>outbox := map (\<lambda>i. OutboxEvent0\<lparr>obx_ID := int i, obx_Attempts := (if i \<le> 50 then 10 else 0),
     obx_Payload := event_json IdentityEvent0\<rparr>) [1..<52]\<rparr>
   in length (pending w) = 51 \<and> published (fold relay_exec (replicate 3 Poll) w) = []"
proof -
  let ?w = "world0\<lparr>outbox := map (\<lambda>i. OutboxEvent0\<lparr>obx_ID := int i, obx_Attempts := (if i \<le> 50 then 10 else 0),
     obx_Payload := event_json IdentityEvent0\<rparr>) [1..<52]\<rparr>"
  have "faults ?w = []" "\<forall>r\<in>set (take 50 (pending ?w)). outboxMaxAttempts \<le> obx_Attempts r" by code_simp+
  note dead_letters_block_relay [OF this, of 3]
  moreover have "length (pending ?w) = 51" "published ?w = []" by (code_simp, simp add: world0_def)
  ultimately show ?thesis by (simp only: Let_def)
qed

end
