(* ===== verification/Sessions.thy ===== *)
theory Sessions
  imports Encoding Outbox
begin

text \<open>
  \<^verbatim>\<open>internal/pkg/auth/session.go\<close>: the session tokens the program issues itself, signed
  JSON web tokens with HMAC-SHA256. The lemmas show that a token is accepted until it expires
  and names the account it was issued for, and that a token is accepted only if its claims were
  signed with the secret.
\<close>

section \<open>Operations\<close>

definition SessionIssuer :: string where
  "SessionIssuer = ''lurus-identity''"

definition sessionHMAC :: "string \<Rightarrow> string \<Rightarrow> string" where
  "sessionHMAC data key = hmac_sha256 key data"

definition sessionB64 :: "string \<Rightarrow> string" where
  "sessionB64 data = b64_encode data"

text \<open>\<^verbatim>\<open>time.Time.Unix()\<close>\<close>

definition unix :: "time \<Rightarrow> int" where
  "unix t = t div second_ns"

definition session_header :: string where
  "session_header = [CHR 0x7B] @ quoted ''typ'' @ '':'' @ quoted ''JWT'' @ '','' @ quoted ''alg'' @ '':'' @ quoted ''HS256'' @ [CHR 0x7D]"

definition session_claims :: "int \<Rightarrow> time \<Rightarrow> time \<Rightarrow> json" where
  "session_claims accountID n ttl = JObj [(''iss'', JStr SessionIssuer), (''sub'', JStr (''lurus:'' @ itoa accountID)),
     (''iat'', JNum (of_int (unix n))), (''exp'', JNum (of_int (unix (n + ttl))))]"

definition IssueSessionToken :: "int \<Rightarrow> time \<Rightarrow> string \<Rightarrow> string op" where
  "IssueSessionToken accountID ttl secret =
     (if secret = '''' then fail (EMsg ''session: empty secret'') else
      bind now (\<lambda>n.
      let body = sessionB64 session_header @ ''.'' @ sessionB64 (json_text (session_claims accountID n ttl));
          sig = sessionHMAC body secret
      in ret (body @ ''.'' @ sessionB64 sig)))"

text \<open>\<^verbatim>\<open>strings.Split(s, sep)\<close> for a separator of one byte.\<close>

fun split_on :: "char \<Rightarrow> string \<Rightarrow> string list" where
  "split_on c [] = [[]]"
| "split_on c (x # xs) = (if x = c then [] # split_on c xs
     else (case split_on c xs of [] \<Rightarrow> [[x]] | p # ps \<Rightarrow> (x # p) # ps))"

definition ValidateSessionToken :: "string \<Rightarrow> string \<Rightarrow> int op" where
  "ValidateSessionToken tokenStr secret =
     (if secret = '''' then fail (EMsg ''session: secret not configured'') else
      case split_on (CHR ''.'') tokenStr of
        [p0, p1, p2] \<Rightarrow>
         (let body = p0 @ ''.'' @ p1; expectedSig = sessionHMAC body secret in
          case b64_decode p2 of
            None \<Rightarrow> fail (EMsg ''session: decode signature'')
          | Some gotSig \<Rightarrow>
            if expectedSig \<noteq> gotSig then fail (EMsg ''session: invalid signature'') else
            case b64_decode p1 of
              None \<Rightarrow> fail (EMsg ''session: decode payload'')
            | Some payloadJSON \<Rightarrow>
              case (case json_unmarshal payloadJSON of
                      Some (JObj kvs) \<Rightarrow> (case (str_field ''iss'' kvs, str_field ''sub'' kvs, int_field ''exp'' kvs) of
                          (Some iss, Some sub, Some ex) \<Rightarrow> Some (iss, sub, ex) | _ \<Rightarrow> None)
                    | Some JNull \<Rightarrow> Some ('''', '''', 0)
                    | _ \<Rightarrow> None) of
                None \<Rightarrow> fail (EMsg ''session: parse payload'')
              | Some (iss, sub, ex) \<Rightarrow>
                if iss \<noteq> SessionIssuer then fail (EMsg (''session: unexpected issuer '' @ go_quote iss)) else
                bind now (\<lambda>n.
                if ex < unix n then fail (EMsg ''session: token expired'') else
                if \<not> has_prefix ''lurus:'' sub then fail (EMsg (''session: invalid sub format: '' @ go_quote sub)) else
                case atoi (drop 6 sub) of
                  None \<Rightarrow> fail (EMsg ''session: invalid account id in sub'')
                | Some i \<Rightarrow> if i \<le> 0 then fail (EMsg ''session: invalid account id in sub'') else ret i))
      | _ \<Rightarrow> fail (EMsg ''session: malformed token: expected 3 parts''))"

section \<open>Issued tokens are accepted\<close>

lemma split_on_join: "c \<notin> set a \<Longrightarrow> split_on c (a @ c # s) = a # split_on c s"
  by (induction a) auto

lemma split_on_plain: "c \<notin> set a \<Longrightarrow> split_on c a = [a]"
  by (induction a) auto

lemma claims_text: "json_text (session_claims i n ttl) = CHR 0x7B # quoted ''exp'' @ CHR '':'' # itoa (unix (n + ttl)) @ CHR '','' #
     quoted ''iat'' @ CHR '':'' # itoa (unix n) @ CHR '','' # quoted ''iss'' @ CHR '':'' # quoted SessionIssuer @ CHR '','' #
     quoted ''sub'' @ CHR '':'' # quoted (''lurus:'' @ itoa i) @ [CHR 0x7D]"
  by (simp add: session_claims_def commas_def format_float_int)

lemma itoa_printable: "printable (itoa k)"
proof -
  have "list_all (\<lambda>c. 32 \<le> (of_char c :: nat)) (digits_of m)" for m
    using digits_of_digits [of m] by (auto simp: list_all_iff is_digit_def)
  then show ?thesis by (simp add: printable_def itoa_def)
qed

lemma printable_keys: "printable ''exp''" "printable ''iat''" "printable ''iss''" "printable ''sub''" "printable SessionIssuer"
  "printable (''lurus:'' @ itoa k)"
  using itoa_printable [of k] by (simp_all add: printable_def SessionIssuer_def)

lemma length_claims: "6 \<le> length (json_text (session_claims i n ttl))"
  by (simp add: claims_text quoted_def)

lemma unmarshal_claims: "json_unmarshal (json_text (session_claims i n ttl)) = Some (JObj
    [(''sub'', JStr (''lurus:'' @ itoa i)), (''iss'', JStr SessionIssuer), (''iat'', JNum (of_int (unix n))), (''exp'', JNum (of_int (unix (n + ttl))))])"
proof -
  let ?t = "json_text (session_claims i n ttl)"
  obtain k where k: "2 * length ?t + 2 = Suc (Suc (Suc (Suc (Suc (Suc k)))))"
  proof (rule that)
    show "2 * length ?t + 2 = Suc (Suc (Suc (Suc (Suc (Suc (2 * length ?t - 4))))))" using length_claims [of i n ttl] by simp
  qed
  let ?r = "quoted ''exp'' @ CHR '':'' # itoa (unix (n + ttl)) @ CHR '','' #
     quoted ''iat'' @ CHR '':'' # itoa (unix n) @ CHR '','' # quoted ''iss'' @ CHR '':'' # quoted SessionIssuer @ CHR '','' #
     quoted ''sub'' @ CHR '':'' # quoted (''lurus:'' @ itoa i) @ [CHR 0x7D]"
  let ?m = "[(''sub'', JStr (''lurus:'' @ itoa i)), (''iss'', JStr SessionIssuer), (''iat'', JNum (of_int (unix n))), (''exp'', JNum (of_int (unix (n + ttl))))]"
  have m: "parse_members (Suc (Suc (Suc (Suc (Suc k))))) [] ?r = Some (?m, [])"
    by (simp only: parse_member_int [OF printable_keys(1)] parse_member_int [OF printable_keys(2)]
        parse_member_str [OF printable_keys(3,5)] parse_member_str [OF printable_keys(4,6)])
  moreover obtain cs where "?r = CHR 0x22 # cs" by (simp add: quoted_def)
  ultimately have "parse_value (Suc (Suc (Suc (Suc (Suc (Suc k)))))) (CHR 0x7B # ?r) = Some (JObj ?m, [])"
    by (simp only: parse_value.simps skip_ws_char json_ws_chars not_False_eq_True list.case) simp
  then have "parse_value (2 * length ?t + 2) ?t = Some (JObj ?m, [])" unfolding k unfolding claims_text .
  then show ?thesis by (simp add: json_unmarshal_def skip_ws_def)
qed

definition session_body :: "int \<Rightarrow> time \<Rightarrow> time \<Rightarrow> string" where
  "session_body i n ttl = sessionB64 session_header @ ''.'' @ sessionB64 (json_text (session_claims i n ttl))"

definition session_token :: "int \<Rightarrow> time \<Rightarrow> time \<Rightarrow> string \<Rightarrow> string" where
  "session_token i n ttl secret = session_body i n ttl @ ''.'' @ sessionB64 (sessionHMAC (session_body i n ttl) secret)"

lemma Issue_token: "secret \<noteq> '''' \<Longrightarrow> IssueSessionToken i ttl secret w = (Inr (session_token i (clock w) ttl secret), w)"
  by (simp add: IssueSessionToken_def bind_def now_def ret_def Let_def session_token_def session_body_def)

lemma token_accepted:
  assumes "secret \<noteq> ''''" and "0 < i" and "i < 2 ^ 63" and "- (2 ^ 63) \<le> unix (n + ttl)" and "unix (n + ttl) < 2 ^ 63"
  shows "ValidateSessionToken (session_token i n ttl secret) secret v = (if unix (clock v) \<le> unix (n + ttl) then (Inr i, v)
         else (Inl (EMsg ''session: token expired''), v))"
proof -
  let ?kvs = "[(''sub'', JStr (''lurus:'' @ itoa i)), (''iss'', JStr SessionIssuer), (''iat'', JNum (of_int (unix n))),
     (''exp'', JNum (of_int (unix (n + ttl))))]"
  have parts: "split_on (CHR ''.'') (session_token i n ttl secret) = [sessionB64 session_header,
      sessionB64 (json_text (session_claims i n ttl)), sessionB64 (sessionHMAC (session_body i n ttl) secret)]"
    by (simp add: session_token_def session_body_def split_on_join split_on_plain sessionB64_def b64_encode_no_dot)
  have "str_field ''iss'' ?kvs = Some SessionIssuer" "str_field ''sub'' ?kvs = Some (''lurus:'' @ itoa i)"
    "int_field ''exp'' ?kvs = Some (unix (n + ttl))"
    using assms(4,5) by (simp_all add: str_field_def int_field_def is_dec_def)
  then show ?thesis unfolding ValidateSessionToken_def parts
    using assms(1-3) atoi_itoa [of i]
    by (simp add: Let_def sessionB64_def b64_decode_encode unmarshal_claims bind_def now_def ret_def fail_def has_prefix_def
        session_body_def)
qed

text \<open>C27: A session token names its account until it expires. A token issued for an account with a
  non-empty secret is accepted with that secret at every instant up to the second of its expiry,
  with exactly the account's number, and rejected as expired from then on.\<close>

theorem session_roundtrip:
  assumes "secret \<noteq> ''''" and "0 < i" and "i < 2 ^ 63"
    and "- (2 ^ 63) \<le> unix (clock w + ttl)" and "unix (clock w + ttl) < 2 ^ 63"
  shows "\<exists>tok. IssueSessionToken i ttl secret w = (Inr tok, w)
    \<and> (\<forall>v. ValidateSessionToken tok secret v = (if unix (clock v) \<le> unix (clock w + ttl) then (Inr i, v)
         else (Inl (EMsg ''session: token expired''), v)))"
  using Issue_token [OF assms(1)] token_accepted [OF assms] by blast

theorem session_roundtrip_witness:
  "\<exists>tok. IssueSessionToken 42 (3600 * second_ns) ''s3cret'' (world0\<lparr>clock := 1773273600 * second_ns\<rparr>)
      = (Inr tok, world0\<lparr>clock := 1773273600 * second_ns\<rparr>)
    \<and> ValidateSessionToken tok ''s3cret'' (world0\<lparr>clock := 1773277200 * second_ns\<rparr>) = (Inr 42, world0\<lparr>clock := 1773277200 * second_ns\<rparr>)"
proof -
  have "\<exists>tok. IssueSessionToken 42 (3600 * second_ns) ''s3cret'' (world0\<lparr>clock := 1773273600 * second_ns\<rparr>)
      = (Inr tok, world0\<lparr>clock := 1773273600 * second_ns\<rparr>)
    \<and> (\<forall>v. ValidateSessionToken tok ''s3cret'' v = (if unix (clock v) \<le> unix (clock (world0\<lparr>clock := 1773273600 * second_ns\<rparr>) + 3600 * second_ns)
         then (Inr 42, v) else (Inl (EMsg ''session: token expired''), v)))"
    by (rule session_roundtrip) (simp_all add: unix_def second_ns_def)
  then show ?thesis by (auto simp: unix_def second_ns_def)
qed

text \<open>C28: Only signed claims are trusted. A token is accepted only if it has three parts, the third
  decodes to the keyed hash of the first two under the secret, and the second decodes to claims
  that name the program as issuer, have not expired, and carry the number returned, which is
  positive.\<close>

theorem session_claims_signed:
  assumes "ValidateSessionToken tok secret w = (Inr i, w')"
  shows "\<exists>p0 p1 p2 kvs. split_on (CHR ''.'') tok = [p0, p1, p2] \<and> secret \<noteq> ''''
    \<and> b64_decode p2 = Some (hmac_sha256 secret (p0 @ ''.'' @ p1))
    \<and> (\<exists>t. b64_decode p1 = Some t \<and> json_unmarshal t = Some (JObj kvs))
    \<and> str_field ''iss'' kvs = Some SessionIssuer
    \<and> (\<exists>t. int_field ''exp'' kvs = Some t \<and> unix (clock w) \<le> t)
    \<and> (\<exists>s. str_field ''sub'' kvs = Some s \<and> has_prefix ''lurus:'' s \<and> atoi (drop 6 s) = Some i) \<and> 0 < i \<and> w' = w"
proof -
  have ne: "secret \<noteq> ''''" using assms by (auto simp: ValidateSessionToken_def fail_def)
  obtain p0 p1 p2 where p: "split_on (CHR ''.'') tok = [p0, p1, p2]"
    using assms ne by (auto simp: ValidateSessionToken_def fail_def split: list.splits)
  obtain t where g: "b64_decode p2 = Some (sessionHMAC (p0 @ ''.'' @ p1) secret)" "b64_decode p1 = Some t"
    using assms ne unfolding ValidateSessionToken_def p by (auto simp: fail_def Let_def split: option.splits if_splits)
  have "json_unmarshal t \<noteq> Some JNull"
    using assms ne g unfolding ValidateSessionToken_def p by (auto simp: fail_def Let_def SessionIssuer_def)
  then obtain kvs iss sub ex where k: "json_unmarshal t = Some (JObj kvs)" "str_field ''iss'' kvs = Some iss"
    "str_field ''sub'' kvs = Some sub" "int_field ''exp'' kvs = Some ex"
    using assms ne g unfolding ValidateSessionToken_def p
    by (cases "json_unmarshal t") (auto simp: fail_def Let_def split: json.splits option.splits)
  then show ?thesis using assms ne g p unfolding ValidateSessionToken_def p
    by (auto simp: fail_def ret_def bind_def now_def Let_def sessionHMAC_def split: option.splits if_splits)
qed

theorem session_claims_signed_witness:
  "ValidateSessionToken (session_token 42 0 (3600 * second_ns) ''s3cret'') ''s3cret'' world0 = (Inr 42, world0)
   \<and> (\<exists>p0 p1 p2. split_on (CHR ''.'') (session_token 42 0 (3600 * second_ns) ''s3cret'') = [p0, p1, p2]
      \<and> b64_decode p2 = Some (hmac_sha256 ''s3cret'' (p0 @ ''.'' @ p1)))"
proof -
  have v: "ValidateSessionToken (session_token 42 0 (3600 * second_ns) ''s3cret'') ''s3cret'' world0 = (Inr 42, world0)"
    by (subst token_accepted) (simp_all add: unix_def second_ns_def world0_def)
  then show ?thesis using session_claims_signed [OF v] by blast
qed

end
