(* ===== verification/WalletRepo.thy ===== *)
theory WalletRepo
  imports Tables
begin

text \<open>
  \<^verbatim>\<open>internal/adapter/repo/wallet.go\<close>: wallets, the append-only ledger, payment orders
  and redemption codes. Operations come first, in the order of the file; then the ledger
  invariant (every balance is the sum of its account's ledger rows, and every row records the
  running balance) and the facts about single operations that the services use.
\<close>

section \<open>Operations\<close>

definition WalletRepo_GetOrCreate :: "int \<Rightarrow> Wallet op" where
  "WalletRepo_GetOrCreate accountID =
     q_first_or_create wallets_T (\<lambda>x. wal_AccountID x = accountID) (Wallet0\<lparr>wal_AccountID := accountID\<rparr>)"

definition WalletRepo_GetByAccountID :: "int \<Rightarrow> Wallet option op" where
  "WalletRepo_GetByAccountID accountID = opt_row (q_first wallets_T (\<lambda>x. wal_AccountID x = accountID))"

text \<open>The SET clauses of a credit and of a debit.\<close>

definition credit_set :: "string \<Rightarrow> rat \<Rightarrow> Wallet \<Rightarrow> Wallet" where
  "credit_set txType amount x = (let y = x\<lparr>wal_Balance := wal_Balance x + amount\<rparr> in
     if txType = TxTypeTopup then y\<lparr>wal_LifetimeTopup := wal_LifetimeTopup x + amount\<rparr> else y)"

definition debit_set :: "rat \<Rightarrow> Wallet \<Rightarrow> Wallet" where
  "debit_set amount x = x\<lparr>wal_Balance := wal_Balance x - amount,
     wal_LifetimeSpend := wal_LifetimeSpend x + amount\<rparr>"

definition WalletRepo_Credit ::
  "int \<Rightarrow> rat \<Rightarrow> string \<Rightarrow> string \<Rightarrow> string \<Rightarrow> string \<Rightarrow> string \<Rightarrow> WalletTransaction op" where
  "WalletRepo_Credit accountID amount txType desc refType refID productID = transaction (
     bind (wrap ''lock wallet'' (q_first wallets_T (\<lambda>x. wal_AccountID x = accountID))) (\<lambda>wl.
     bind (wrap ''update wallet'' (q_update wallets_T (\<lambda>x. wal_ID x = wal_ID wl)
        (credit_set txType amount))) (\<lambda>_.
     bind (wrap ''re-read wallet'' (q_first wallets_T (\<lambda>x. wal_ID x = wal_ID wl))) (\<lambda>wl2.
     q_insert transactions_T (WalletTransaction0\<lparr>tx_WalletID := wal_ID wl2, tx_AccountID := accountID,
        tx_Type := txType, tx_Amount := amount, tx_BalanceAfter := wal_Balance wl2,
        tx_ProductID := productID, tx_ReferenceType := refType, tx_ReferenceID := refID,
        tx_Description := desc\<rparr>)))))"

definition WalletRepo_Debit ::
  "int \<Rightarrow> rat \<Rightarrow> string \<Rightarrow> string \<Rightarrow> string \<Rightarrow> string \<Rightarrow> string \<Rightarrow> WalletTransaction op" where
  "WalletRepo_Debit accountID amount txType desc refType refID productID = transaction (
     bind (wrap ''lock wallet'' (q_first wallets_T (\<lambda>x. wal_AccountID x = accountID))) (\<lambda>wl.
     if wal_Balance wl < amount then fail (EInsufficient (wal_Balance wl) amount) else
     bind (wrap ''update wallet'' (q_update wallets_T
        (\<lambda>x. wal_ID x = wal_ID wl \<and> amount \<le> wal_Balance x)
        (debit_set amount))) (\<lambda>rowsAffected.
     if rowsAffected = 0 then fail (EInsufficient (wal_Balance wl) amount) else
     bind (wrap ''re-read wallet'' (q_first wallets_T (\<lambda>x. wal_ID x = wal_ID wl))) (\<lambda>wl2.
     q_insert transactions_T (WalletTransaction0\<lparr>tx_WalletID := wal_ID wl2, tx_AccountID := accountID,
        tx_Type := txType, tx_Amount := - amount, tx_BalanceAfter := wal_Balance wl2,
        tx_ProductID := productID, tx_ReferenceType := refType, tx_ReferenceID := refID,
        tx_Description := desc\<rparr>)))))"

definition WalletRepo_ListTransactions :: "int \<Rightarrow> int \<Rightarrow> int \<Rightarrow> (WalletTransaction list \<times> int) op" where
  "WalletRepo_ListTransactions accountID page pageSize =
     q_page transactions_T (\<lambda>t. tx_AccountID t = accountID) tx_ID page pageSize"

definition WalletRepo_CreatePaymentOrder :: "PaymentOrder \<Rightarrow> PaymentOrder op" where
  "WalletRepo_CreatePaymentOrder o1 = q_insert orders_T o1"

definition WalletRepo_UpdatePaymentOrder :: "PaymentOrder \<Rightarrow> unit op" where
  "WalletRepo_UpdatePaymentOrder o1 = q_save orders_T ord_ID o1"

definition WalletRepo_GetPaymentOrderByNo :: "string \<Rightarrow> PaymentOrder option op" where
  "WalletRepo_GetPaymentOrderByNo orderNo = opt_row (q_first orders_T (\<lambda>x. ord_OrderNo x = orderNo))"

definition WalletRepo_GetPaymentOrderByExternalID :: "string \<Rightarrow> PaymentOrder option op" where
  "WalletRepo_GetPaymentOrderByExternalID externalID =
     opt_row (q_first orders_T (\<lambda>x. ord_ExternalID x = externalID))"

definition WalletRepo_ListOrders :: "int \<Rightarrow> int \<Rightarrow> int \<Rightarrow> (PaymentOrder list \<times> int) op" where
  "WalletRepo_ListOrders accountID page pageSize =
     q_page orders_T (\<lambda>o1. ord_AccountID o1 = accountID) ord_CreatedAt page pageSize"

definition WalletRepo_GetRedemptionCode :: "string \<Rightarrow> RedemptionCode option op" where
  "WalletRepo_GetRedemptionCode code = opt_row (q_first codes_T (\<lambda>x. rc_Code x = code))"

definition WalletRepo_UpdateRedemptionCode :: "RedemptionCode \<Rightarrow> unit op" where
  "WalletRepo_UpdateRedemptionCode rc = q_save codes_T rc_ID rc"

definition WalletRepo_CreateRedemptionCode :: "RedemptionCode \<Rightarrow> RedemptionCode op" where
  "WalletRepo_CreateRedemptionCode rc = q_insert codes_T rc"

text \<open>\<^verbatim>\<open>CreateInBatches(codes, 100)\<close> runs all its INSERTs in one transaction.\<close>

definition WalletRepo_BulkCreate :: "RedemptionCode list \<Rightarrow> unit op" where
  "WalletRepo_BulkCreate cs =
     (if cs = [] then ret () else
      transaction (for_each (\<lambda>rc. bind (q_insert codes_T rc) (\<lambda>_. ret ())) cs))"

text \<open>The UPDATE and the SELECT are two statements without a transaction around them.\<close>

definition WalletRepo_MarkPaymentOrderPaid :: "string \<Rightarrow> (PaymentOrder option \<times> bool) op" where
  "WalletRepo_MarkPaymentOrderPaid orderNo =
     bind now (\<lambda>n.
     bind (q_update orders_T (\<lambda>x. ord_OrderNo x = orderNo \<and> ord_Status x = OrderStatusPending)
        (\<lambda>x. x\<lparr>ord_Status := OrderStatusPaid, ord_PaidAt := Some n\<rparr>)) (\<lambda>rowsAffected.
     bind (opt_row (q_first orders_T (\<lambda>x. ord_OrderNo x = orderNo))) (\<lambda>o1.
     case o1 of None \<Rightarrow> ret (None, False)
     | Some ord \<Rightarrow> ret (Some ord, 0 < rowsAffected))))"

text \<open>\<^verbatim>\<open>t != nil && t.Before(now)\<close>\<close>

definition expired_at :: "time \<Rightarrow> time option \<Rightarrow> bool" where
  "expired_at n t = (case t of None \<Rightarrow> False | Some u \<Rightarrow> u < n)"

definition WalletRepo_RedeemCode :: "int \<Rightarrow> string \<Rightarrow> WalletTransaction op" where
  "WalletRepo_RedeemCode accountID code = transaction (
     attempt (q_first codes_T (\<lambda>x. rc_Code x = code)) (\<lambda>r. case r of
       Inl e \<Rightarrow> if e = ENoRow then fail (EMsg ''invalid code'') else fail (EWrap ''lock code'' e)
     | Inr rc \<Rightarrow>
     bind now (\<lambda>n.
     if expired_at n (rc_ExpiresAt rc) then fail (EMsg ''code has expired'') else
     if rc_MaxUses rc \<le> rc_UsedCount rc then fail (EMsg ''code has reached its usage limit'') else
     if rc_RewardType rc \<noteq> ''credits'' then fail (EMsg (''unsupported reward type: '' @ rc_RewardType rc)) else
     bind (wrap ''lock wallet'' (q_first wallets_T (\<lambda>x. wal_AccountID x = accountID))) (\<lambda>wl.
     bind (wrap ''credit wallet'' (q_update wallets_T (\<lambda>x. wal_ID x = wal_ID wl)
        (credit_set TxTypeRedemption (rc_RewardValue rc)))) (\<lambda>_.
     bind (wrap ''re-read wallet'' (q_first wallets_T (\<lambda>x. wal_ID x = wal_ID wl))) (\<lambda>wl2.
     bind (wrap ''create tx'' (q_insert transactions_T (WalletTransaction0\<lparr>tx_WalletID := wal_ID wl2,
        tx_AccountID := accountID, tx_Type := TxTypeRedemption, tx_Amount := rc_RewardValue rc,
        tx_BalanceAfter := wal_Balance wl2, tx_ReferenceType := ''redemption_code'',
        tx_ReferenceID := rc_Code rc, tx_Description := ''Redeem code '' @ rc_Code rc,
        tx_ProductID := rc_ProductID rc\<rparr>))) (\<lambda>tx.
     bind (q_save codes_T rc_ID (rc\<lparr>rc_UsedCount := rc_UsedCount rc + 1\<rparr>)) (\<lambda>_.
     ret tx))))))))"

definition WalletRepo_ExpireStalePendingOrders :: "time \<Rightarrow> int op" where
  "WalletRepo_ExpireStalePendingOrders maxAge =
     bind now (\<lambda>n.
     q_update orders_T (\<lambda>x. ord_Status x = OrderStatusPending \<and> ord_CreatedAt x < n - maxAge)
       (\<lambda>x. x\<lparr>ord_Status := ''expired''\<rparr>))"

lemmas wallet_repo_defs [repo_defs] =
  WalletRepo_GetOrCreate_def WalletRepo_GetByAccountID_def WalletRepo_Credit_def WalletRepo_Debit_def
  WalletRepo_ListTransactions_def WalletRepo_CreatePaymentOrder_def WalletRepo_UpdatePaymentOrder_def
  WalletRepo_GetPaymentOrderByNo_def WalletRepo_GetPaymentOrderByExternalID_def WalletRepo_ListOrders_def
  WalletRepo_GetRedemptionCode_def WalletRepo_UpdateRedemptionCode_def WalletRepo_CreateRedemptionCode_def
  WalletRepo_BulkCreate_def WalletRepo_MarkPaymentOrderPaid_def WalletRepo_RedeemCode_def
  WalletRepo_ExpireStalePendingOrders_def

section \<open>The ledger\<close>

text \<open>\<open>chain b ts e\<close>: the rows \<open>ts\<close> lead from balance \<open>b\<close> to balance \<open>e\<close>, each recording where it arrives.\<close>

fun chain :: "rat \<Rightarrow> WalletTransaction list \<Rightarrow> rat \<Rightarrow> bool" where
  "chain b [] e \<longleftrightarrow> b = e"
| "chain b (t # ts) e \<longleftrightarrow> tx_BalanceAfter t = b + tx_Amount t \<and> chain (b + tx_Amount t) ts e"

definition ledger_of :: "int \<Rightarrow> world \<Rightarrow> WalletTransaction list" where
  "ledger_of a w = filter (\<lambda>t. tx_AccountID t = a) (transactions w)"

definition ledger_ok :: "world \<Rightarrow> bool" where
  "ledger_ok w \<longleftrightarrow> uniq_by wal_ID (wallets w) \<and> uniq_by wal_AccountID (wallets w)
     \<and> (\<forall>x\<in>set (wallets w). is_dec 4 (wal_Balance x) \<and> chain 0 (ledger_of (wal_AccountID x) w) (wal_Balance x))
     \<and> (\<forall>t\<in>set (transactions w). \<exists>x\<in>set (wallets w). wal_AccountID x = tx_AccountID t)"

definition balance :: "world \<Rightarrow> int \<Rightarrow> rat option" where
  "balance w a = map_option wal_Balance (find (\<lambda>x. wal_AccountID x = a) (wallets w))"

lemma chain_snoc: "chain b (ts @ [t]) e \<longleftrightarrow> chain b ts (e - tx_Amount t) \<and> tx_BalanceAfter t = e"
  by (induction ts arbitrary: b) auto

lemma chain_sum: "chain b ts e \<Longrightarrow> e = b + sum_list (map tx_Amount ts)"
  by (induction ts arbitrary: b) (fastforce simp: add.assoc)+

text \<open>What every successful movement does: one wallet row, one ledger row.\<close>

definition moved :: "int \<Rightarrow> rat \<Rightarrow> WalletTransaction \<Rightarrow> world \<Rightarrow> world \<Rightarrow> bool" where
  "moved a amount tx w w' \<longleftrightarrow> (\<exists>x f. find (\<lambda>x. wal_AccountID x = a) (wallets w) = Some x
     \<and> (\<forall>y. wal_ID (f y) = wal_ID y \<and> wal_AccountID (f y) = wal_AccountID y
            \<and> wal_Balance (f y) = dec 4 (wal_Balance y + amount))
     \<and> wallets w' = upd_rows (\<lambda>y. wal_ID y = wal_ID x) f (wallets w)
     \<and> transactions w' = transactions w @ [t_cols transactions_T tx]
     \<and> tx_AccountID tx = a \<and> tx_Amount tx = amount \<and> tx_BalanceAfter tx = wal_Balance (f x))"

section \<open>Single movements\<close>


lemma wallet_cols:
  "wal_ID (t_cols wallets_T x) = wal_ID x" "wal_AccountID (t_cols wallets_T x) = wal_AccountID x"
  "wal_Balance (t_cols wallets_T x) = dec 4 (wal_Balance x)" "t_touch wallets_T n x = x"
  by (simp_all add: wallets_T_def)

lemma credit_set_fields:
  "wal_ID (credit_set ty a x) = wal_ID x" "wal_AccountID (credit_set ty a x) = wal_AccountID x"
  "wal_Balance (credit_set ty a x) = wal_Balance x + a"
  by (simp_all add: credit_set_def Let_def)

lemma debit_set_fields:
  "wal_ID (debit_set a x) = wal_ID x" "wal_AccountID (debit_set a x) = wal_AccountID x"
  "wal_Balance (debit_set a x) = wal_Balance x - a"
  by (simp_all add: debit_set_def)

lemma tx_fields:
  "tx_AccountID (t_cols transactions_T t) = tx_AccountID t"
  "tx_Amount (t_cols transactions_T t) = dec 4 (tx_Amount t)"
  "tx_BalanceAfter (t_cols transactions_T t) = dec 4 (tx_BalanceAfter t)"
  "tx_AccountID (t_new transactions_T i n t) = tx_AccountID t"
  "tx_Amount (t_new transactions_T i n t) = tx_Amount t"
  "tx_BalanceAfter (t_new transactions_T i n t) = tx_BalanceAfter t"
  "tx_Type (t_new transactions_T i n t) = tx_Type t"
  "tx_ReferenceType (t_new transactions_T i n t) = tx_ReferenceType t"
  "tx_ReferenceID (t_new transactions_T i n t) = tx_ReferenceID t"
  by (simp_all add: transactions_T_def)

lemmas wallet_fields = wallet_cols credit_set_fields debit_set_fields tx_fields

lemma movedI:
  assumes "find (\<lambda>x. wal_AccountID x = a) (wallets w) = Some x"
    and "\<And>y. wal_ID (f y) = wal_ID y" "\<And>y. wal_AccountID (f y) = wal_AccountID y"
    and "\<And>y. wal_Balance (f y) = dec 4 (wal_Balance y + amount)"
    and "wallets w' = upd_rows (\<lambda>y. wal_ID y = wal_ID x) f (wallets w)"
    and "transactions w' = transactions w @ [t_cols transactions_T tx]"
    and "tx_AccountID tx = a" "tx_Amount tx = amount" "tx_BalanceAfter tx = wal_Balance (f x)"
  shows "moved a amount tx w w'"
  unfolding moved_def using assms by (intro exI [of _ x] exI [of _ f]) simp

lemma find_own_ID:
  "uniq_by wal_ID (wallets w) \<Longrightarrow> find (\<lambda>x. wal_AccountID x = a) (wallets w) = Some x \<Longrightarrow>
   find (\<lambda>y. wal_ID y = wal_ID x) (wallets w) = Some x"
  by (auto dest: find_SomeD intro: uniq_by_find)

lemma Credit_moved:
  assumes "WalletRepo_Credit a amount ty d rt ri p w = (Inr tx, w')" and "uniq_by wal_ID (wallets w)"
  shows "moved a amount tx w w'"
proof -
  from assms(1) obtain x where x: "find (\<lambda>x. wal_AccountID x = a) (wallets w) = Some x" 
    by (auto simp: WalletRepo_Credit_def ok_simps)
  note y = find_own_ID [OF assms(2) x]
  show ?thesis using assms(1) x y
    by (intro movedI [OF x, where f = "\<lambda>r. t_cols wallets_T (credit_set ty amount r)"])
      (auto simp: WalletRepo_Credit_def ok_simps find_upd_rows_on wallet_fields)
qed

lemma Debit_moved:
  assumes "WalletRepo_Debit a amount ty d rt ri p w = (Inr tx, w')" and "uniq_by wal_ID (wallets w)"
  shows "moved a (- amount) tx w w'"
    and "\<exists>b. balance w a = Some b \<and> amount \<le> b"
proof -
  from assms(1) obtain x where x: "find (\<lambda>x. wal_AccountID x = a) (wallets w) = Some x" 
    and le: "amount \<le> wal_Balance x"
    by (auto simp: WalletRepo_Debit_def ok_simps split: if_splits)
  note y = find_own_ID [OF assms(2) x]
  have "(wal_ID z = wal_ID x \<and> amount \<le> wal_Balance z) = (wal_ID z = wal_ID x)" if "z \<in> set (wallets w)" for z
    using uniq_by_eq [OF assms(2) that] find_SomeD [OF x] le by auto
  then have u: "upd_rows (\<lambda>y. wal_ID y = wal_ID x \<and> amount \<le> wal_Balance y) f (wallets w)
      = upd_rows (\<lambda>y. wal_ID y = wal_ID x) f (wallets w)" for f
    by (simp add: upd_rows_def)
  show "moved a (- amount) tx w w'" using assms(1) x y
    by (intro movedI [OF x, where f = "\<lambda>r. t_cols wallets_T (debit_set amount r)"])
      (auto simp: WalletRepo_Debit_def ok_simps find_upd_rows_on wallet_fields u split: if_splits)
  show "\<exists>b. balance w a = Some b \<and> amount \<le> b" using x le by (simp add: balance_def)
qed

lemma ledger_ok_moved:
  assumes m: "moved a amount tx w w'" and ok: "ledger_ok w" and d: "is_dec 4 amount"
  shows "ledger_ok w'"
proof -
  obtain x f where x: "find (\<lambda>x. wal_AccountID x = a) (wallets w) = Some x"
    and f: "\<And>y. wal_ID (f y) = wal_ID y" "\<And>y. wal_AccountID (f y) = wal_AccountID y"
      "\<And>y. wal_Balance (f y) = dec 4 (wal_Balance y + amount)"
    and w': "wallets w' = upd_rows (\<lambda>y. wal_ID y = wal_ID x) f (wallets w)"
      "transactions w' = transactions w @ [t_cols transactions_T tx]"
    and tx: "tx_AccountID tx = a" "tx_Amount tx = amount" "tx_BalanceAfter tx = wal_Balance (f x)"
    using m unfolding moved_def by blast
  have xa: "x \<in> set (wallets w)" "wal_AccountID x = a" using find_SomeD [OF x] by auto
  have dx: "is_dec 4 (wal_Balance x)" using ok xa by (simp add: ledger_ok_def)
  have chains: "is_dec 4 (wal_Balance y) \<and> chain 0 (ledger_of (wal_AccountID y) w') (wal_Balance y)"
    if y: "y \<in> set (wallets w')" for y
  proof -
    obtain z where z: "z \<in> set (wallets w)" "y = (if wal_ID z = wal_ID x then f z else z)"
      using y by (auto simp: w' set_upd_rows)
    show ?thesis
    proof (cases "wal_ID z = wal_ID x")
      case True
      then have "z = x" using ok z xa by (auto simp: ledger_ok_def dest: uniq_by_eq)
      then show ?thesis using z True ok xa f tx dx d
        by (auto simp: ledger_ok_def ledger_of_def w' wallet_fields chain_snoc is_dec_add)
    next
      case False
      then have "wal_AccountID z \<noteq> a" using ok z xa by (auto simp: ledger_ok_def dest: uniq_by_eq)
      then show ?thesis using z False ok tx
        by (auto simp: ledger_ok_def ledger_of_def w' wallet_fields)
    qed
  qed
  have own: "\<exists>y\<in>set (wallets w'). wal_AccountID y = tx_AccountID t" if "t \<in> set (transactions w')" for t
  proof -
    have "\<exists>y\<in>set (wallets w). wal_AccountID y = tx_AccountID t"
      using that ok xa tx by (auto simp: ledger_ok_def w' wallet_fields)
    then obtain y where "y \<in> set (wallets w)" "wal_AccountID y = tx_AccountID t" by blast
    then show ?thesis using f
      by (intro bexI [of _ "if wal_ID y = wal_ID x then f y else y"]) (auto simp: w' set_upd_rows)
  qed
  show ?thesis using ok chains own f
    by (simp add: ledger_ok_def w' uniq_by_upd)
qed

lemma balance_moved:
  assumes m: "moved a amount tx w w'" and ok: "ledger_ok w"
  shows "\<exists>b. balance w a = Some b \<and> balance w' c = (if c = a then Some (dec 4 (b + amount)) else balance w c)"
proof -
  obtain x f where x: "find (\<lambda>x. wal_AccountID x = a) (wallets w) = Some x"
    and f: "\<And>y. wal_ID (f y) = wal_ID y" "\<And>y. wal_AccountID (f y) = wal_AccountID y"
      "\<And>y. wal_Balance (f y) = dec 4 (wal_Balance y + amount)"
    and w': "wallets w' = upd_rows (\<lambda>y. wal_ID y = wal_ID x) f (wallets w)"
    using m unfolding moved_def by blast
  have "wal_ID z = wal_ID x \<longleftrightarrow> c = a" if "find (\<lambda>x. wal_AccountID x = c) (wallets w) = Some z" for z
    using that x ok by (auto simp: ledger_ok_def dest!: find_SomeD dest: uniq_by_eq)
  then show ?thesis using x f
    by (cases "find (\<lambda>x. wal_AccountID x = c) (wallets w)")
      (auto simp: balance_def w' find_upd_rows_on)
qed

lemma balance_is_dec: "ledger_ok w \<Longrightarrow> balance w a = Some b \<Longrightarrow> is_dec 4 b"
  by (auto simp: balance_def ledger_ok_def dest: find_SomeD)

lemma balance_is_ledger_sum:
  "ledger_ok w \<Longrightarrow> balance w a = Some b \<Longrightarrow> b = sum_list (map tx_Amount (ledger_of a w))"
  by (auto simp: balance_def ledger_ok_def dest!: find_SomeD chain_sum)

lemma stable_ledger_ok [simp, intro]: "stable ledger_ok"
  by (simp add: stable_def ledger_ok_def ledger_of_def)

section \<open>Operations keep the ledger\<close>

lemma ledger_ok_uniq: "ledger_ok w \<Longrightarrow> uniq_by wal_ID (wallets w)"
  by (simp add: ledger_ok_def)

lemma keeps_ledgerI:
  assumes "m = transaction f" and "\<And>w x w'. m w = (Inr x, w') \<Longrightarrow> uniq_by wal_ID (wallets w) \<Longrightarrow> \<exists>a amount tx. moved a amount tx w w' \<and> is_dec 4 amount"
  shows "keeps ledger_ok m"
  using assms(2) ledger_ok_moved ledger_ok_uniq
  by (intro keeps_atomic [OF _ assms(1)]) blast+

lemma Credit_ledger [keeps_intros]: "is_dec 4 amount \<Longrightarrow> keeps ledger_ok (WalletRepo_Credit a amount ty d rt ri p)"
  by (rule keeps_ledgerI [OF WalletRepo_Credit_def]) (blast dest: Credit_moved)

lemma Debit_ledger [keeps_intros]: "is_dec 4 amount \<Longrightarrow> keeps ledger_ok (WalletRepo_Debit a amount ty d rt ri p)"
  by (rule keeps_ledgerI [OF WalletRepo_Debit_def]) (blast dest: Debit_moved(1) is_dec_uminus)

lemma Redeem_moved:
  assumes "WalletRepo_RedeemCode a code w = (Inr tx, w')" and "uniq_by wal_ID (wallets w)"
  obtains rc where "find (\<lambda>x. rc_Code x = code) (codes w) = Some rc"
    "rc_RewardType rc = ''credits''" "rc_UsedCount rc < rc_MaxUses rc"
    "\<And>t. rc_ExpiresAt rc = Some t \<Longrightarrow> clock w \<le> t"
    "moved a (rc_RewardValue rc) tx w w'"
    "codes w' = upd_rows (\<lambda>x. rc_ID x = rc_ID rc) (\<lambda>_. t_cols codes_T (rc\<lparr>rc_UsedCount := rc_UsedCount rc + 1\<rparr>)) (codes w)"
proof -
  from assms(1) obtain x rc where x: "find (\<lambda>x. wal_AccountID x = a) (wallets w) = Some x"
    and rc: "find (\<lambda>x. rc_Code x = code) (codes w) = Some rc" 
    and c: "rc_RewardType rc = ''credits''" "rc_UsedCount rc < rc_MaxUses rc"
      "\<not> expired_at (clock w) (rc_ExpiresAt rc)"
    by (auto simp: WalletRepo_RedeemCode_def ok_simps)
  note y = find_own_ID [OF assms(2) x]
  have cols: "t_touch codes_T n r = r" for n r by (simp add: codes_T_def)
  have ex: "\<exists>z\<in>set (codes w). rc_ID z = rc_ID rc" using find_SomeD [OF rc] by blast
  have "moved a (rc_RewardValue rc) tx w w' \<and> codes w' = upd_rows (\<lambda>x. rc_ID x = rc_ID rc) (\<lambda>_. t_cols codes_T (rc\<lparr>rc_UsedCount := rc_UsedCount rc + 1\<rparr>)) (codes w)" 
    using assms(1)
    apply (auto simp: WalletRepo_RedeemCode_def ok_simps find_upd_rows_on wallet_fields x y rc c ex cols split: if_splits
      intro!: movedI [OF x, where f = "\<lambda>r. t_cols wallets_T (credit_set TxTypeRedemption (rc_RewardValue rc) r)"])
    done
  then have m: "moved a (rc_RewardValue rc) tx w w'"
    and cs: "codes w' = upd_rows (\<lambda>x. rc_ID x = rc_ID rc) (\<lambda>_. t_cols codes_T (rc\<lparr>rc_UsedCount := rc_UsedCount rc + 1\<rparr>)) (codes w)"
    by simp_all
  show ?thesis
  proof (rule that [OF rc c(1,2) _ m cs])
    show "clock w \<le> t" if "rc_ExpiresAt rc = Some t" for t using c(3) that by (simp add: expired_at_def)
  qed
qed


text \<open>The ledger invariant reads the wallets and the ledger only.\<close>

lemma ledger_ok_cong: "wallets w' = wallets w \<Longrightarrow> transactions w' = transactions w \<Longrightarrow> ledger_ok w' = ledger_ok w"
  by (simp add: ledger_ok_def ledger_of_def)

lemma keeps_ledger_leaves:
  "leaves wallets m \<Longrightarrow> leaves transactions m \<Longrightarrow> keeps ledger_ok m"
  unfolding keeps_def leaves_def using ledger_ok_cong by blast

lemma apart_orders [leaves_intros]: "apart wallets orders_T" "apart transactions orders_T" "apart codes orders_T"
  by (simp_all add: apart_def)

lemma apart_codes [leaves_intros]: "apart wallets codes_T" "apart transactions codes_T" "apart orders codes_T"
  by (simp_all add: apart_def)

lemma GetOrCreate_ledger [keeps_intros]: "keeps ledger_ok (WalletRepo_GetOrCreate a)"
proof -
  have "ledger_ok (wallets_update (\<lambda>t. t @ [t_cols wallets_T r]) (w\<lparr>seqs := g\<rparr>))"
    if "ledger_ok w" and r: "r = t_new wallets_T i n (Wallet0\<lparr>wal_AccountID := a\<rparr>)"
      and c: "t_conflict wallets_T r (wallets w) = None" for w r i n g
  proof -
    have u: "find (\<lambda>x. wal_ID x = wal_ID r) (wallets w) = None" "find (\<lambda>x. wal_AccountID x = a) (wallets w) = None"
      using c by (auto simp: wallets_T_def r find_None_iff)
    have e: "ledger_of a w = []"
      using that(1) u(2) by (auto simp: ledger_ok_def ledger_of_def filter_empty_conv find_None_iff)
    have f: "wal_ID (t_cols wallets_T r) = wal_ID r" "wal_AccountID (t_cols wallets_T r) = a"
      "wal_Balance (t_cols wallets_T r) = 0"
      by (simp_all add: wallets_T_def r Wallet0_def)
    show ?thesis using that(1) u e f
      by (auto simp: ledger_ok_def ledger_of_def uniq_by_snoc)
  qed
  then show ?thesis
    unfolding WalletRepo_GetOrCreate_def q_first_or_create_def
    by (intro keeps_intros keeps_q_insert) auto
qed

lemma frames_orders:
  assumes "stable f" "apart f orders_T"
  shows "leaves f (WalletRepo_CreatePaymentOrder o1)" "leaves f (WalletRepo_UpdatePaymentOrder o1)"
    "leaves f (WalletRepo_MarkPaymentOrderPaid no)" "leaves f (WalletRepo_ExpireStalePendingOrders d)"
  using assms by (auto intro!: leaves_intros simp: repo_defs)

lemma frames_reads:
  assumes "stable f"
  shows "leaves f (WalletRepo_GetByAccountID a)" "leaves f (WalletRepo_ListTransactions a p s)"
    "leaves f (WalletRepo_GetPaymentOrderByNo no)" "leaves f (WalletRepo_GetPaymentOrderByExternalID x)"
    "leaves f (WalletRepo_ListOrders a p s)" "leaves f (WalletRepo_GetRedemptionCode c)"
  using assms by (auto intro!: leaves_intros simp: repo_defs)

lemma frames_codes:
  assumes "stable f" "apart f codes_T"
  shows "leaves f (WalletRepo_UpdateRedemptionCode rc)" "leaves f (WalletRepo_CreateRedemptionCode rc)"
    "leaves f (WalletRepo_BulkCreate cs)"
  using assms by (auto intro!: leaves_intros simp: repo_defs)

section \<open>Paying an order is a one-shot transition\<close>

definition mark_fires :: "string \<Rightarrow> world \<Rightarrow> bool \<times> world" where
  "mark_fires no w = (case WalletRepo_MarkPaymentOrderPaid no w of
      (Inl e, w1) \<Rightarrow> (False, w1) | (Inr (o1, b), w1) \<Rightarrow> (b, w1))"

definition order_armed :: "string \<Rightarrow> world \<Rightarrow> bool" where
  "order_armed no w \<longleftrightarrow> (\<exists>x\<in>set (orders w). ord_OrderNo x = no \<and> ord_Status x = OrderStatusPending)
     \<or> (\<forall>x\<in>set (orders w). ord_OrderNo x \<noteq> no)"

text \<open>
  The other writers of the orders table: checkout inserts orders, the cleanup expires old
  ones, wallets and the clock move independently.
\<close>

datatype order_env = NewOrder PaymentOrder | ExpireOrders time | SetClock time | SetFaults "bool list"
  | CreditWallet int rat string

fun order_env_step :: "order_env \<Rightarrow> world \<Rightarrow> world" where
  "order_env_step (NewOrder o1) w = snd (WalletRepo_CreatePaymentOrder o1 w)"
| "order_env_step (ExpireOrders d) w = snd (WalletRepo_ExpireStalePendingOrders d w)"
| "order_env_step (SetClock t) w = w\<lparr>clock := t\<rparr>"
| "order_env_step (SetFaults bs) w = w\<lparr>faults := bs\<rparr>"
| "order_env_step (CreditWallet a x ty) w = snd (WalletRepo_Credit a x ty '''' '''' '''' '''' w)"

lemma order_cols:
  "ord_OrderNo (t_cols orders_T x) = ord_OrderNo x" "ord_Status (t_cols orders_T x) = ord_Status x"
  "ord_OrderNo (t_touch orders_T n x) = ord_OrderNo x" "ord_Status (t_touch orders_T n x) = ord_Status x"
  "ord_OrderNo (t_new orders_T i n x) = ord_OrderNo x"
  "ord_ID (t_cols orders_T x) = ord_ID x" "ord_ID (t_touch orders_T n x) = ord_ID x"
  "ord_AccountID (t_cols orders_T x) = ord_AccountID x" "ord_AccountID (t_touch orders_T n x) = ord_AccountID x"
  "ord_AmountCNY (t_cols orders_T x) = dec 2 (ord_AmountCNY x)" "ord_AmountCNY (t_touch orders_T n x) = ord_AmountCNY x"
  "ord_OrderType (t_cols orders_T x) = ord_OrderType x" "ord_OrderType (t_touch orders_T n x) = ord_OrderType x"
  by (simp_all add: orders_T_def)

text \<open>What a call does to the table, whatever fails: nothing, or the flip of the pending rows.\<close>

definition paid_rows :: "string \<Rightarrow> time \<Rightarrow> PaymentOrder list \<Rightarrow> PaymentOrder list" where
  "paid_rows no n t = upd_rows (\<lambda>x. ord_OrderNo x = no \<and> ord_Status x = OrderStatusPending)
     (\<lambda>x. t_cols orders_T (t_touch orders_T n (x\<lparr>ord_Status := OrderStatusPaid, ord_PaidAt := Some n\<rparr>))) t"

lemma paid_rows_nos: "map ord_OrderNo (paid_rows no n t) = map ord_OrderNo t"
  unfolding paid_rows_def by (rule map_upd_rows_same) (simp add: order_cols)

lemma paid_rows_has: "(\<exists>y\<in>set (paid_rows no n t). ord_OrderNo y = k) \<longleftrightarrow> (\<exists>x\<in>set t. ord_OrderNo x = k)"
proof -
  have "k \<in> ord_OrderNo ` set (paid_rows no n t) \<longleftrightarrow> k \<in> ord_OrderNo ` set t"
    by (metis paid_rows_nos set_map)
  then show ?thesis by (auto simp: image_iff)
qed

lemma MarkPaid_orders:
  assumes "WalletRepo_MarkPaymentOrderPaid no w = (r, w')"
  shows "orders w' = orders w \<or> orders w' = paid_rows no (clock w) (orders w)"
  using assms
  by (auto simp: WalletRepo_MarkPaymentOrderPaid_def bind_def now_def q_update_def stmt_def opt_row_def
      q_first_def ret_def paid_rows_def split: if_splits prod.splits sum.splits option.splits)

lemma MarkPaid_ok:
  assumes "WalletRepo_MarkPaymentOrderPaid no w = (Inr (o1, b), w')"
  shows "orders w' = paid_rows no (clock w) (orders w)"
    and "b \<longleftrightarrow> (\<exists>x\<in>set (orders w). ord_OrderNo x = no \<and> ord_Status x = OrderStatusPending)"
    and "o1 = find (\<lambda>x. ord_OrderNo x = no) (orders w')"
proof -
  show "orders w' = paid_rows no (clock w) (orders w)"
    using assms by (auto simp: WalletRepo_MarkPaymentOrderPaid_def ok_simps paid_rows_def split: option.splits)
  have "find (\<lambda>x. ord_OrderNo x = no) (paid_rows no (clock w) (orders w)) = None \<longleftrightarrow> \<not> (\<exists>x\<in>set (orders w). ord_OrderNo x = no)"
    using paid_rows_has [where no = no and k = no] by (auto simp: find_None_iff)
  then show "b \<longleftrightarrow> (\<exists>x\<in>set (orders w). ord_OrderNo x = no \<and> ord_Status x = OrderStatusPending)"
    using assms
    by (auto simp: WalletRepo_MarkPaymentOrderPaid_def ok_simps paid_rows_def [symmetric] filter_empty_conv split: option.splits)
  show "o1 = find (\<lambda>x. ord_OrderNo x = no) (orders w')"
    using assms by (auto simp: WalletRepo_MarkPaymentOrderPaid_def ok_simps paid_rows_def split: option.splits)
qed

lemma paid_rows_armed: "\<not> order_armed k w \<Longrightarrow> orders w' = paid_rows no n (orders w) \<Longrightarrow> \<not> order_armed k w'"
  by (auto simp: order_armed_def paid_rows_def set_upd_rows order_cols split: if_splits)

lemma paid_rows_disarms:
  assumes "x \<in> set t" and "ord_OrderNo x = k" and "orders w' = paid_rows k n t"
  shows "\<not> order_armed k w'"
proof -
  have "\<exists>y\<in>set (orders w'). ord_OrderNo y = k" using assms by (auto simp: paid_rows_has)
  moreover have "\<not> (\<exists>y\<in>set (orders w'). ord_OrderNo y = k \<and> ord_Status y = OrderStatusPending)"
    unfolding assms(3) paid_rows_def upd_rows_def by (simp add: order_cols ball_Un)
  ultimately show ?thesis unfolding order_armed_def by blast
qed

lemma order_armed_cong: "orders w' = orders w \<Longrightarrow> order_armed k w' = order_armed k w"
  by (simp add: order_armed_def)

lemma order_env_keeps: "\<not> order_armed k w \<Longrightarrow> \<not> order_armed k (order_env_step e w)"
proof (cases e)
  case (NewOrder o1)
  assume n: "\<not> order_armed k w"
  have "keeps (\<lambda>w. \<not> order_armed k w) (q_insert orders_T o1)"
    by (rule keeps_q_insert) (auto simp: stable_def order_armed_def order_cols orders_T_def)
  with n NewOrder show ?thesis by (auto simp: keeps_def WalletRepo_CreatePaymentOrder_def)
next
  case (ExpireOrders d)
  assume n: "\<not> order_armed k w"
  have "keeps (\<lambda>w. \<not> order_armed k w) (WalletRepo_ExpireStalePendingOrders d)"
    unfolding WalletRepo_ExpireStalePendingOrders_def
    by (intro keeps_intros keeps_q_update)
      (auto simp: stable_def order_armed_def order_cols set_upd_rows split: if_splits)
  with n ExpireOrders show ?thesis by (auto simp: keeps_def)
next
  case (CreditWallet a x ty)
  assume n: "\<not> order_armed k w"
  have "leaves orders (WalletRepo_Credit a x ty '''' '''' '''' '''')"
    by (auto simp: WalletRepo_Credit_def apart_def intro!: leaves_intros)
  with n CreditWallet show ?thesis by (auto simp: leaves_def order_armed_def)
qed (auto simp: order_armed_def)

interpretation paid: one_shot order_env_step order_armed mark_fires
proof
  fix k :: string and s t assume f: "mark_fires k s = (True, t)"
  then obtain o1 where m: "WalletRepo_MarkPaymentOrderPaid k s = (Inr (o1, True), t)"
    by (auto simp: mark_fires_def split: prod.splits sum.splits)
  show "order_armed k s" using MarkPaid_ok(2) [OF m] by (auto simp: order_armed_def)
  show "\<not> order_armed k t" using MarkPaid_ok(1,2) [OF m] paid_rows_disarms by blast
next
  fix j k :: string and s b t assume "mark_fires j s = (b, t)" and n: "\<not> order_armed k s"
  then obtain r where "WalletRepo_MarkPaymentOrderPaid j s = (r, t)"
    by (auto simp: mark_fires_def split: prod.splits sum.splits)
  then show "\<not> order_armed k t"
    using MarkPaid_orders n paid_rows_armed order_armed_cong by metis
next
  fix k :: string and e s assume "\<not> order_armed k s"
  then show "\<not> order_armed k (order_env_step e s)" by (rule order_env_keeps)
qed

section \<open>The wallet store contract\<close>

type_synonym move_args = "string \<times> string \<times> string \<times> string \<times> string"

fun credit_call :: "int \<Rightarrow> rat \<Rightarrow> move_args \<Rightarrow> world \<Rightarrow> bool \<times> world" where
  "credit_call a x (ty, d, rt, ri, p) w = succeeds (WalletRepo_Credit a x ty d rt ri p) w"

fun debit_call :: "int \<Rightarrow> rat \<Rightarrow> move_args \<Rightarrow> world \<Rightarrow> bool \<times> world" where
  "debit_call a x (ty, d, rt, ri, p) w = succeeds (WalletRepo_Debit a x ty d rt ri p) w"

lemma balance_rollback [simp]: "balance (rollback w w1) c = balance w c"
  by (simp add: balance_def)

lemma call_balance:
  assumes m: "m = transaction f" and s: "succeeds m w = (b, w')" and ok: "ledger_ok w" and d: "is_dec 4 x"
    and mv: "\<And>tx. m w = (Inr tx, w') \<Longrightarrow> moved a x tx w w'"
  shows "balance w' c = (if b \<and> c = a then map_option (\<lambda>y. y + x) (balance w c) else balance w c)"
proof (cases b)
  case True
  then obtain tx where "m w = (Inr tx, w')" using s by (auto simp: succeeds_True)
  from balance_moved [OF mv [OF this] ok, of c] balance_is_dec [OF ok, of a] d True
  show ?thesis by (auto simp: dec_add)
next
  case False
  then obtain e where "m w = (Inl e, w')" using s by (auto simp: succeeds_False)
  then obtain w1 where "w' = rollback w w1" using m by (auto dest: transaction_rollback)
  then show ?thesis using False by simp
qed

interpretation store: wallet_store credit_call debit_call balance ledger_ok
proof
  fix s t :: world and x a b c and m :: move_args
  obtain ty d rt ri p where m: "m = (ty, d, rt, ri, p)" by (cases m)
  {
    assume ok: "ledger_ok s" and x: "is_dec 4 x" and f: "credit_call a x m s = (b, t)"
    show "ledger_ok t"
      using keepsD [OF Credit_ledger [OF x] _ ok] f m by (cases b) (auto simp: succeeds_True succeeds_False)
    show "balance t c = (if b \<and> c = a then map_option (\<lambda>y. y + x) (balance s c) else balance s c)"
      using Credit_moved ledger_ok_uniq [OF ok] f m
      by (intro call_balance [OF WalletRepo_Credit_def _ ok x]) auto
  }
  {
    assume ok: "ledger_ok s" and x: "is_dec 4 x" and f: "debit_call a x m s = (b, t)"
    show "ledger_ok t"
      using keepsD [OF Debit_ledger [OF x] _ ok] f m by (cases b) (auto simp: succeeds_True succeeds_False)
    show "balance t c = (if b \<and> c = a then map_option (\<lambda>y. y - x) (balance s c) else balance s c)"
      using Debit_moved(1) ledger_ok_uniq [OF ok] f m
        call_balance [OF WalletRepo_Debit_def [of a x ty d rt ri p], of s b t "- x" a c] ok is_dec_uminus [OF x]
      by simp
  }
  {
    assume ok: "ledger_ok s" and f: "debit_call a x m s = (True, t)"
    show "\<exists>y. balance s a = Some y \<and> x \<le> y"
      using Debit_moved(2) ledger_ok_uniq [OF ok] f m by (auto simp: succeeds_True)
  }
qed

section \<open>Redemption limits\<close>

definition codes_ok :: "world \<Rightarrow> bool" where
  "codes_ok w \<longleftrightarrow> uniq_by rc_ID (codes w) \<and> uniq_by rc_Code (codes w)"

definition uses_left :: "string \<Rightarrow> world \<Rightarrow> nat" where
  "uses_left c w = (case find (\<lambda>x. rc_Code x = c) (codes w) of None \<Rightarrow> 0 | Some rc \<Rightarrow> nat (rc_MaxUses rc - rc_UsedCount rc))"

fun redemptions :: "string \<Rightarrow> (int \<times> string) list \<Rightarrow> world \<Rightarrow> nat" where
  "redemptions c [] w = 0"
| "redemptions c ((a, d) # xs) w = (case succeeds (WalletRepo_RedeemCode a d) w of (b, w1) \<Rightarrow>
     (if b \<and> d = c then 1 else 0) + redemptions c xs w1)"

lemma code_cols: "rc_Code (t_cols codes_T x) = rc_Code x" "rc_ID (t_cols codes_T x) = rc_ID x"
  "rc_MaxUses (t_cols codes_T x) = rc_MaxUses x" "rc_UsedCount (t_cols codes_T x) = rc_UsedCount x"
  "rc_RewardValue (t_cols codes_T x) = dec 4 (rc_RewardValue x)"
  by (simp_all add: codes_T_def)

lemma Redeem_uses:
  assumes "succeeds (WalletRepo_RedeemCode a d) w = (b, w')" and "codes_ok w" and "uniq_by wal_ID (wallets w)"
  shows "codes_ok w' \<and> uniq_by wal_ID (wallets w')
    \<and> (if b \<and> d = c then uses_left c w = Suc (uses_left c w') else uses_left c w' = uses_left c w)"
proof (cases b)
  case True
  then obtain tx where r: "WalletRepo_RedeemCode a d w = (Inr tx, w')" using assms(1) by (auto simp: succeeds_True)
  obtain rc where rc: "find (\<lambda>x. rc_Code x = d) (codes w) = Some rc" "rc_UsedCount rc < rc_MaxUses rc"
    and m: "moved a (rc_RewardValue rc) tx w w'"
    and cs: "codes w' = upd_rows (\<lambda>x. rc_ID x = rc_ID rc) (\<lambda>_. t_cols codes_T (rc\<lparr>rc_UsedCount := rc_UsedCount rc + 1\<rparr>)) (codes w)"
    using Redeem_moved [OF r assms(3)] by metis
  have mem: "rc \<in> set (codes w)" "rc_Code rc = d" using find_SomeD [OF rc(1)] by auto
  have same: "z = rc" if "z \<in> set (codes w)" "rc_ID z = rc_ID rc \<or> rc_Code z = d" for z
    using that mem assms(2) by (auto simp: codes_ok_def dest: uniq_by_eq)
  let ?f = "\<lambda>z. t_cols codes_T (z\<lparr>rc_UsedCount := rc_UsedCount z + 1\<rparr>)"
  have cs2: "codes w' = upd_rows (\<lambda>x. rc_ID x = rc_ID rc) ?f (codes w)"
    unfolding cs upd_rows_def by (intro map_cong refl if_cong) (metis same)
  have "codes_ok w'" using assms(2) by (simp add: codes_ok_def cs2 uniq_by_upd code_cols)
  moreover have "uniq_by wal_ID (wallets w')" using m assms(3) by (auto simp: moved_def uniq_by_upd)
  moreover have "if d = c then uses_left c w = Suc (uses_left c w') else uses_left c w' = uses_left c w"
  proof -
    have f: "find (\<lambda>x. rc_Code x = c) (codes w')
        = map_option (\<lambda>z. if rc_ID z = rc_ID rc then ?f z else z) (find (\<lambda>x. rc_Code x = c) (codes w))"
      unfolding cs2 by (rule find_upd_rows_on) (simp add: code_cols)
    show ?thesis
    proof (cases "d = c")
      case True
      then show ?thesis using f rc by (simp add: uses_left_def code_cols)
    next
      case False
      have "rc_ID z \<noteq> rc_ID rc" if "find (\<lambda>x. rc_Code x = c) (codes w) = Some z" for z
        using same [of z] find_SomeD [OF that] mem False by blast
      then show ?thesis using f False
        by (cases "find (\<lambda>x. rc_Code x = c) (codes w)") (simp_all add: uses_left_def)
    qed
  qed
  ultimately show ?thesis using True by simp
next
  case False
  then obtain e w1 where "w' = rollback w w1" 
    using assms(1) by (auto simp: succeeds_False WalletRepo_RedeemCode_def dest!: transaction_rollback)
  then show ?thesis using False assms(2,3) by (simp add: codes_ok_def uses_left_def)
qed

lemma redemptions_bounded:
  "codes_ok w \<Longrightarrow> uniq_by wal_ID (wallets w) \<Longrightarrow> redemptions c xs w \<le> uses_left c w"
proof (induction xs arbitrary: w)
  case (Cons p xs)
  obtain a d where p: "p = (a, d)" by (cases p)
  obtain b w1 where s: "succeeds (WalletRepo_RedeemCode a d) w = (b, w1)" by fastforce
  note u = Redeem_uses [OF s Cons.prems, of c]
  then have "redemptions c xs w1 \<le> uses_left c w1" using Cons.IH by blast
  then show ?case using u p s by (auto split: if_splits)
qed simp

section \<open>Properties\<close>

text \<open>A small database: account 7 has topped up 100, account 8 has an empty wallet.\<close>

definition demo :: world where
  "demo = world0\<lparr>
     wallets := [Wallet0\<lparr>wal_ID := 1, wal_AccountID := 7, wal_Balance := 100, wal_LifetimeTopup := 100\<rparr>,
                 Wallet0\<lparr>wal_ID := 2, wal_AccountID := 8\<rparr>],
     transactions := [WalletTransaction0\<lparr>tx_ID := 1, tx_WalletID := 1, tx_AccountID := 7,
        tx_Type := TxTypeTopup, tx_Amount := 100, tx_BalanceAfter := 100\<rparr>],
     orders := [PaymentOrder0\<lparr>ord_ID := 1, ord_AccountID := 7, ord_OrderNo := ''LO1'', ord_OrderType := ''topup'',
        ord_AmountCNY := 30, ord_Status := OrderStatusPending\<rparr>],
     codes := [RedemptionCode0\<lparr>rc_ID := 1, rc_Code := ''GIFT'', rc_RewardType := ''credits'', rc_RewardValue := 5,
        rc_MaxUses := 2\<rparr>],
     seqs := (\<lambda>_. 10)\<rparr>"

lemma demo_ok: "ledger_ok demo" "codes_ok demo"
  by (simp_all add: demo_def world0_def ledger_ok_def ledger_of_def codes_ok_def uniq_by_def Wallet0_def
      WalletTransaction0_def RedemptionCode0_def is_dec_def)

lemma demo_balance: "balance demo 7 = Some 100" "balance demo 8 = Some 0"
  by (simp_all add: demo_def world0_def balance_def Wallet0_def)




lemma demo_two_debits:
  "balance (snd (run_cmds credit_call debit_call [Dbt 7 70 (TxTypeSubscription, '''', '''', '''', ''''),
      Dbt 7 70 (TxTypeSubscription, '''', '''', '''', '''')] demo)) 7 = Some 30"
  by code_simp



text \<open>C11: A redemption code cannot be redeemed more often than its limit: in any sequence of
  attempts by any accounts, the successful ones for a code number at most the uses left.\<close>

theorem redemption_limit:
  assumes "codes_ok w" and "uniq_by wal_ID (wallets w)"
  shows "redemptions c xs w \<le> uses_left c w"
  using assms by (rule redemptions_bounded)

theorem redemption_limit_witness:
  "redemptions ''GIFT'' [(7, ''GIFT''), (8, ''GIFT''), (7, ''GIFT'')] demo \<le> uses_left ''GIFT'' demo
   \<and> uses_left ''GIFT'' demo = 2"
  using redemption_limit [OF demo_ok(2), of "''GIFT''" "[(7, ''GIFT''), (8, ''GIFT''), (7, ''GIFT'')]"] demo_ok(1)
  by (simp add: ledger_ok_def) (simp add: uses_left_def demo_def RedemptionCode0_def)

text \<open>C12: A debit is decided by the balance. When no statement fails, a debit of an account
  with balance \<open>b\<close> succeeds exactly if the amount is at most \<open>b\<close>, and then records the new
  balance; otherwise it returns the insufficient-balance error and leaves the state unchanged.\<close>

theorem debit_decides:
  assumes "ledger_ok w" and "faults w = []" and "balance w a = Some b"
    and "\<forall>t\<in>set (transactions w). tx_ID t \<noteq> seqs w ''wallet_transactions''" and "seqs w ''wallet_transactions'' \<noteq> 0"
  shows "if amount \<le> b
    then \<exists>tx w'. WalletRepo_Debit a amount ty d rt ri p w = (Inr tx, w')
         \<and> tx_Amount tx = - amount \<and> tx_BalanceAfter tx = dec 4 (b - amount)
    else WalletRepo_Debit a amount ty d rt ri p w = (Inl (EInsufficient b amount), w)"
proof (cases "amount \<le> b")
  case True
  obtain x where x: "find (\<lambda>x. wal_AccountID x = a) (wallets w) = Some x" "wal_Balance x = b"
    using assms(3) by (auto simp: balance_def)
  note y = find_own_ID [OF ledger_ok_uniq [OF assms(1)] x(1)]
  have "filter (\<lambda>z. wal_ID z = wal_ID x \<and> amount \<le> wal_Balance z) (wallets w) \<noteq> []"
    using find_SomeD [OF x(1)] x(2) True by (auto simp: filter_empty_conv)
  moreover have "t_conflict transactions_T (t_new transactions_T (seqs w ''wallet_transactions'') n
      (WalletTransaction0\<lparr>tx_WalletID := i, tx_AccountID := a, tx_Type := ty, tx_Amount := z, tx_BalanceAfter := c,
        tx_ProductID := p, tx_ReferenceType := rt, tx_ReferenceID := ri, tx_Description := d\<rparr>)) (transactions w) = None" for n i z c
    using assms(4,5) by (auto simp: transactions_T_def serial_def WalletTransaction0_def)
  moreover have "find (\<lambda>z. wal_ID z = wal_ID x) (upd_rows (\<lambda>z. wal_ID z = wal_ID x \<and> amount \<le> wal_Balance z)
      (\<lambda>r. t_cols wallets_T (debit_set amount r)) (wallets w)) = Some (t_cols wallets_T (debit_set amount x))"
    using y x(2) True by (subst find_upd_rows_on) (auto simp: wallet_fields)
  ultimately show ?thesis using assms(2) x y True
    by (auto simp: WalletRepo_Debit_def transaction_def bind_def wrap_def q_first_def q_update_def q_insert_def stmt_def fail_def adv_Nil rollback_same wallet_fields Let_def)
next
  case False
  with assms(2,3) show ?thesis
    by (auto simp: balance_def WalletRepo_Debit_def transaction_def bind_def wrap_def q_first_def stmt_def fail_def adv_Nil rollback_same)
qed

theorem debit_decides_witness:
  "(\<exists>tx w'. WalletRepo_Debit 7 40 TxTypeSubscription '''' '''' '''' '''' demo = (Inr tx, w')
      \<and> tx_Amount tx = - 40 \<and> tx_BalanceAfter tx = dec 4 60)
   \<and> WalletRepo_Debit 7 101 TxTypeSubscription '''' '''' '''' '''' demo = (Inl (EInsufficient 100 101), demo)"
  using debit_decides [OF demo_ok(1) _ demo_balance(1), of 40 TxTypeSubscription "''''" "''''" "''''" "''''"]
    debit_decides [OF demo_ok(1) _ demo_balance(1), of 101 TxTypeSubscription "''''" "''''" "''''" "''''"]
  by (simp add: demo_def world0_def WalletTransaction0_def)

end
