(* ===== verification/VIP.thy ===== *)
theory VIP
  imports WalletRepo
begin

text \<open>
  VIP levels: \<^verbatim>\<open>internal/adapter/repo/vip.go\<close> and
  \<^verbatim>\<open>internal/app/vip_service.go\<close>. The level of an account is the maximum of the level
  its spending earns and the level a yearly subscription grants.
\<close>

section \<open>Repository\<close>

definition VIPRepo_GetByAccountID :: "int \<Rightarrow> AccountVIP option op" where
  "VIPRepo_GetByAccountID accountID = opt_row (q_first vips_T (\<lambda>x. vip_AccountID x = accountID))"

definition VIPRepo_GetOrCreate :: "int \<Rightarrow> AccountVIP op" where
  "VIPRepo_GetOrCreate accountID =
     q_first_or_create vips_T (\<lambda>x. vip_AccountID x = accountID) (AccountVIP0\<lparr>vip_AccountID := accountID\<rparr>)"

definition VIPRepo_Update :: "AccountVIP \<Rightarrow> unit op" where
  "VIPRepo_Update v = bind now (\<lambda>n. q_upsert vips_T vip_AccountID
     (\<lambda>x. x\<lparr>vip_Level := vip_Level v, vip_LevelName := vip_LevelName v, vip_Points := vip_Points v,
           vip_YearlySubGrant := vip_YearlySubGrant v, vip_SpendGrant := vip_SpendGrant v,
           vip_LevelExpiresAt := vip_LevelExpiresAt v, vip_UpdatedAt := stamp n (vip_UpdatedAt v)\<rparr>) v)"

definition VIPRepo_ListConfigs :: "VIPLevelConfig list op" where
  "VIPRepo_ListConfigs = bind (q_find vip_configs_T (\<lambda>_. True)) (\<lambda>list. ret (sort_key vlc_Level list))"

section \<open>Service\<close>

definition maxInt16 :: "int \<Rightarrow> int \<Rightarrow> int" where
  "maxInt16 a b = (if b < a then a else b)"

fun VIPService_levelName :: "VIPLevelConfig list \<Rightarrow> int \<Rightarrow> string" where
  "VIPService_levelName [] level = ''Standard''"
| "VIPService_levelName (c # cs) level = (if vlc_Level c = level then vlc_Name c else VIPService_levelName cs level)"

text \<open>The loop over the configurations: the last one whose threshold is reached wins.\<close>

definition spend_grant :: "rat \<Rightarrow> VIPLevelConfig list \<Rightarrow> int" where
  "spend_grant lifetime cs = foldl (\<lambda>g c. if vlc_MinSpendCNY c \<le> lifetime then vlc_Level c else g) 0 cs"

definition VIPService_RecalculateFromWallet :: "int \<Rightarrow> unit op" where
  "VIPService_RecalculateFromWallet accountID =
     attempt (WalletRepo_GetByAccountID accountID) (\<lambda>r. case r of
       Inl e \<Rightarrow> ret ()
     | Inr None \<Rightarrow> ret ()
     | Inr (Some wl) \<Rightarrow>
     bind (wrap ''list vip configs'' VIPRepo_ListConfigs) (\<lambda>configs.
     let spendGrant = spend_grant (wal_LifetimeTopup wl) configs in
     bind (wrap ''get vip'' (VIPRepo_GetOrCreate accountID)) (\<lambda>v.
     let level = maxInt16 (vip_YearlySubGrant v) spendGrant in
     VIPRepo_Update (v\<lparr>vip_SpendGrant := spendGrant, vip_Level := level,
        vip_LevelName := VIPService_levelName configs level\<rparr>))))"

definition VIPService_GrantYearlySub :: "int \<Rightarrow> int \<Rightarrow> unit op" where
  "VIPService_GrantYearlySub accountID grantLevel =
     bind VIPRepo_ListConfigs (\<lambda>configs.
     bind (VIPRepo_GetOrCreate accountID) (\<lambda>v.
     let level = maxInt16 grantLevel (vip_SpendGrant v) in
     VIPRepo_Update (v\<lparr>vip_YearlySubGrant := grantLevel, vip_Level := level,
        vip_LevelName := VIPService_levelName configs level\<rparr>)))"

definition VIPService_AdminSet :: "int \<Rightarrow> int \<Rightarrow> unit op" where
  "VIPService_AdminSet accountID level =
     bind VIPRepo_ListConfigs (\<lambda>configs.
     bind (VIPRepo_GetOrCreate accountID) (\<lambda>v.
     VIPRepo_Update (v\<lparr>vip_Level := level, vip_LevelName := VIPService_levelName configs level\<rparr>)))"

definition VIPService_Get :: "int \<Rightarrow> AccountVIP op" where
  "VIPService_Get accountID = bind (VIPRepo_GetOrCreate accountID) ret"

lemmas vip_defs [svc_defs] =
  VIPRepo_GetByAccountID_def VIPRepo_GetOrCreate_def VIPRepo_Update_def VIPRepo_ListConfigs_def
  VIPService_RecalculateFromWallet_def VIPService_GrantYearlySub_def VIPService_AdminSet_def VIPService_Get_def

section \<open>Facts\<close>

lemma leaves_Let [leaves_intros]: "(\<And>x. leaves f (k x)) \<Longrightarrow> leaves f (let x = t in k x)"
  by (simp add: Let_def)

lemma vip_frames [leaves_intros]:
  assumes "stable f" "apart f vips_T"
  shows "leaves f (VIPService_RecalculateFromWallet a)" "leaves f (VIPService_GrantYearlySub a l)"
    "leaves f (VIPService_AdminSet a l)" "leaves f (VIPService_Get a)"
  using assms by (auto intro!: leaves_intros simp: vip_defs repo_defs)

text \<open>
  With configurations in ascending order of level and thresholds, the loop finds the highest
  level whose threshold is reached.
\<close>

lemma spend_grant_snoc: "spend_grant x (cs @ [c]) = (if vlc_MinSpendCNY c \<le> x then vlc_Level c else spend_grant x cs)"
  by (simp add: spend_grant_def)

lemma spend_grant_mem:
  "spend_grant x cs = 0 \<and> (\<forall>c\<in>set cs. x < vlc_MinSpendCNY c) \<or>
   (\<exists>c\<in>set cs. vlc_MinSpendCNY c \<le> x \<and> spend_grant x cs = vlc_Level c)"
proof (induction cs rule: rev_induct)
  case Nil
  then show ?case by (simp add: spend_grant_def)
next
  case (snoc c cs)
  then show ?case by (auto simp: spend_grant_snoc)
qed

lemma spend_grant_highest:
  "sorted (map vlc_Level cs) \<Longrightarrow> c \<in> set cs \<Longrightarrow> vlc_MinSpendCNY c \<le> x \<Longrightarrow> vlc_Level c \<le> spend_grant x cs"
proof (induction cs rule: rev_induct)
  case (snoc d cs)
  then show ?case by (auto simp: spend_grant_snoc sorted_append)
qed simp

lemma maxInt16_max [simp]: "maxInt16 a b = max a b"
  by (simp add: maxInt16_def)

text \<open>What a successful recalculation leaves in the account's row.\<close>

lemma vip_cols: "t_cols vips_T x = x" "vip_AccountID (t_new vips_T i n x) = vip_AccountID x"
  "vip_YearlySubGrant (t_new vips_T i n x) = vip_YearlySubGrant x"
  by (simp_all add: vips_T_def)

lemma upsert_row:
  assumes "q_upsert vips_T vip_AccountID f v w = (Inr u, w')" and "\<And>x. vip_AccountID (f x) = vip_AccountID x"
    and "x \<in> set (vips w)" "vip_AccountID x = vip_AccountID v"
  shows "find (\<lambda>x. vip_AccountID x = vip_AccountID v) (vips w') = map_option f (find (\<lambda>x. vip_AccountID x = vip_AccountID v) (vips w))"
proof -
  have "vips w' = upd_rows (\<lambda>x. vip_AccountID x = vip_AccountID v) (\<lambda>x. t_cols vips_T (f x)) (vips w)"
    using assms(1,3,4) by (auto simp: ok_simps)
  then show ?thesis using assms(2)
    by (auto simp: find_upd_rows_on vip_cols find_Some_iff intro!: option.map_cong dest: find_SomeD)
qed

lemma first_or_create_ok:
  assumes "faults w = []" and "\<And>i n. t_conflict T (t_new T i n r) (t_get T w) = None \<or> find P (t_get T w) \<noteq> None"
  shows "q_first_or_create T P r w = (case find P (t_get T w) of Some x \<Rightarrow> (Inr x, w)
     | None \<Rightarrow> (let r1 = t_new T (seqs w (t_name T)) (clock w) r in
         (Inr r1, t_upd T (\<lambda>t. t @ [t_cols T r1]) (w\<lparr>seqs := (seqs w)(t_name T := seqs w (t_name T) + 1)\<rparr>))))"
  using assms(1) assms(2) [of "seqs w (t_name T)" "clock w"]
  by (cases "find P (t_get T w)") (auto simp: q_first_or_create_def bind_def opt_row_def q_first_def q_insert_def
      stmt_def ret_def adv_Nil Let_def)

text \<open>C14: Recalculating the VIP level of an account with a wallet always succeeds when no
  statement fails, and leaves a row whose spend grant is the highest configured level whose
  threshold the lifetime top-up reaches, and whose level is the maximum of the two grants.\<close>

theorem vip_level_after_recalculation:
  assumes "faults w = []" and "find (\<lambda>x. wal_AccountID x = a) (wallets w) = Some wl"
  shows "\<exists>w' v. VIPService_RecalculateFromWallet a w = (Inr (), w')
    \<and> find (\<lambda>x. vip_AccountID x = a) (vips w') = Some v
    \<and> vip_Level v = max (vip_YearlySubGrant v) (vip_SpendGrant v)
    \<and> (\<forall>c\<in>set (vip_configs w). vlc_MinSpendCNY c \<le> wal_LifetimeTopup wl \<longrightarrow> vlc_Level c \<le> vip_SpendGrant v)
    \<and> (vip_SpendGrant v = 0 \<or> (\<exists>c\<in>set (vip_configs w). vlc_MinSpendCNY c \<le> wal_LifetimeTopup wl
          \<and> vip_SpendGrant v = vlc_Level c))"
proof -
  let ?cs = "sort_key vlc_Level (vip_configs w)"
  let ?g = "spend_grant (wal_LifetimeTopup wl) ?cs"
  have g: "\<forall>c\<in>set (vip_configs w). vlc_MinSpendCNY c \<le> wal_LifetimeTopup wl \<longrightarrow> vlc_Level c \<le> ?g"
    using spend_grant_highest [of ?cs] by simp
  have g2: "?g = 0 \<or> (\<exists>c\<in>set (vip_configs w). vlc_MinSpendCNY c \<le> wal_LifetimeTopup wl \<and> ?g = vlc_Level c)"
    using spend_grant_mem [of "wal_LifetimeTopup wl" ?cs] by auto
  have conf: "t_conflict vips_T (t_new vips_T i n (AccountVIP0\<lparr>vip_AccountID := a\<rparr>)) (vips w) = None
      \<or> find (\<lambda>x. vip_AccountID x = a) (vips w) \<noteq> None" for i n
    by (auto simp: vips_T_def find_None_iff)
  have read: "VIPService_RecalculateFromWallet a w = bind (wrap ''get vip'' (VIPRepo_GetOrCreate a)) (\<lambda>v.
     let level = maxInt16 (vip_YearlySubGrant v) ?g in
     VIPRepo_Update (v\<lparr>vip_SpendGrant := ?g, vip_Level := level, vip_LevelName := VIPService_levelName ?cs level\<rparr>)) w"
    using assms by (simp add: VIPService_RecalculateFromWallet_def attempt_def WalletRepo_GetByAccountID_def
        VIPRepo_ListConfigs_def bind_def wrap_def opt_row_def q_first_def q_find_def stmt_def ret_def adv_Nil Let_def)
  obtain v w1 where gc: "VIPRepo_GetOrCreate a w = (Inr v, w1)" and f1: "faults w1 = []" and va: "vip_AccountID v = a"
    and fv: "find (\<lambda>x. vip_AccountID x = a) (vips w1) \<noteq> None"
    using assms(1) first_or_create_ok [OF assms(1), of vips_T "AccountVIP0\<lparr>vip_AccountID := a\<rparr>" "\<lambda>x. vip_AccountID x = a"] conf
    by (cases "find (\<lambda>x. vip_AccountID x = a) (vips w)")
      (auto simp: VIPRepo_GetOrCreate_def Let_def vip_cols find_append dest: find_SomeD)
  let ?v = "v\<lparr>vip_SpendGrant := ?g, vip_Level := maxInt16 (vip_YearlySubGrant v) ?g,
      vip_LevelName := VIPService_levelName ?cs (maxInt16 (vip_YearlySubGrant v) ?g)\<rparr>"
  obtain x where x: "find (\<lambda>x. vip_AccountID x = a) (vips w1) = Some x" "x \<in> set (vips w1)" "vip_AccountID x = a"
    using fv find_SomeD by fastforce
  let ?f = "\<lambda>x. x\<lparr>vip_Level := vip_Level ?v, vip_LevelName := vip_LevelName ?v, vip_Points := vip_Points ?v,
      vip_YearlySubGrant := vip_YearlySubGrant ?v, vip_SpendGrant := vip_SpendGrant ?v,
      vip_LevelExpiresAt := vip_LevelExpiresAt ?v, vip_UpdatedAt := stamp (clock w1) (vip_UpdatedAt ?v)\<rparr>"
  obtain w2 where u: "q_upsert vips_T vip_AccountID ?f ?v w1 = (Inr (), w2)"
    using f1 by (simp add: q_upsert_def stmt_def)
  have "find (\<lambda>x. vip_AccountID x = a) (vips w2) = Some (?f x)"
    using upsert_row [OF u _ x(2)] x va by simp
  moreover have "VIPService_RecalculateFromWallet a w = (Inr (), w2)"
    using gc u by (simp add: read bind_def wrap_def Let_def VIPRepo_Update_def now_def)
  ultimately show ?thesis using g g2 by (intro exI [of _ w2] exI [of _ "?f x"]) auto
qed

definition demo_vip :: world where
  "demo_vip = demo\<lparr>vip_configs := [VIPLevelConfig0\<lparr>vlc_Level := 1, vlc_Name := ''Silver'', vlc_MinSpendCNY := 50\<rparr>,
     VIPLevelConfig0\<lparr>vlc_Level := 2, vlc_Name := ''Gold'', vlc_MinSpendCNY := 500\<rparr>]\<rparr>"

theorem vip_level_after_recalculation_witness:
  "\<exists>w' v. VIPService_RecalculateFromWallet 7 demo_vip = (Inr (), w')
    \<and> find (\<lambda>x. vip_AccountID x = 7) (vips w') = Some v \<and> vip_SpendGrant v = 1"
proof -
  have "\<exists>wl. find (\<lambda>x. wal_AccountID x = 7) (wallets demo_vip) = Some wl \<and> wal_LifetimeTopup wl = 100"
    by (simp add: demo_vip_def demo_def)
  then obtain wl where "find (\<lambda>x. wal_AccountID x = 7) (wallets demo_vip) = Some wl" "wal_LifetimeTopup wl = 100" by blast
  with vip_level_after_recalculation [of demo_vip 7 wl] show ?thesis
    by (force simp: demo_vip_def demo_def world0_def VIPLevelConfig0_def)
qed

end
