(* ===== verification/WalletService.thy ===== *)
theory WalletService
  imports VIP Calendar
begin

text \<open>
  \<^verbatim>\<open>internal/app/wallet_service.go\<close>: top-ups, debits, redemptions and payment orders.
  Then what the service promises of a payment: at most one top-up row in the ledger per order,
  and only once the order has left the pending state.
\<close>

section \<open>Operations\<close>

text \<open>\<^verbatim>\<open>"LO" + yyyyMMdd + first eight characters of a fresh UUID\<close>\<close>

definition generateOrderNo :: "string op" where
  "generateOrderNo = bind now (\<lambda>n. bind draw (\<lambda>uuid. ret (''LO'' @ format_compact n @ take 8 uuid)))"

definition WalletService_GetWallet :: "int \<Rightarrow> Wallet op" where
  "WalletService_GetWallet accountID = WalletRepo_GetOrCreate accountID"

definition WalletService_GetBalance :: "int \<Rightarrow> Wallet option op" where
  "WalletService_GetBalance accountID = WalletRepo_GetByAccountID accountID"

text \<open>The description of a top-up; its first word is the UTF-8 text of two Chinese characters.\<close>

definition topup_desc :: "rat \<Rightarrow> string" where
  "topup_desc amountCNY = map char_of [229, 133, 133, 229, 128, 188, 32 :: nat] @ fixed 2 amountCNY @ '' CNY''"

definition WalletService_Topup :: "int \<Rightarrow> rat \<Rightarrow> string \<Rightarrow> WalletTransaction op" where
  "WalletService_Topup accountID amountCNY orderNo =
     bind (WalletRepo_Credit accountID amountCNY TxTypeTopup (topup_desc amountCNY) ''payment_order'' orderNo '''') (\<lambda>tx.
     bind (ignore (VIPService_RecalculateFromWallet accountID)) (\<lambda>_.
     ret tx))"

definition WalletService_Credit ::
  "int \<Rightarrow> rat \<Rightarrow> string \<Rightarrow> string \<Rightarrow> string \<Rightarrow> string \<Rightarrow> string \<Rightarrow> WalletTransaction op" where
  "WalletService_Credit accountID amount txType desc refType refID productID =
     WalletRepo_Credit accountID amount txType desc refType refID productID"

definition WalletService_Debit ::
  "int \<Rightarrow> rat \<Rightarrow> string \<Rightarrow> string \<Rightarrow> string \<Rightarrow> string \<Rightarrow> string \<Rightarrow> WalletTransaction op" where
  "WalletService_Debit accountID amount txType desc refType refID productID =
     WalletRepo_Debit accountID amount txType desc refType refID productID"

definition WalletService_UpdatePaymentOrder :: "PaymentOrder \<Rightarrow> unit op" where
  "WalletService_UpdatePaymentOrder o1 = WalletRepo_UpdatePaymentOrder o1"

definition WalletService_Redeem :: "int \<Rightarrow> string \<Rightarrow> unit op" where
  "WalletService_Redeem accountID code =
     bind (WalletRepo_RedeemCode accountID (ToUpper (TrimSpace code))) (\<lambda>_. ret ())"

definition WalletService_ListTransactions :: "int \<Rightarrow> int \<Rightarrow> int \<Rightarrow> (WalletTransaction list \<times> int) op" where
  "WalletService_ListTransactions accountID page pageSize = WalletRepo_ListTransactions accountID page pageSize"

definition WalletService_CreatePaymentOrder :: "PaymentOrder \<Rightarrow> PaymentOrder op" where
  "WalletService_CreatePaymentOrder o1 = WalletRepo_CreatePaymentOrder o1"

definition WalletService_CreateSubscriptionOrder :: "PaymentOrder \<Rightarrow> PaymentOrder op" where
  "WalletService_CreateSubscriptionOrder o1 =
     bind generateOrderNo (\<lambda>no.
     WalletRepo_CreatePaymentOrder (o1\<lparr>ord_OrderNo := no, ord_Status := OrderStatusPending\<rparr>))"

definition WalletService_CreateTopup :: "int \<Rightarrow> rat \<Rightarrow> string \<Rightarrow> PaymentOrder op" where
  "WalletService_CreateTopup accountID amountCNY payMethod =
     (if amountCNY \<le> 0 then fail (EMsg ''amount must be positive'') else
      bind generateOrderNo (\<lambda>no.
      wrap ''create payment order'' (WalletRepo_CreatePaymentOrder
        (PaymentOrder0\<lparr>ord_AccountID := accountID, ord_OrderNo := no, ord_OrderType := ''topup'',
           ord_AmountCNY := amountCNY, ord_Currency := ''CNY'', ord_PaymentMethod := payMethod,
           ord_Status := OrderStatusPending\<rparr>))))"

definition WalletService_ListOrders :: "int \<Rightarrow> int \<Rightarrow> int \<Rightarrow> (PaymentOrder list \<times> int) op" where
  "WalletService_ListOrders accountID page pageSize = WalletRepo_ListOrders accountID page pageSize"

definition WalletService_GetOrderByNo :: "int \<Rightarrow> string \<Rightarrow> PaymentOrder op" where
  "WalletService_GetOrderByNo accountID orderNo =
     bind (WalletRepo_GetPaymentOrderByNo orderNo) (\<lambda>o1. case o1 of
       None \<Rightarrow> fail (EMsg (''order '' @ orderNo @ '' not found''))
     | Some ord \<Rightarrow> if ord_AccountID ord \<noteq> accountID then fail (EMsg (''order '' @ orderNo @ '' not found'')) else ret ord)"

definition WalletService_ExpireStalePendingOrders :: "time \<Rightarrow> int op" where
  "WalletService_ExpireStalePendingOrders maxAge = WalletRepo_ExpireStalePendingOrders maxAge"

definition WalletService_MarkOrderPaid :: "string \<Rightarrow> PaymentOrder op" where
  "WalletService_MarkOrderPaid orderNo =
     bind (WalletRepo_MarkPaymentOrderPaid orderNo) (\<lambda>(o1, didTransition). case o1 of
       None \<Rightarrow> fail (EMsg (''order '' @ orderNo @ '' not found''))
     | Some ord \<Rightarrow>
       if didTransition \<and> ord_OrderType ord = ''topup''
       then bind (wrap ''credit wallet'' (WalletService_Topup (ord_AccountID ord) (ord_AmountCNY ord) (ord_OrderNo ord)))
              (\<lambda>_. ret ord)
       else ret ord)"

lemmas wallet_service_defs [svc_defs] =
  generateOrderNo_def WalletService_GetWallet_def WalletService_GetBalance_def WalletService_Topup_def
  WalletService_Credit_def WalletService_Debit_def WalletService_UpdatePaymentOrder_def WalletService_Redeem_def
  WalletService_ListTransactions_def WalletService_CreatePaymentOrder_def
  WalletService_CreateSubscriptionOrder_def WalletService_CreateTopup_def WalletService_ListOrders_def
  WalletService_GetOrderByNo_def WalletService_ExpireStalePendingOrders_def WalletService_MarkOrderPaid_def

section \<open>The ledger through the service\<close>

lemma vip_keeps_ledger [keeps_intros]: "keeps ledger_ok (VIPService_RecalculateFromWallet a)"
  by (rule keeps_ledger_leaves) (auto intro!: leaves_intros simp: apart_def)

lemma Topup_ledger [keeps_intros]: "is_dec 4 x \<Longrightarrow> keeps ledger_ok (WalletService_Topup a x no)"
  unfolding WalletService_Topup_def by (intro keeps_intros)

section \<open>At most one top-up per order\<close>

definition is_topup_of :: "string \<Rightarrow> WalletTransaction \<Rightarrow> bool" where
  "is_topup_of no t \<longleftrightarrow> tx_Type t = TxTypeTopup \<and> tx_ReferenceType t = ''payment_order'' \<and> tx_ReferenceID t = no"

definition topup_rows :: "string \<Rightarrow> world \<Rightarrow> nat" where
  "topup_rows no w = length (filter (is_topup_of no) (transactions w))"

definition paid_once :: "string \<Rightarrow> world \<Rightarrow> bool" where
  "paid_once no w \<longleftrightarrow> topup_rows no w \<le> (if order_armed no w then 0 else 1)"

lemma paid_once_cong:
  "transactions w' = transactions w \<Longrightarrow> orders w' = orders w \<Longrightarrow> paid_once no w' = paid_once no w"
  by (simp add: paid_once_def topup_rows_def order_armed_def)

lemma stable_paid_once [simp, intro]: "stable (paid_once no)"
  by (simp add: stable_def paid_once_def topup_rows_def order_armed_def)

lemma keeps_paid_once_leaves: "leaves transactions m \<Longrightarrow> leaves orders m \<Longrightarrow> keeps (paid_once no) m"
  unfolding keeps_def leaves_def using paid_once_cong by blast

lemma tx_ref_fields:
  "tx_Type (t_cols transactions_T t) = tx_Type t" "tx_ReferenceType (t_cols transactions_T t) = tx_ReferenceType t"
  "tx_ReferenceID (t_cols transactions_T t) = tx_ReferenceID t"
  by (simp_all add: transactions_T_def)

lemma Credit_rows:
  assumes "WalletRepo_Credit a x ty d rt ri p w = (r, w')"
  shows "transactions w' = transactions w \<or>
    (\<exists>t. transactions w' = transactions w @ [t] \<and> tx_Type t = ty \<and> tx_ReferenceType t = rt \<and> tx_ReferenceID t = ri)"
proof (cases r)
  case (Inl e)
  then show ?thesis using assms by (auto simp: WalletRepo_Credit_def dest!: transaction_rollback)
next
  case (Inr tx)
  then show ?thesis using assms
    by (auto simp: WalletRepo_Credit_def ok_simps tx_fields tx_ref_fields)
qed

lemma apart_wallet_tables [leaves_intros]:
  "apart orders wallets_T" "apart orders transactions_T" "apart codes wallets_T" "apart codes transactions_T"
  "apart transactions wallets_T" "apart transactions vips_T" "apart orders vips_T" "apart wallets vips_T"
  by (simp_all add: apart_def)

lemma Credit_leaves_orders [leaves_intros]: "leaves orders (WalletRepo_Credit a x ty d rt ri p)"
  unfolding WalletRepo_Credit_def by (auto intro!: leaves_intros)

lemma Debit_leaves_orders [leaves_intros]: "leaves orders (WalletRepo_Debit a x ty d rt ri p)"
  unfolding WalletRepo_Debit_def by (auto intro!: leaves_intros)

lemma Redeem_leaves_orders [leaves_intros]: "leaves orders (WalletRepo_RedeemCode a c)"
  unfolding WalletRepo_RedeemCode_def by (auto intro!: leaves_intros)

lemma Topup_rows:
  assumes "WalletService_Topup a x no w = (r, w')"
  shows "orders w' = orders w \<and> (transactions w' = transactions w \<or>
    (\<exists>t. transactions w' = transactions w @ [t] \<and> tx_ReferenceID t = no))"
proof -
  obtain r1 w1 where c: "WalletRepo_Credit a x TxTypeTopup (topup_desc x) ''payment_order'' no '''' w = (r1, w1)"
    by fastforce
  have "leaves transactions (ignore (VIPService_RecalculateFromWallet a))"
    "leaves orders (ignore (VIPService_RecalculateFromWallet a))"
    by (auto intro!: leaves_intros)
  then have "transactions w' = transactions w1 \<and> orders w' = orders w1"
    using assms c unfolding WalletService_Topup_def
    by (cases r1) (auto simp: bind_def ret_def split: prod.splits sum.splits dest!: leavesD)
  moreover have "orders w1 = orders w" using leavesD [OF Credit_leaves_orders c] .
  ultimately show ?thesis using Credit_rows [OF c] by auto
qed

lemma topup_rows_snoc:
  "transactions w' = transactions w @ [t] \<Longrightarrow> topup_rows no w' = topup_rows no w + (if is_topup_of no t then 1 else 0)"
  by (simp add: topup_rows_def)

lemma MarkOrderPaid_once [keeps_intros]: "keeps (paid_once no) (WalletService_MarkOrderPaid k)"
  unfolding keeps_def
proof (intro allI impI)
  fix w assume I: "paid_once no w"
  obtain r w1 where m: "WalletRepo_MarkPaymentOrderPaid k w = (r, w1)" by fastforce
  have "leaves transactions (WalletRepo_MarkPaymentOrderPaid k)"
    by (rule frames_orders) (auto intro: leaves_intros)
  then have t1: "transactions w1 = transactions w" using m by (rule leavesD)
  have dis: "\<not> order_armed no w \<Longrightarrow> \<not> order_armed no w1"
    using MarkPaid_orders [OF m] paid_rows_armed order_armed_cong by metis
  have I1: "paid_once no w1" using I dis t1 by (auto simp: paid_once_def topup_rows_def split: if_splits)
  show "paid_once no (snd (WalletService_MarkOrderPaid k w))"
  proof (cases "\<exists>ord. r = Inr (Some ord, True) \<and> ord_OrderType ord = ''topup''")
    case True
    then obtain ord where r: "r = Inr (Some ord, True)" and ty: "ord_OrderType ord = ''topup''" by blast
    have f: "find (\<lambda>x. ord_OrderNo x = k) (orders w1) = Some ord" using MarkPaid_ok(3) m r by metis
    then have k: "ord_OrderNo ord = k" using find_SomeD by fastforce
    obtain r2 w2 where tp: "WalletService_Topup (ord_AccountID ord) (ord_AmountCNY ord) k w1 = (r2, w2)" by fastforce
    have s: "snd (WalletService_MarkOrderPaid k w) = w2"
      using m r ty tp k by (cases r2) (simp_all add: WalletService_MarkOrderPaid_def bind_def wrap_def ret_def)
    note rows = Topup_rows [OF tp]
    show ?thesis
    proof (cases "no = k")
      case True
      have fire: "mark_fires k w = (True, w1)" using m r by (simp add: mark_fires_def)
      have "order_armed k w" "\<not> order_armed k w1" using paid.fire_armed [OF fire] paid.fire_disarms [OF fire] by auto
      then have "topup_rows no w1 = 0" and "\<not> order_armed no w2"
        using I t1 True rows by (auto simp: paid_once_def topup_rows_def order_armed_def)
      then have "topup_rows no w2 \<le> 1" using rows by (auto simp: topup_rows_snoc) (auto simp: topup_rows_def)
      then show ?thesis using \<open>\<not> order_armed no w2\<close> by (simp add: s paid_once_def)
    next
      case False
      then have "topup_rows no w2 = topup_rows no w1"
        using rows by (auto simp: topup_rows_snoc is_topup_of_def) (auto simp: topup_rows_def)
      then show ?thesis using I1 rows by (simp add: s paid_once_def order_armed_def)
    qed
  next
    case False
    then have "snd (WalletService_MarkOrderPaid k w) = w1" using m
      by (auto simp: WalletService_MarkOrderPaid_def bind_def ret_def fail_def split: sum.splits option.splits prod.splits)
    then show ?thesis using I1 by simp
  qed
qed

section \<open>Orders and amounts\<close>

definition amounts_ok :: "world \<Rightarrow> bool" where
  "amounts_ok w \<longleftrightarrow> (\<forall>x\<in>set (orders w). is_dec 2 (ord_AmountCNY x)) \<and> (\<forall>x\<in>set (codes w). is_dec 4 (rc_RewardValue x))"

lemma stable_amounts_ok [simp, intro]: "stable amounts_ok"
  by (simp add: stable_def amounts_ok_def)

lemma amounts_new: "ord_AmountCNY (t_cols orders_T x) = dec 2 (ord_AmountCNY x)"
  by (simp add: order_cols)

lemma keeps_amounts_leaves: "leaves orders m \<Longrightarrow> leaves codes m \<Longrightarrow> keeps amounts_ok m"
  unfolding keeps_def leaves_def amounts_ok_def by auto

lemma code_touch: "t_touch codes_T n r = r"
  by (simp add: codes_T_def)

lemma amounts_order_insert [keeps_intros]: "keeps amounts_ok (q_insert orders_T r)"
  by (rule keeps_q_insert) (auto simp: amounts_ok_def order_cols)

lemma amounts_order_update [keeps_intros]: "keeps amounts_ok (q_update orders_T P f)"
  by (rule keeps_q_update) (auto simp: amounts_ok_def order_cols set_upd_rows split: if_splits)

lemma amounts_order_save [keeps_intros]: "keeps amounts_ok (q_save orders_T key r)"
  by (rule keeps_q_save) (auto simp: amounts_ok_def order_cols set_upd_rows split: if_splits)

lemma amounts_code_insert [keeps_intros]: "keeps amounts_ok (q_insert codes_T r)"
  by (rule keeps_q_insert) (auto simp: amounts_ok_def code_cols)

lemma amounts_code_save [keeps_intros]: "keeps amounts_ok (q_save codes_T key r)"
  by (rule keeps_q_save) (auto simp: amounts_ok_def code_cols set_upd_rows split: if_splits)

lemma amounts_order_ops [keeps_intros]:
  "keeps amounts_ok (WalletRepo_CreatePaymentOrder o1)" "keeps amounts_ok (WalletRepo_UpdatePaymentOrder o1)"
  "keeps amounts_ok (WalletRepo_MarkPaymentOrderPaid no)" "keeps amounts_ok (WalletRepo_ExpireStalePendingOrders d)"
  unfolding repo_defs by (auto intro!: keeps_intros)

lemma keeps_ledger_orders:
  "keeps ledger_ok (WalletRepo_CreatePaymentOrder o1)" "keeps ledger_ok (WalletRepo_UpdatePaymentOrder o1)"
  "keeps ledger_ok (WalletRepo_MarkPaymentOrderPaid no)" "keeps ledger_ok (WalletRepo_ExpireStalePendingOrders d)"
  by (rule keeps_ledger_leaves; rule frames_orders; auto intro: leaves_intros)+

text \<open>\<open>books w\<close>: the ledger chains hold and every stored amount is on its column's grid.\<close>

definition books :: "world \<Rightarrow> bool" where
  "books w \<longleftrightarrow> ledger_ok w \<and> amounts_ok w"

lemma stable_books [simp, intro]: "stable books"
  using stable_ledger_ok stable_amounts_ok by (simp add: stable_def books_def)

lemma keeps_booksI: "keeps ledger_ok m \<Longrightarrow> keeps amounts_ok m \<Longrightarrow> keeps books m"
  by (simp add: keeps_def books_def)

lemma books_leaves:
  "leaves wallets m \<Longrightarrow> leaves transactions m \<Longrightarrow> leaves orders m \<Longrightarrow> leaves codes m \<Longrightarrow> keeps books m"
  by (intro keeps_booksI keeps_ledger_leaves keeps_amounts_leaves)

lemma Credit_leaves_codes [leaves_intros]: "leaves codes (WalletRepo_Credit a x ty d rt ri p)"
  unfolding WalletRepo_Credit_def by (auto intro!: leaves_intros)

lemma Debit_leaves_codes [leaves_intros]: "leaves codes (WalletRepo_Debit a x ty d rt ri p)"
  unfolding WalletRepo_Debit_def by (auto intro!: leaves_intros)

lemma apart_more [leaves_intros]: "apart codes vips_T"
  by (simp_all add: apart_def)

lemma Credit_books [keeps_intros]: "is_dec 4 x \<Longrightarrow> keeps books (WalletRepo_Credit a x ty d rt ri p)"
  by (intro keeps_booksI keeps_intros keeps_amounts_leaves leaves_intros)

lemma Debit_books [keeps_intros]: "is_dec 4 x \<Longrightarrow> keeps books (WalletRepo_Debit a x ty d rt ri p)"
  by (intro keeps_booksI keeps_intros keeps_amounts_leaves leaves_intros)

lemma GetOrCreate_books [keeps_intros]: "keeps books (WalletRepo_GetOrCreate a)"
  by (intro keeps_booksI keeps_intros keeps_amounts_leaves)
    (auto simp: WalletRepo_GetOrCreate_def intro!: leaves_intros)

lemma VIP_books [keeps_intros]: "keeps books (VIPService_RecalculateFromWallet a)"
  by (rule books_leaves) (auto intro!: leaves_intros)

lemma order_ops_books [keeps_intros]:
  "keeps books (WalletRepo_CreatePaymentOrder o1)" "keeps books (WalletRepo_UpdatePaymentOrder o1)"
  "keeps books (WalletRepo_MarkPaymentOrderPaid no)" "keeps books (WalletRepo_ExpireStalePendingOrders d)"
  by (auto intro!: keeps_booksI keeps_ledger_orders keeps_intros)

lemma Redeem_books [keeps_intros]: "keeps books (WalletRepo_RedeemCode a c)"
proof (rule keeps_atomic [OF _ WalletRepo_RedeemCode_def])
  fix w x w1 assume r: "WalletRepo_RedeemCode a c w = (Inr x, w1)" and b: "books w"
  then obtain rc where rc: "find (\<lambda>x. rc_Code x = c) (codes w) = Some rc" and m: "moved a (rc_RewardValue rc) x w w1"
    and cs: "codes w1 = upd_rows (\<lambda>x. rc_ID x = rc_ID rc) (\<lambda>_. t_cols codes_T (rc\<lparr>rc_UsedCount := rc_UsedCount rc + 1\<rparr>)) (codes w)"
    using Redeem_moved [OF r ledger_ok_uniq] unfolding books_def by metis
  have "is_dec 4 (rc_RewardValue rc)" using find_SomeD [OF rc] b by (auto simp: books_def amounts_ok_def)
  then have "ledger_ok w1" using ledger_ok_moved [OF m] b by (simp add: books_def)
  moreover have "orders w1 = orders w" using leavesD [OF Redeem_leaves_orders r] .
  ultimately show "books w1" using b
    by (auto simp: books_def amounts_ok_def cs set_upd_rows code_cols split: if_splits)
qed simp

lemma Topup_books [keeps_intros]: "is_dec 4 x \<Longrightarrow> keeps books (WalletService_Topup a x no)"
  unfolding WalletService_Topup_def by (intro keeps_intros)

lemma Mark_order_amount:
  assumes "WalletRepo_MarkPaymentOrderPaid k w = (Inr (Some ord, b), w1)" and "books w"
  shows "is_dec 4 (ord_AmountCNY ord)"
proof -
  have "books w1" using keepsD [OF order_ops_books(3) assms(1,2)] .
  moreover have "ord \<in> set (orders w1)" using MarkPaid_ok(3) [OF assms(1)] find_SomeD by metis
  ultimately have "is_dec 2 (ord_AmountCNY ord)" by (simp add: books_def amounts_ok_def)
  then show ?thesis by (rule is_dec_mono) simp
qed

lemma MarkOrderPaid_books [keeps_intros]: "keeps books (WalletService_MarkOrderPaid k)"
  unfolding keeps_def
proof (intro allI impI)
  fix w assume b: "books w"
  obtain r w1 where m: "WalletRepo_MarkPaymentOrderPaid k w = (r, w1)" by fastforce
  have b1: "books w1" using keepsD [OF order_ops_books(3) m b] .
  show "books (snd (WalletService_MarkOrderPaid k w))"
  proof (cases "\<exists>ord. r = Inr (Some ord, True) \<and> ord_OrderType ord = ''topup''")
    case True
    then obtain ord where r: "r = Inr (Some ord, True)" "ord_OrderType ord = ''topup''" by blast
    have "is_dec 4 (ord_AmountCNY ord)" using Mark_order_amount m r b by blast
    then have "keeps books (bind (wrap ''credit wallet'' (WalletService_Topup (ord_AccountID ord) (ord_AmountCNY ord) (ord_OrderNo ord))) (\<lambda>_. ret ord))"
      by (intro keeps_intros)
    then show ?thesis using m r b1 by (simp add: WalletService_MarkOrderPaid_def bind_def [of "WalletRepo_MarkPaymentOrderPaid k"] keeps_def)
  next
    case False
    then have "snd (WalletService_MarkOrderPaid k w) = w1" using m
      by (auto simp: WalletService_MarkOrderPaid_def bind_def ret_def fail_def split: sum.splits option.splits prod.splits)
    then show ?thesis using b1 by simp
  qed
qed

lemma generateOrderNo_leaves [leaves_intros]: "stable f \<Longrightarrow> leaves f generateOrderNo"
  unfolding generateOrderNo_def by (intro leaves_intros)

lemma generateOrderNo_keeps [keeps_intros]: "stable I \<Longrightarrow> keeps I generateOrderNo"
  by (rule keeps_leaves) (rule generateOrderNo_leaves)

lemma service_books [keeps_intros]:
  "keeps books (WalletService_CreateTopup a x m)" "keeps books (WalletService_CreateSubscriptionOrder o1)"
  "keeps books (WalletService_Redeem a c)"
  unfolding WalletService_CreateTopup_def WalletService_CreateSubscriptionOrder_def WalletService_Redeem_def
  by (auto intro!: keeps_intros)

text \<open>The other writers never add a top-up row nor re-open an order.\<close>

lemma order_insert_once [keeps_intros]: "keeps (paid_once no) (WalletRepo_CreatePaymentOrder o1)"
proof -
  have "keeps (\<lambda>w. \<not> order_armed no w) (q_insert orders_T o1)"
    by (rule keeps_q_insert) (auto simp: stable_def order_armed_def order_cols orders_T_def)
  moreover have "leaves transactions (q_insert orders_T o1)" by (auto intro!: leaves_intros)
  ultimately show ?thesis
    by (auto simp: WalletRepo_CreatePaymentOrder_def keeps_def leaves_def paid_once_def topup_rows_def split: if_splits)
qed

lemma order_expire_once [keeps_intros]: "keeps (paid_once no) (WalletRepo_ExpireStalePendingOrders d)"
proof -
  have "\<not> order_armed no w \<Longrightarrow> \<not> order_armed no (snd (WalletRepo_ExpireStalePendingOrders d w))" for w
    using order_env_keeps [of no w "ExpireOrders d"] by simp
  moreover have "leaves transactions (WalletRepo_ExpireStalePendingOrders d)"
    by (rule frames_orders) (auto intro: leaves_intros)
  ultimately show ?thesis
    by (fastforce simp: keeps_def leaves_def paid_once_def topup_rows_def split: if_splits)
qed

lemma keeps_paid_onceI:
  assumes "leaves orders m"
    and "\<And>w r w'. m w = (r, w') \<Longrightarrow> transactions w' = transactions w \<or> (\<exists>t. transactions w' = transactions w @ [t] \<and> \<not> is_topup_of no t)"
  shows "keeps (paid_once no) m"
  unfolding keeps_def
proof (intro allI impI)
  fix w assume I: "paid_once no w"
  obtain r w' where m: "m w = (r, w')" by fastforce
  have "topup_rows no w' = topup_rows no w" using assms(2) [OF m] by (auto simp: topup_rows_def)
  moreover have "orders w' = orders w" using leavesD [OF assms(1) m] .
  ultimately show "paid_once no (snd (m w))" using I m by (simp add: paid_once_def order_armed_def)
qed

lemma Credit_once [keeps_intros]:
  assumes "ty \<noteq> TxTypeTopup \<or> rt \<noteq> ''payment_order''"
  shows "keeps (paid_once no) (WalletRepo_Credit a x ty d rt ri p)"
  by (rule keeps_paid_onceI) (use assms in \<open>auto intro!: leaves_intros dest!: Credit_rows simp: is_topup_of_def\<close>)

lemma Debit_once [keeps_intros]: "keeps (paid_once no) (WalletRepo_Debit a x ty d rt ri p)"
  if "ty \<noteq> TxTypeTopup \<or> rt \<noteq> ''payment_order''"
proof (rule keeps_paid_onceI)
  fix w r w' assume d: "WalletRepo_Debit a x ty d rt ri p w = (r, w')"
  show "transactions w' = transactions w \<or> (\<exists>t. transactions w' = transactions w @ [t] \<and> \<not> is_topup_of no t)"
  proof (cases r)
    case (Inl e)
    then show ?thesis using d by (auto simp: WalletRepo_Debit_def dest!: transaction_rollback)
  next
    case (Inr tx)
    then show ?thesis using d that
      by (auto simp: WalletRepo_Debit_def ok_simps tx_fields tx_ref_fields is_topup_of_def split: if_splits)
  qed
qed (rule leaves_intros)

lemma Redeem_once [keeps_intros]: "keeps (paid_once no) (WalletRepo_RedeemCode a c)"
proof (rule keeps_paid_onceI)
  fix w r w' assume d: "WalletRepo_RedeemCode a c w = (r, w')"
  show "transactions w' = transactions w \<or> (\<exists>t. transactions w' = transactions w @ [t] \<and> \<not> is_topup_of no t)"
  proof (cases r)
    case (Inl e)
    then show ?thesis using d by (auto simp: WalletRepo_RedeemCode_def dest!: transaction_rollback)
  next
    case (Inr tx)
    then show ?thesis using d
      by (auto simp: WalletRepo_RedeemCode_def ok_simps tx_fields tx_ref_fields is_topup_of_def)
  qed
qed (rule leaves_intros)

lemma VIP_once [keeps_intros]: "keeps (paid_once no) (VIPService_RecalculateFromWallet a)"
  by (rule keeps_paid_once_leaves) (auto intro!: leaves_intros)

lemma service_once [keeps_intros]:
  "keeps (paid_once no) (WalletService_CreateTopup a x m)"
  "keeps (paid_once no) (WalletService_CreateSubscriptionOrder o1)"
  "keeps (paid_once no) (WalletService_Redeem a c)"
  unfolding WalletService_CreateTopup_def WalletService_CreateSubscriptionOrder_def WalletService_Redeem_def
  by (auto intro!: keeps_intros)

section \<open>Paying an order\<close>

text \<open>Fresh serials: the next ids are larger than every stored one.\<close>

definition fresh_ids :: "world \<Rightarrow> bool" where
  "fresh_ids w \<longleftrightarrow> 0 < seqs w ''wallet_transactions'' \<and> (\<forall>t\<in>set (transactions w). tx_ID t < seqs w ''wallet_transactions'')"

lemma Credit_succeeds:
  assumes "ledger_ok w" and "faults w = []" and "balance w a = Some b" and "fresh_ids w"
  obtains tx w' where "WalletRepo_Credit a x ty d rt ri p w = (Inr tx, w')" and "faults w' = []"
proof -
  obtain y where y: "find (\<lambda>x. wal_AccountID x = a) (wallets w) = Some y"
    using assms(3) by (auto simp: balance_def)
  note z = find_own_ID [OF ledger_ok_uniq [OF assms(1)] y]
  have "t_conflict transactions_T (t_new transactions_T (seqs w ''wallet_transactions'') n
      (WalletTransaction0\<lparr>tx_WalletID := i, tx_AccountID := a, tx_Type := ty, tx_Amount := v, tx_BalanceAfter := c,
        tx_ProductID := p, tx_ReferenceType := rt, tx_ReferenceID := ri, tx_Description := d\<rparr>)) (transactions w) = None" for n i v c
    using assms(4) by (auto simp: fresh_ids_def transactions_T_def serial_def WalletTransaction0_def)
  then have "\<exists>tx w'. WalletRepo_Credit a x ty d rt ri p w = (Inr tx, w') \<and> faults w' = []"
    using assms(2) y z
    by (auto simp: WalletRepo_Credit_def transaction_def bind_def wrap_def q_first_def q_update_def q_insert_def
        stmt_def adv_Nil rollback_same wallet_fields Let_def find_upd_rows_on)
  then show thesis using that by blast
qed

lemma ignore_ok_simp: "ignore m w = (Inr (), snd (m w))"
  by (simp add: ignore_def attempt_def ret_def split: prod.splits)

lemma VIP_leaves_wallets [leaves_intros]:
  "leaves wallets (ignore (VIPService_RecalculateFromWallet a))"
  by (auto intro!: leaves_intros)

text \<open>C2: Paying an order does what it should. When no statement fails, marking a pending top-up
  order of an account with a wallet paid succeeds, the stored order is paid with the time of
  payment, and the balance has grown by exactly the order's amount; other balances are
  unchanged.\<close>

theorem paying_credits_the_wallet:
  assumes "books w" and "faults w = []" and "fresh_ids w" and "uniq_by ord_OrderNo (orders w)"
    and "ord \<in> set (orders w)" and "ord_OrderNo ord = no" and "ord_Status ord = OrderStatusPending"
    and "ord_OrderType ord = ''topup''" and "balance w (ord_AccountID ord) = Some b"
  shows "\<exists>ord' w'. WalletService_MarkOrderPaid no w = (Inr ord', w') \<and> ord' \<in> set (orders w')
    \<and> ord_OrderNo ord' = no \<and> ord_Status ord' = OrderStatusPaid \<and> ord_PaidAt ord' = Some (clock w)
    \<and> (\<forall>c. balance w' c = (if c = ord_AccountID ord then Some (b + ord_AmountCNY ord) else balance w c))"
proof -
  let ?pay = "\<lambda>x. t_cols orders_T (t_touch orders_T (clock w) (x\<lparr>ord_Status := OrderStatusPaid, ord_PaidAt := Some (clock w)\<rparr>))"
  have f0: "find (\<lambda>x. ord_OrderNo x = no) (orders w) = Some ord" using assms(4,5,6) by (rule uniq_by_find)
  have f1: "find (\<lambda>x. ord_OrderNo x = no) (paid_rows no (clock w) (orders w)) = Some (?pay ord)"
    unfolding paid_rows_def using f0 assms(6,7) by (subst find_upd_rows_on) (auto simp: order_cols)
  have ne: "filter (\<lambda>x. ord_OrderNo x = no \<and> ord_Status x = OrderStatusPending) (orders w) \<noteq> []"
    using assms(5-7) by (auto simp: filter_empty_conv)
  let ?w1 = "orders_update (paid_rows no (clock w)) w"
  have m: "WalletRepo_MarkPaymentOrderPaid no w = (Inr (Some (?pay ord), True), ?w1)"
    using assms(2) f1 ne
    by (simp add: WalletRepo_MarkPaymentOrderPaid_def bind_def now_def q_update_def stmt_def adv_Nil opt_row_def q_first_def
        ret_def paid_rows_def [abs_def])
  have b1: "books ?w1" using keepsD [OF order_ops_books(3) m assms(1)] .
  then have l1: "ledger_ok ?w1" by (simp add: books_def)
  have amt: "is_dec 2 (ord_AmountCNY ord)" using assms(1,5) by (simp add: books_def amounts_ok_def)
  then have amt4: "is_dec 4 (ord_AmountCNY ord)" by (rule is_dec_mono) simp
  have pay: "ord_AccountID (?pay ord) = ord_AccountID ord" "ord_AmountCNY (?pay ord) = ord_AmountCNY ord"
    "ord_OrderNo (?pay ord) = no" "ord_OrderType (?pay ord) = ''topup''" "ord_Status (?pay ord) = OrderStatusPaid"
    "ord_PaidAt (?pay ord) = Some (clock w)"
    using assms(6,8) amt by (simp_all add: order_cols) (simp add: orders_T_def)
  have bal1: "balance ?w1 c = balance w c" for c by (simp add: balance_def)
  have fr: "fresh_ids ?w1" and f1w: "faults ?w1 = []" using assms(2,3) by (simp_all add: fresh_ids_def)
  obtain tx w2 where c: "WalletRepo_Credit (ord_AccountID ord) (ord_AmountCNY ord) TxTypeTopup (topup_desc (ord_AmountCNY ord))
      ''payment_order'' no '''' ?w1 = (Inr tx, w2)"
    using Credit_succeeds [OF l1 _ _ fr, of "ord_AccountID ord" b] assms(2,9) bal1 by (metis f1w)
  define w3 where "w3 = snd (ignore (VIPService_RecalculateFromWallet (ord_AccountID ord)) w2)"
  have run: "WalletService_MarkOrderPaid no w = (Inr (?pay ord), w3)"
    using m pay c by (simp add: WalletService_MarkOrderPaid_def WalletService_Topup_def bind_def wrap_def ret_def ignore_ok_simp w3_def)
  have "leaves orders (ignore (VIPService_RecalculateFromWallet (ord_AccountID ord)))" by (auto intro!: leaves_intros)
  then have "orders w3 = orders w2" by (simp add: w3_def leaves_def)
  then have o3: "orders w3 = paid_rows no (clock w) (orders w)"
    using leavesD [OF Credit_leaves_orders c] by simp
  have "balance w3 e = balance w2 e" for e
    using VIP_leaves_wallets by (simp add: w3_def balance_def leaves_def)
  moreover have "balance w2 e = (if e = ord_AccountID ord then Some (b + ord_AmountCNY ord) else balance w e)" for e
    using balance_moved [OF Credit_moved [OF c ledger_ok_uniq [OF l1]] l1, of e] bal1 assms(9)
      balance_is_dec [OF l1, of "ord_AccountID ord" b] amt4 by (auto simp: dec_add)
  moreover have "?pay ord \<in> set (orders w3)" using find_SomeD [OF f1] o3 by simp
  ultimately show ?thesis using run pay by (intro exI [of _ "?pay ord"] exI [of _ w3]) simp
qed

theorem paying_credits_the_wallet_witness:
  "\<exists>ord' w'. WalletService_MarkOrderPaid ''LO1'' demo = (Inr ord', w') \<and> ord_Status ord' = OrderStatusPaid
    \<and> balance w' 7 = Some 130"
proof -
  have b: "books demo" using demo_ok(1)
    by (simp add: books_def amounts_ok_def) (simp add: demo_def PaymentOrder0_def RedemptionCode0_def is_dec_def)
  have f: "fresh_ids demo" by (simp add: fresh_ids_def demo_def WalletTransaction0_def)
  show ?thesis
    using paying_credits_the_wallet [OF b _ f, of "hd (orders demo)" "''LO1''" 100] demo_balance(1)
    by (auto simp: demo_def world0_def PaymentOrder0_def uniq_by_def)
qed

text \<open>C17: A payment is lost when the statement after the status update fails. If the UPDATE of
  \<open>MarkPaymentOrderPaid\<close> succeeds and the following SELECT errors, the call fails with the
  order already paid, and no later call for the order, in any interleaving, makes the
  transition that would credit the wallet.\<close>

theorem payment_lost_after_failed_select:
  assumes "faults w = False # True # fs" and "ord \<in> set (orders w)" and "ord_OrderNo ord = no"
    and "ord_Status ord = OrderStatusPending"
  shows "\<exists>w1. WalletService_MarkOrderPaid no w = (Inl EDb, w1) \<and> transactions w1 = transactions w
    \<and> (\<exists>x\<in>set (orders w1). ord_OrderNo x = no \<and> ord_Status x = OrderStatusPaid)
    \<and> wins mark_fires order_env_step no xs w1 = 0"
proof -
  define w1 where "w1 = (orders_update (paid_rows no (clock w)) w)\<lparr>faults := fs\<rparr>"
  have m: "WalletRepo_MarkPaymentOrderPaid no w = (Inl EDb, w1)"
    using assms(1)
    by (simp add: WalletRepo_MarkPaymentOrderPaid_def bind_def now_def q_update_def stmt_def opt_row_def q_first_def
        faulty_def adv_def paid_rows_def [abs_def] w1_def)
  have d: "\<not> order_armed no w1" using assms(2,3) by (rule paid_rows_disarms) (simp add: w1_def)
  have "t_cols orders_T (t_touch orders_T (clock w) (ord\<lparr>ord_Status := OrderStatusPaid, ord_PaidAt := Some (clock w)\<rparr>)) \<in> set (orders w1)"
    using upd_rows_mem [OF assms(2), of "\<lambda>x. ord_OrderNo x = no \<and> ord_Status x = OrderStatusPending"
        "\<lambda>x. t_cols orders_T (t_touch orders_T (clock w) (x\<lparr>ord_Status := OrderStatusPaid, ord_PaidAt := Some (clock w)\<rparr>))"] assms(3,4)
    by (simp add: w1_def paid_rows_def)
  then have "\<exists>x\<in>set (orders w1). ord_OrderNo x = no \<and> ord_Status x = OrderStatusPaid"
    using assms(3) by (rule_tac bexI) (simp_all add: order_cols)
  then show ?thesis using m paid.wins_disarmed [OF d]
    by (intro exI [of _ w1]) (simp add: WalletService_MarkOrderPaid_def bind_def w1_def)
qed

theorem payment_lost_after_failed_select_witness:
  "\<exists>w1. WalletService_MarkOrderPaid ''LO1'' (demo\<lparr>faults := [False, True]\<rparr>) = (Inl EDb, w1)
    \<and> transactions w1 = transactions demo"
  using payment_lost_after_failed_select [of "demo\<lparr>faults := [False, True]\<rparr>" "[]" "hd (orders demo)" "''LO1''" "[]"]
  by (auto simp: demo_def PaymentOrder0_def)

text \<open>Amounts off the column's grid break the books. A debit of half a unit in the last
  place is reported and leaves the balance unchanged, while its ledger row is rounded away from
  zero: the chain of the account no longer ends in its balance.\<close>

theorem half_unit_debit_breaks_chain:
  "ledger_ok demo
   \<and> (case WalletRepo_Debit 7 (5 / 100000) TxTypeProductPurchase '''' '''' '''' '''' demo of
        (Inr tx, w') \<Rightarrow> balance w' 7 = balance demo 7 \<and> tx_Amount tx = - 5 / 100000 \<and> \<not> ledger_ok w'
      | _ \<Rightarrow> False)"
  using demo_ok(1) by code_simp

end
