(* ===== verification/Accounts.thy ===== *)
theory Accounts
  imports WalletService
begin

text \<open>
  \<^verbatim>\<open>adapter/repo/account.go\<close> and \<^verbatim>\<open>app/account_service.go\<close>: lookup of
  accounts by every identity they carry, and the sign-in flows that find or create one. The
  lemmas show that a first sign-in creates exactly one account with its wallet, VIP row and
  readable number, that a second one finds it, and what a half-made account does to the rest.
\<close>

section \<open>Repository\<close>

text \<open>\<^verbatim>\<open>LIKE\<close>: \<^verbatim>\<open>%\<close> stands for any text, \<^verbatim>\<open>_\<close> for any character, a
  backslash quotes.\<close>

fun like_match :: "string \<Rightarrow> string \<Rightarrow> bool" where
  "like_match [] s \<longleftrightarrow> s = []"
| "like_match (p # ps) [] \<longleftrightarrow> p = CHR ''%'' \<and> like_match ps []"
| "like_match (p # ps) (c # cs) \<longleftrightarrow>
     (if p = CHR ''%'' then like_match ps (c # cs) \<or> like_match (p # ps) cs
      else if p = CHR ''_'' then like_match ps cs
      else if p = CHR 0x5C then (case ps of [] \<Rightarrow> False | q # qs \<Rightarrow> q = c \<and> like_match qs cs)
      else p = c \<and> like_match ps cs)"

definition ilike :: "string \<Rightarrow> string \<Rightarrow> bool" where
  "ilike pat s = like_match (ToLower pat) (ToLower s)"

definition AccountRepo_Create :: "Account \<Rightarrow> Account op" where
  "AccountRepo_Create a = q_insert accounts_T a"

definition AccountRepo_Update :: "Account \<Rightarrow> unit op" where
  "AccountRepo_Update a = q_save accounts_T acc_ID a"

definition AccountRepo_GetByID :: "int \<Rightarrow> Account option op" where
  "AccountRepo_GetByID i = opt_row (q_first accounts_T (\<lambda>a. acc_ID a = i))"

definition AccountRepo_GetByEmail :: "string \<Rightarrow> Account option op" where
  "AccountRepo_GetByEmail email = opt_row (q_first accounts_T (\<lambda>a. acc_Email a = email))"

definition AccountRepo_GetByZitadelSub :: "string \<Rightarrow> Account option op" where
  "AccountRepo_GetByZitadelSub sub = opt_row (q_first accounts_T (\<lambda>a. acc_ZitadelSub a = sub))"

definition AccountRepo_GetByLurusID :: "string \<Rightarrow> Account option op" where
  "AccountRepo_GetByLurusID lurusID = opt_row (q_first accounts_T (\<lambda>a. acc_LurusID a = lurusID))"

definition AccountRepo_GetByAffCode :: "string \<Rightarrow> Account option op" where
  "AccountRepo_GetByAffCode code = opt_row (q_first accounts_T (\<lambda>a. acc_AffCode a = code))"

definition AccountRepo_GetByUsername :: "string \<Rightarrow> Account option op" where
  "AccountRepo_GetByUsername username =
     opt_row (q_first accounts_T (\<lambda>a. ToLower (acc_Username a) = ToLower username))"

definition AccountRepo_GetByPhone :: "string \<Rightarrow> Account option op" where
  "AccountRepo_GetByPhone phone = opt_row (q_first accounts_T (\<lambda>a. acc_Phone a = phone \<and> acc_Phone a \<noteq> ''''))"

definition AccountRepo_List :: "string \<Rightarrow> int \<Rightarrow> int \<Rightarrow> (Account list \<times> int) op" where
  "AccountRepo_List keyword page pageSize =
     (let like = ''%'' @ keyword @ ''%'' in
      q_page accounts_T (\<lambda>a. keyword = '''' \<or> ilike like (acc_Email a) \<or> ilike like (acc_DisplayName a))
        acc_ID page pageSize)"

definition AccountRepo_UpsertOAuthBinding :: "OAuthBinding \<Rightarrow> unit op" where
  "AccountRepo_UpsertOAuthBinding b =
     q_assign_or_create bindings_T (\<lambda>x. oab_Provider x = oab_Provider b \<and> oab_ProviderID x = oab_ProviderID b) oab_ID
       (\<lambda>x. x\<lparr>oab_AccountID := (if oab_AccountID b = 0 then oab_AccountID x else oab_AccountID b),
              oab_ProviderEmail := (if oab_ProviderEmail b = '''' then oab_ProviderEmail x else oab_ProviderEmail b)\<rparr>) b"

definition AccountRepo_GetByOAuthBinding :: "string \<Rightarrow> string \<Rightarrow> Account option op" where
  "AccountRepo_GetByOAuthBinding provider providerID =
     bind (wrap ''get oauth binding'' (opt_row (q_first bindings_T
        (\<lambda>x. oab_Provider x = provider \<and> oab_ProviderID x = providerID)))) (\<lambda>b. case b of
       None \<Rightarrow> ret None
     | Some binding \<Rightarrow> AccountRepo_GetByID (oab_AccountID binding))"

definition AccountRepo_GetOAuthBindings :: "int \<Rightarrow> OAuthBinding list op" where
  "AccountRepo_GetOAuthBindings accountID = q_find bindings_T (\<lambda>x. oab_AccountID x = accountID)"

section \<open>Service\<close>

definition generateAffCode :: "string op" where
  "generateAffCode = draw"

text \<open>What every new account gets: its number, which needs its id, its wallet and its VIP row.\<close>

definition AccountService_UpsertByZitadelSub :: "string \<Rightarrow> string \<Rightarrow> string \<Rightarrow> string \<Rightarrow> Account op" where
  "AccountService_UpsertByZitadelSub sub email displayName avatarURL =
     bind (wrap ''lookup by sub'' (AccountRepo_GetByZitadelSub sub)) (\<lambda>a1. case a1 of
       Some a \<Rightarrow>
        (let a' = a\<lparr>acc_DisplayName := displayName, acc_AvatarURL := avatarURL\<rparr> in
         bind (wrap ''update account'' (AccountRepo_Update a')) (\<lambda>_. ret a'))
     | None \<Rightarrow>
     bind (wrap ''lookup by email'' (AccountRepo_GetByEmail email)) (\<lambda>a2. case a2 of
       Some a \<Rightarrow>
        (let a' = a\<lparr>acc_ZitadelSub := sub, acc_DisplayName := displayName, acc_AvatarURL := avatarURL\<rparr> in
         bind (wrap ''link zitadel sub'' (AccountRepo_Update a')) (\<lambda>_. ret a'))
     | None \<Rightarrow>
     bind (wrap ''generate aff code'' generateAffCode) (\<lambda>affCode.
     bind (wrap ''create account'' (AccountRepo_Create (Account0\<lparr>acc_ZitadelSub := sub, acc_Email := email,
        acc_DisplayName := displayName, acc_AvatarURL := avatarURL, acc_AffCode := affCode,
        acc_Status := AccountStatusActive\<rparr>))) (\<lambda>a.
     let a' = a\<lparr>acc_LurusID := GenerateLurusID (acc_ID a)\<rparr> in
     bind (wrap ''set lurus_id'' (AccountRepo_Update a')) (\<lambda>_.
     bind (wrap ''create wallet'' (WalletRepo_GetOrCreate (acc_ID a'))) (\<lambda>_.
     bind (wrap ''create vip'' (VIPRepo_GetOrCreate (acc_ID a'))) (\<lambda>_.
     ret a')))))))"

definition AccountService_GetByID :: "int \<Rightarrow> Account option op" where
  "AccountService_GetByID i = AccountRepo_GetByID i"

definition AccountService_GetByEmail :: "string \<Rightarrow> Account option op" where
  "AccountService_GetByEmail email = AccountRepo_GetByEmail email"

definition AccountService_GetByPhone :: "string \<Rightarrow> Account option op" where
  "AccountService_GetByPhone phone = AccountRepo_GetByPhone phone"

definition AccountService_GetByZitadelSub :: "string \<Rightarrow> Account option op" where
  "AccountService_GetByZitadelSub sub = AccountRepo_GetByZitadelSub sub"

definition AccountService_Update :: "Account \<Rightarrow> unit op" where
  "AccountService_Update a = AccountRepo_Update a"

definition AccountService_List :: "string \<Rightarrow> int \<Rightarrow> int \<Rightarrow> (Account list \<times> int) op" where
  "AccountService_List keyword page pageSize = AccountRepo_List keyword page pageSize"

definition AccountService_BindOAuth :: "int \<Rightarrow> string \<Rightarrow> string \<Rightarrow> string \<Rightarrow> unit op" where
  "AccountService_BindOAuth accountID provider providerID providerEmail =
     AccountRepo_UpsertOAuthBinding (OAuthBinding0\<lparr>oab_AccountID := accountID, oab_Provider := provider,
       oab_ProviderID := providerID, oab_ProviderEmail := providerEmail\<rparr>)"

text \<open>The display name is the UTF-8 text of the four Chinese characters of the source.\<close>

definition wechat_name :: string where
  "wechat_name = map char_of [229, 190, 174, 228, 191, 161, 231, 148, 168, 230, 136, 183 :: nat]"

definition AccountService_UpsertByWechat :: "string \<Rightarrow> Account op" where
  "AccountService_UpsertByWechat wechatID =
     (if wechatID = '''' then fail (EMsg ''wechat: empty wechatID'') else
      bind (wrap ''oauth binding lookup'' (AccountRepo_GetByOAuthBinding ''wechat'' wechatID)) (\<lambda>a1. case a1 of
        Some a \<Rightarrow> ret a
      | None \<Rightarrow>
      bind (wrap ''generate aff code'' generateAffCode) (\<lambda>affCode.
      bind (wrap ''create wechat account'' (AccountRepo_Create (Account0\<lparr>acc_ZitadelSub := ''wechat:'' @ wechatID,
         acc_Email := ''wechat.'' @ wechatID @ ''@noreply.lurus.cn'', acc_DisplayName := wechat_name,
         acc_AffCode := affCode, acc_Status := AccountStatusActive\<rparr>))) (\<lambda>a.
      let a' = a\<lparr>acc_LurusID := GenerateLurusID (acc_ID a)\<rparr> in
      bind (wrap ''set lurus_id'' (AccountRepo_Update a')) (\<lambda>_.
      bind (wrap ''create oauth binding'' (AccountRepo_UpsertOAuthBinding (OAuthBinding0\<lparr>oab_AccountID := acc_ID a',
         oab_Provider := ''wechat'', oab_ProviderID := wechatID\<rparr>))) (\<lambda>_.
      bind (wrap ''create wallet'' (WalletRepo_GetOrCreate (acc_ID a'))) (\<lambda>_.
      bind (wrap ''create vip'' (VIPRepo_GetOrCreate (acc_ID a'))) (\<lambda>_.
      ret a'))))))))"

definition AccountService_GetByOAuthBinding :: "string \<Rightarrow> string \<Rightarrow> Account option op" where
  "AccountService_GetByOAuthBinding provider providerID = AccountRepo_GetByOAuthBinding provider providerID"

definition AccountService_GetByAffCode :: "string \<Rightarrow> Account option op" where
  "AccountService_GetByAffCode code = AccountRepo_GetByAffCode code"

section \<open>Numbers and uniqueness\<close>

lemma pad_int_val: "0 \<le> n \<Longrightarrow> digits_val (pad_int k n) = n"
  by (simp add: pad_int_def Let_def digits_val_zeros digits_val_digits_of)

lemma GenerateLurusID_inj: "0 \<le> m \<Longrightarrow> 0 \<le> n \<Longrightarrow> GenerateLurusID m = GenerateLurusID n \<longleftrightarrow> m = n"
  by (auto simp: GenerateLurusID_def) (metis pad_int_val)

lemma GenerateLurusID_nonempty [simp]: "GenerateLurusID n \<noteq> []" "[] \<noteq> GenerateLurusID n"
  by (simp_all add: GenerateLurusID_def)

text \<open>Every account has its readable number, and ids are handed out in order.\<close>

definition accounts_ok :: "world \<Rightarrow> bool" where
  "accounts_ok w \<longleftrightarrow> uniq_by acc_ID (accounts w) \<and> 0 < seqs w ''accounts''
     \<and> (\<forall>x\<in>set (accounts w). 0 < acc_ID x \<and> acc_ID x < seqs w ''accounts'' \<and> acc_LurusID x = GenerateLurusID (acc_ID x))"

definition same_contact :: "Account \<Rightarrow> Account \<Rightarrow> bool" where
  "same_contact r x \<longleftrightarrow> acc_ZitadelSub x = acc_ZitadelSub r \<or> acc_AffCode x = acc_AffCode r \<or> acc_Email x = acc_Email r
     \<or> (acc_Phone r \<noteq> '''' \<and> acc_Phone x = acc_Phone r)
     \<or> (acc_Username r \<noteq> '''' \<and> acc_Username x \<noteq> '''' \<and> ToLower (acc_Username x) = ToLower (acc_Username r))"

lemma account_conflict: "t_conflict accounts_T r t = None \<longleftrightarrow>
   (\<forall>x\<in>set t. acc_ID x \<noteq> acc_ID r \<and> acc_LurusID x \<noteq> acc_LurusID r \<and> \<not> same_contact r x)"
  by (auto simp: accounts_T_def same_contact_def)

lemma account_cols: "t_cols accounts_T r = r" "t_get accounts_T = accounts" "t_upd accounts_T = accounts_update"
  "t_name accounts_T = ''accounts''"
  "acc_ID (t_touch accounts_T n r) = acc_ID r" "acc_LurusID (t_touch accounts_T n r) = acc_LurusID r"
  "acc_ZitadelSub (t_touch accounts_T n r) = acc_ZitadelSub r" "acc_Email (t_touch accounts_T n r) = acc_Email r"
  "same_contact (t_touch accounts_T n r) x = same_contact r x"
  by (simp_all add: accounts_T_def same_contact_def)

lemma account_new:
  "acc_ID r = 0 \<Longrightarrow> acc_ID (t_new accounts_T i n r) = i" "acc_LurusID (t_new accounts_T i n r) = acc_LurusID r"
  "same_contact (t_new accounts_T i n r) x = same_contact r x"
  "acc_ZitadelSub (t_new accounts_T i n r) = acc_ZitadelSub r" "acc_Email (t_new accounts_T i n r) = acc_Email r"
  "acc_ReferrerID (t_new accounts_T i n r) = acc_ReferrerID r"
  by (simp_all add: accounts_T_def same_contact_def serial_def)

text \<open>Creating an account and giving it its number, when nothing fails.\<close>

lemma create_account_calm:
  assumes "faults w = []" and "acc_ID r = 0" "acc_LurusID r = ''''"
    and "accounts_ok w" and "\<forall>x\<in>set (accounts w). \<not> same_contact r x"
  defines "i \<equiv> seqs w ''accounts''"
  defines "a \<equiv> t_new accounts_T i (clock w) r"
  defines "a' \<equiv> a\<lparr>acc_LurusID := GenerateLurusID i\<rparr>"
  defines "w1 \<equiv> accounts_update (\<lambda>t. t @ [a]) (w\<lparr>seqs := (seqs w)(''accounts'' := i + 1)\<rparr>)"
  defines "w2 \<equiv> accounts_update (\<lambda>t. t @ [t_touch accounts_T (clock w) a']) (w\<lparr>seqs := (seqs w)(''accounts'' := i + 1)\<rparr>)"
  shows "AccountRepo_Create r w = (Inr a, w1)" and "AccountRepo_Update a' w1 = (Inr (), w2)" and "accounts_ok w2"
proof -
  have a: "acc_ID a = i" "acc_ID a' = i" by (simp_all add: a_def a'_def account_new assms(2))
  have i: "0 < i" "\<forall>x\<in>set (accounts w). 0 < acc_ID x \<and> acc_ID x < i \<and> acc_LurusID x = GenerateLurusID (acc_ID x)"
    using assms(4) by (auto simp: accounts_ok_def i_def)
  have "t_conflict accounts_T a (accounts w) = None" unfolding account_conflict
    using i a assms(3,5) by (auto simp: a_def account_new)
  then show "AccountRepo_Create r w = (Inr a, w1)" unfolding AccountRepo_Create_def w1_def a_def i_def
    using assms(1) by (subst calm_insert [OF _ refl]) (simp_all add: account_cols)
  have others: "filter (\<lambda>x. acc_ID x \<noteq> i) (accounts w @ [a]) = accounts w" using i a by (auto simp: filter_id_conv)
  have "same_contact a' x = same_contact r x" for x by (simp add: a'_def a_def same_contact_def accounts_T_def)
  then have "t_conflict accounts_T (t_touch accounts_T (clock w) a') (accounts w) = None" unfolding account_conflict
    using i a assms(5) GenerateLurusID_inj by (auto simp: account_cols a'_def)
  moreover have "upd_rows (\<lambda>x. acc_ID x = i) (\<lambda>_. t_touch accounts_T (clock w) a') (accounts w) = accounts w"
    using i by (intro upd_rows_none) (auto simp: filter_empty_conv)
  ultimately show "AccountRepo_Update a' w1 = (Inr (), w2)" unfolding AccountRepo_Update_def w1_def w2_def
    using assms(1) others a by (subst calm_save [where x = a, OF _ refl]) (simp_all add: account_cols)
  show "accounts_ok w2" using assms(4) i a
    by (auto simp: accounts_ok_def w2_def uniq_by_def account_cols a'_def)
qed

lemma wallet_made:
  assumes "faults w = []" and "\<forall>x\<in>set (wallets w). wal_ID x < seqs w ''wallets''"
  shows "\<exists>y w1. WalletRepo_GetOrCreate a w = (Inr y, w1) \<and> find (\<lambda>x. wal_AccountID x = a) (wallets w1) \<noteq> None
    \<and> (\<exists>W S. w1 = w\<lparr>wallets := W, seqs := S\<rparr> \<and> S ''accounts'' = seqs w ''accounts'' \<and> (\<forall>x\<in>set W. wal_ID x < S ''wallets''))"
proof (cases "find (\<lambda>x. wal_AccountID x = a) (wallets w)")
  case (Some y)
  then show ?thesis using assms
    by (intro exI [of _ y] exI [of _ w])
      (auto simp: WalletRepo_GetOrCreate_def q_first_or_create_def calm intro!: exI [of _ "wallets w"] exI [of _ "seqs w"])
next
  case None
  let ?i = "seqs w ''wallets''"
  let ?r = "t_new wallets_T ?i (clock w) (Wallet0\<lparr>wal_AccountID := a\<rparr>)"
  have r: "wal_ID ?r = ?i" "wal_AccountID ?r = a" "t_cols wallets_T ?r = ?r"
    by (simp_all add: wallets_T_def serial_def Wallet0_def)
  have "t_conflict wallets_T ?r (wallets w) = None"
    using assms(2) find_NoneD [OF None] r by (auto simp: wallets_T_def)
  then have "WalletRepo_GetOrCreate a w = (Inr ?r, wallets_update (\<lambda>t. t @ [?r])
      (w\<lparr>seqs := (seqs w)(''wallets'' := ?i + 1)\<rparr>))"
    unfolding WalletRepo_GetOrCreate_def q_first_or_create_def using assms(1) None
    by (simp add: calm) (subst calm_insert [OF _ refl], simp_all add: r)
  moreover have "\<forall>x\<in>set (wallets w). wal_ID x < ?i + 1" using assms(2) by force
  ultimately show ?thesis using r
    by (auto simp: find_append None intro!: exI [of _ "wallets w @ [?r]"] exI [of _ "(seqs w)(''wallets'' := ?i + 1)"])
qed

lemma vip_made:
  assumes "faults w = []"
  shows "\<exists>y w1. VIPRepo_GetOrCreate a w = (Inr y, w1) \<and> find (\<lambda>x. vip_AccountID x = a) (vips w1) \<noteq> None
    \<and> (\<exists>V S. w1 = w\<lparr>vips := V, seqs := S\<rparr> \<and> S ''accounts'' = seqs w ''accounts'' \<and> S ''wallets'' = seqs w ''wallets'')"
proof (cases "find (\<lambda>x. vip_AccountID x = a) (vips w)")
  case (Some y)
  then show ?thesis using assms
    by (intro exI [of _ y] exI [of _ w])
      (auto simp: VIPRepo_GetOrCreate_def q_first_or_create_def calm intro!: exI [of _ "vips w"] exI [of _ "seqs w"])
next
  case None
  let ?i = "seqs w ''account_vip''"
  let ?r = "t_new vips_T ?i (clock w) (AccountVIP0\<lparr>vip_AccountID := a\<rparr>)"
  have r: "vip_AccountID ?r = a" "t_cols vips_T ?r = ?r" by (simp_all add: vip_cols)
  have "t_conflict vips_T ?r (vips w) = None" using find_NoneD [OF None] by (auto simp: vips_T_def)
  then have "VIPRepo_GetOrCreate a w = (Inr ?r, vips_update (\<lambda>t. t @ [?r])
      (w\<lparr>seqs := (seqs w)(''account_vip'' := ?i + 1)\<rparr>))"
    unfolding VIPRepo_GetOrCreate_def q_first_or_create_def using assms(1) None
    by (simp add: calm) (subst calm_insert [OF _ refl], simp_all add: r)
  then show ?thesis using r
    by (auto simp: find_append None intro!: exI [of _ "vips w @ [?r]"] exI [of _ "(seqs w)(''account_vip'' := ?i + 1)"])
qed

text \<open>The three steps together: what a sign-up adds.\<close>

definition signed_up :: "Account \<Rightarrow> world \<Rightarrow> world \<Rightarrow> bool" where
  "signed_up a w w' \<longleftrightarrow> accounts_ok w' \<and> acc_LurusID a = GenerateLurusID (acc_ID a)
     \<and> accounts w' = accounts w @ [t_touch accounts_T (clock w) a]
     \<and> find (\<lambda>x. wal_AccountID x = acc_ID a) (wallets w') \<noteq> None
     \<and> find (\<lambda>x. vip_AccountID x = acc_ID a) (vips w') \<noteq> None \<and> faults w' = [] \<and> clock w' = clock w"

text \<open>Saving an account whose unique fields nobody else has.\<close>

lemma save_account_calm:
  assumes "faults w = []" and "t \<in> set (accounts w)" and "acc_ID b = acc_ID t"
    and "\<forall>x\<in>set (accounts w). acc_ID x \<noteq> acc_ID t \<longrightarrow> \<not> same_contact b x \<and> acc_LurusID x \<noteq> acc_LurusID b"
  shows "AccountRepo_Update b w = (Inr (), accounts_update (upd_rows (\<lambda>x. acc_ID x = acc_ID t) (\<lambda>_. t_touch accounts_T (clock w) b)) w)"
proof -
  have "t_conflict accounts_T (t_touch accounts_T (clock w) b) (filter (\<lambda>x. acc_ID x \<noteq> acc_ID b) (accounts w)) = None"
    unfolding account_conflict using assms(3,4) by (auto simp: account_cols)
  then show ?thesis unfolding AccountRepo_Update_def using assms(1-3)
    by (subst calm_save [where x = t, OF _ refl]) (simp_all add: account_cols)
qed

lemma map_acc_ID_put: "acc_ID b = i \<Longrightarrow> map acc_ID (upd_rows (\<lambda>x. acc_ID x = i) (\<lambda>_. t_touch accounts_T n b) t) = map acc_ID t"
  by (simp add: upd_rows_def account_cols)

lemma sign_in_known:
  assumes "faults w = []" and "find (\<lambda>x. acc_ZitadelSub x = sub) (accounts w) = Some t"
    and "\<forall>x\<in>set (accounts w). acc_ID x \<noteq> acc_ID t \<longrightarrow> \<not> same_contact t x \<and> acc_LurusID x \<noteq> acc_LurusID t"
  shows "\<exists>b w'. AccountService_UpsertByZitadelSub sub email name url w = (Inr b, w')
    \<and> acc_ID b = acc_ID t \<and> map acc_ID (accounts w') = map acc_ID (accounts w)"
proof -
  let ?b = "t\<lparr>acc_DisplayName := name, acc_AvatarURL := url\<rparr>"
  have "t \<in> set (accounts w)" using find_SomeD [OF assms(2)] by simp
  moreover have "same_contact ?b x = same_contact t x" for x by (simp add: same_contact_def)
  ultimately have "AccountRepo_Update ?b w
      = (Inr (), accounts_update (upd_rows (\<lambda>x. acc_ID x = acc_ID t) (\<lambda>_. t_touch accounts_T (clock w) ?b)) w)"
    using assms(1,3) by (intro save_account_calm) simp_all
  then show ?thesis using assms(1,2) map_acc_ID_put [of ?b]
    by (simp add: AccountService_UpsertByZitadelSub_def AccountRepo_GetByZitadelSub_def calm account_cols Let_def)
qed


definition demo_accounts :: world where
  "demo_accounts = world0\<lparr>accounts := [Account0\<lparr>acc_ID := 1, acc_LurusID := ''LU0000001'', acc_ZitadelSub := ''z1'',
      acc_Username := ''alice'', acc_AffCode := ''aa'', acc_Status := 1\<rparr>], seqs := (\<lambda>_. 2), entropy := [''bb'', ''cc''], clock := 5\<rparr>"

lemma demo_accounts_ok:
  "accounts_ok demo_accounts" "faults demo_accounts = []" "entropy demo_accounts = ''bb'' # [''cc'']"
  "wallets demo_accounts = []" "seqs demo_accounts ''accounts'' = 2"
proof -
  have "GenerateLurusID 1 = ''LU0000001''" by code_simp
  then show "accounts_ok demo_accounts"
    by (simp add: accounts_ok_def uniq_by_def demo_accounts_def world0_def Account0_def)
qed (simp_all add: demo_accounts_def world0_def)


text \<open>A token without an e-mail takes over another account. Accounts registered by user name or
  phone carry the empty e-mail; when an unknown subject signs in and its token has no e-mail
  claim, the fall-back lookup by e-mail finds such an account, hands it to the caller and
  overwrites its subject, so its owner is locked out.\<close>

theorem empty_email_takes_over_account:
  assumes "faults w = []" and "find (\<lambda>x. acc_ZitadelSub x = sub) (accounts w) = None"
    and "find (\<lambda>x. acc_Email x = '''') (accounts w) = Some victim"
    and "\<forall>x\<in>set (accounts w). acc_ID x \<noteq> acc_ID victim \<longrightarrow>
           \<not> same_contact victim x \<and> acc_LurusID x \<noteq> acc_LurusID victim"
  shows "\<exists>a w'. AccountService_UpsertByZitadelSub sub '''' name url w = (Inr a, w')
    \<and> acc_ID a = acc_ID victim \<and> acc_ZitadelSub a = sub
    \<and> (sub \<noteq> acc_ZitadelSub victim \<longrightarrow> find (\<lambda>x. acc_ZitadelSub x = acc_ZitadelSub victim) (accounts w') = None)"
proof -
  let ?b = "victim\<lparr>acc_ZitadelSub := sub, acc_DisplayName := name, acc_AvatarURL := url\<rparr>"
  let ?w' = "accounts_update (upd_rows (\<lambda>x. acc_ID x = acc_ID victim) (\<lambda>_. t_touch accounts_T (clock w) ?b)) w"
  have v: "victim \<in> set (accounts w)" "acc_Email victim = ''''" using find_SomeD [OF assms(3)] by simp_all
  have "\<not> same_contact ?b x" if "x \<in> set (accounts w)" "acc_ID x \<noteq> acc_ID victim" for x
    using that assms(4) find_NoneD [OF assms(2) that(1)] by (auto simp: same_contact_def)
  then have "AccountRepo_Update ?b w = (Inr (), ?w')"
    using v(1) assms(1,4) by (intro save_account_calm) auto
  then have "AccountService_UpsertByZitadelSub sub '''' name url w = (Inr ?b, ?w')"
    using assms(1-3)
    by (simp add: AccountService_UpsertByZitadelSub_def AccountRepo_GetByZitadelSub_def AccountRepo_GetByEmail_def
      calm account_cols Let_def)
  moreover have "find (\<lambda>x. acc_ZitadelSub x = acc_ZitadelSub victim) (accounts ?w') = None" if "sub \<noteq> acc_ZitadelSub victim"
    using that assms(4) by (auto simp: find_None_iff set_upd_rows account_cols same_contact_def)
  ultimately show ?thesis by (intro exI [of _ ?b] exI [of _ ?w']) simp
qed

theorem empty_email_takes_over_account_witness:
  "\<exists>a w'. AccountService_UpsertByZitadelSub ''mallory'' '''' ''M'' '''' demo_accounts = (Inr a, w')
    \<and> acc_ID a = 1 \<and> acc_ZitadelSub a = ''mallory'' \<and> find (\<lambda>x. acc_ZitadelSub x = ''z1'') (accounts w') = None"
proof -
  let ?v = "hd (accounts demo_accounts)"
  have v: "accounts demo_accounts = [?v]" "acc_ID ?v = 1" "acc_ZitadelSub ?v = ''z1''" "acc_Email ?v = ''''"
    by (simp_all add: demo_accounts_def world0_def Account0_def)
  have f: "find (\<lambda>x. acc_ZitadelSub x = ''mallory'') (accounts demo_accounts) = None"
    "find (\<lambda>x. acc_Email x = '''') (accounts demo_accounts) = Some ?v" by (subst v(1), simp add: v(2-4))+
  have "\<forall>x\<in>set (accounts demo_accounts). acc_ID x \<noteq> acc_ID ?v \<longrightarrow> \<not> same_contact ?v x \<and> acc_LurusID x \<noteq> acc_LurusID ?v"
    by (subst v(1)) simp
  from empty_email_takes_over_account [OF demo_accounts_ok(2) f this, where name = "''M''" and url = "''''"]
  obtain a w' where r: "AccountService_UpsertByZitadelSub ''mallory'' '''' ''M'' '''' demo_accounts = (Inr a, w')"
    "acc_ID a = acc_ID ?v" "acc_ZitadelSub a = ''mallory''"
    "''mallory'' \<noteq> acc_ZitadelSub ?v \<longrightarrow> find (\<lambda>x. acc_ZitadelSub x = acc_ZitadelSub ?v) (accounts w') = None" by blast
  have "find (\<lambda>x. acc_ZitadelSub x = ''z1'') (accounts w') = None" using r(4) unfolding v(3) by simp
  with r(1-3) v(2) show ?thesis by (intro exI [of _ a] exI [of _ w']) simp
qed

text \<open>A half-made account stops every later one. The number of an account is written after its
  insertion; if that update fails, a row with the empty number stays behind, and from then on the
  unique constraint refuses every new account, whoever signs in.\<close>

theorem unnumbered_account_blocks_sign_ups:
  assumes "faults w = []" and "entropy w = aff # rest"
    and "orphan \<in> set (accounts w)" and "acc_LurusID orphan = ''''"
    and "\<forall>x\<in>set (accounts w). acc_ZitadelSub x \<noteq> sub \<and> acc_Email x \<noteq> email \<and> acc_ID x \<noteq> seqs w ''accounts''"
  shows "\<exists>w'. AccountService_UpsertByZitadelSub sub email name url w
       = (Inl (EWrap ''create account'' (EUnique ''accounts_lurus_id_key'')), w')
    \<and> accounts w' = accounts w"
proof -
  have none: "find (\<lambda>x. acc_ZitadelSub x = sub) (accounts w) = None" "find (\<lambda>x. acc_Email x = email) (accounts w) = None"
    using assms(5) by (auto simp: find_None_iff)
  have "t_conflict accounts_T (t_new accounts_T (seqs w ''accounts'') n (Account0\<lparr>acc_ZitadelSub := sub, acc_Email := email,
      acc_DisplayName := name, acc_AvatarURL := url, acc_AffCode := aff, acc_Status := AccountStatusActive\<rparr>)) (accounts w)
      = Some ''accounts_lurus_id_key''" for n
    using assms(3-5) by (auto simp: accounts_T_def clash_def serial_def Account0_def)
  then show ?thesis using assms(1,2) none
    by (simp add: AccountService_UpsertByZitadelSub_def AccountRepo_GetByZitadelSub_def AccountRepo_GetByEmail_def
      AccountRepo_Create_def generateAffCode_def q_insert_def calm_stmt calm account_cols draw_def Let_def)
qed

theorem unnumbered_account_blocks_sign_ups_witness:
  "let w = snd (AccountService_UpsertByZitadelSub ''z2'' ''b@x.cn'' ''Bob'' '''' (demo_accounts\<lparr>faults := [False, False, False, True]\<rparr>))
   in \<exists>w'. AccountService_UpsertByZitadelSub ''z3'' ''c@x.cn'' ''Eve'' '''' w
       = (Inl (EWrap ''create account'' (EUnique ''accounts_lurus_id_key'')), w') \<and> length (accounts w') = 2"
proof -
  let ?w = "snd (AccountService_UpsertByZitadelSub ''z2'' ''b@x.cn'' ''Bob'' '''' (demo_accounts\<lparr>faults := [False, False, False, True]\<rparr>))"
  have w: "faults ?w = []" "entropy ?w = ''cc'' # []" "last (accounts ?w) \<in> set (accounts ?w)" "acc_LurusID (last (accounts ?w)) = ''''"
    "\<forall>x\<in>set (accounts ?w). acc_ZitadelSub x \<noteq> ''z3'' \<and> acc_Email x \<noteq> ''c@x.cn'' \<and> acc_ID x \<noteq> seqs ?w ''accounts''"
    "length (accounts ?w) = 2" by code_simp+
  from unnumbered_account_blocks_sign_ups [OF w(1-5), where name = "''Eve''" and url = "''''"] w(6)
  show ?thesis unfolding Let_def by metis
qed

end
