(* ===== verification/Http.thy ===== *)
theory Http
  imports Sessions Accounts
begin

text \<open>
  What the handlers of \<^verbatim>\<open>internal/adapter/handler\<close> use of gin: a request with its path
  and query parameters, headers, body and context values, a response, and the binding of JSON
  bodies. A handler is a function from a request to an operation that yields its response; it never
  fails, since every error is answered. A response body keeps the values that are encoded, not
  their text. A panic, which gin's recovery turns into an empty answer, is status 500.
\<close>

section \<open>Requests and responses\<close>

record Claims =
  clm_Sub :: string
  clm_Iss :: string
  clm_Aud :: "string list"
  clm_Email :: string
  clm_Name :: string
  clm_Roles :: "string list"

record request =
  rq_params :: "(string \<times> string) list"
  rq_query :: "(string \<times> string) list"
  rq_header :: "string \<Rightarrow> string"
  rq_body :: string
  rq_account :: "int option"
  rq_claims :: "Claims option"

definition request0 :: request where
  "request0 = \<lparr>rq_params = [], rq_query = [], rq_header = (\<lambda>_. ''''), rq_body = '''', rq_account = None, rq_claims = None\<rparr>"

datatype gval =
    GNull | GBool bool | GInt int | GNum rat | GStr string | GTime "time option" | GJson json
  | GList "gval list" | GObj "(string \<times> gval) list" | GMap "string \<Rightarrow> string option"
  | GAccount Account | GVIP AccountVIP | GSub Subscription | GWallet Wallet | GTx WalletTransaction
  | GOrder PaymentOrder | GRefund Refund | GInvoice Invoice | GProduct Product | GPlan ProductPlan
  | GOrg Organization | GApiKey OrgAPIKey | GOrgWallet OrgWallet | GCode RedemptionCode | GOverview AccountOverview
  | GCheckin Checkin

datatype response =
    JSON int gval
  | Text int string
  | Data int string string       \<comment> \<open>status, content type, bytes\<close>
  | Csv "string list list"       \<comment> \<open>the rows of a downloaded file\<close>
  | Status int

type_synonym handler = "request \<Rightarrow> response op"

fun rs_status :: "response \<Rightarrow> int" where
  "rs_status (JSON s b) = s"
| "rs_status (Text s b) = s"
| "rs_status (Data s t b) = s"
| "rs_status (Csv rows) = 200"
| "rs_status (Status s) = s"

text \<open>\<^verbatim>\<open>c.JSON(status, gin.H{"error": text})\<close>\<close>

definition err_json :: "int \<Rightarrow> string \<Rightarrow> response op" where
  "err_json s t = ret (JSON s (GObj [(''error'', GStr t)]))"

definition ok_json :: "int \<Rightarrow> (string \<times> gval) list \<Rightarrow> response op" where
  "ok_json s kvs = ret (JSON s (GObj kvs))"

text \<open>The recovered panic of a nil pointer.\<close>

definition recovered :: "response op" where
  "recovered = ret (Status 500)"

text \<open>\<^verbatim>\<open>c.Param\<close>, \<^verbatim>\<open>c.Query\<close>, \<^verbatim>\<open>c.DefaultQuery\<close>\<close>

definition Param :: "request \<Rightarrow> string \<Rightarrow> string" where
  "Param c k = (case map_of (rq_params c) k of None \<Rightarrow> '''' | Some v \<Rightarrow> v)"

definition Query :: "request \<Rightarrow> string \<Rightarrow> string" where
  "Query c k = (case map_of (rq_query c) k of None \<Rightarrow> '''' | Some v \<Rightarrow> v)"

definition DefaultQuery :: "request \<Rightarrow> string \<Rightarrow> string \<Rightarrow> string" where
  "DefaultQuery c k d = (case map_of (rq_query c) k of None \<Rightarrow> d | Some v \<Rightarrow> v)"

definition mustAccountID :: "request \<Rightarrow> int" where
  "mustAccountID c = (case rq_account c of None \<Rightarrow> 0 | Some i \<Rightarrow> i)"

text \<open>
  \<^verbatim>\<open>page, _ = strconv.Atoi(s)\<close>: a text that is no number gives 0, one out of range the
  nearest bound.
\<close>

definition Atoi_or :: "string \<Rightarrow> int" where
  "Atoi_or s = (case atoi s of Some n \<Rightarrow> n | None \<Rightarrow>
     (let neg = (s \<noteq> [] \<and> hd s = CHR ''-''); d = (if s \<noteq> [] \<and> (hd s = CHR ''-'' \<or> hd s = CHR ''+'') then tl s else s) in
      if d = [] \<or> \<not> list_all is_digit d then 0 else if neg then - (2 ^ 63) else 2 ^ 63 - 1))"

definition page_params :: "request \<Rightarrow> int \<times> int" where
  "page_params c = (let page = Atoi_or (DefaultQuery c ''page'' ''1''); pageSize = Atoi_or (DefaultQuery c ''page_size'' ''20'')
     in (if page < 1 then 1 else page, if pageSize < 1 \<or> 100 < pageSize then 20 else pageSize))"

definition mustPageParams :: "request \<Rightarrow> int \<times> int" where
  "mustPageParams c = page_params c"

section \<open>JSON bodies\<close>

text \<open>
  \<^verbatim>\<open>c.ShouldBindJSON\<close> decodes the first JSON value of the body; names of fields match
  without regard to case and the last of equal names wins. A field decoder gives \<open>None\<close> for a
  value of another type; the text of that error is the library's and is one word here. A number of
  an integer field may be written with a fraction of zero, which the library refuses.
\<close>

definition bind_error :: string where
  "bind_error = ''invalid body''"

definition ShouldBindJSON :: "request \<Rightarrow> ((string \<times> json) list \<Rightarrow> 'a option) \<Rightarrow> 'a option" where
  "ShouldBindJSON c f = (case parse_value (2 * length (rq_body c) + 2) (rq_body c) of
     Some (JObj kvs, r) \<Rightarrow> f (map (\<lambda>(k, v). (ToLower k, v)) kvs)
   | Some (JNull, r) \<Rightarrow> f []
   | _ \<Rightarrow> None)"

definition num_field :: "string \<Rightarrow> (string \<times> json) list \<Rightarrow> rat option" where
  "num_field k kvs = (case map_of kvs k of None \<Rightarrow> Some 0 | Some JNull \<Rightarrow> Some 0 | Some (JNum x) \<Rightarrow> Some x | _ \<Rightarrow> None)"

text \<open>The tags \<^verbatim>\<open>required\<close> and \<^verbatim>\<open>gt=0\<close>.\<close>

definition req_str :: "string \<Rightarrow> (string \<times> json) list \<Rightarrow> string option" where
  "req_str k kvs = (case str_field k kvs of Some s \<Rightarrow> (if s = '''' then None else Some s) | None \<Rightarrow> None)"

definition req_int :: "string \<Rightarrow> (string \<times> json) list \<Rightarrow> int option" where
  "req_int k kvs = (case int_field k kvs of Some n \<Rightarrow> (if n = 0 then None else Some n) | None \<Rightarrow> None)"

definition req_num :: "string \<Rightarrow> (string \<times> json) list \<Rightarrow> rat option" where
  "req_num k kvs = (case num_field k kvs of Some n \<Rightarrow> (if n = 0 then None else Some n) | None \<Rightarrow> None)"

definition req_pos :: "string \<Rightarrow> (string \<times> json) list \<Rightarrow> rat option" where
  "req_pos k kvs = (case num_field k kvs of Some n \<Rightarrow> (if 0 < n then Some n else None) | None \<Rightarrow> None)"

text \<open>\<^verbatim>\<open>if err := c.ShouldBindJSON(&req); err != nil { 400 }\<close>\<close>

definition with_body :: "request \<Rightarrow> ((string \<times> json) list \<Rightarrow> 'a option) \<Rightarrow> ('a \<Rightarrow> response op) \<Rightarrow> response op" where
  "with_body c f k = (case ShouldBindJSON c f of None \<Rightarrow> err_json 400 bind_error | Some x \<Rightarrow> k x)"

text \<open>\<^verbatim>\<open>strconv.ParseInt(c.Param(name), 10, 64)\<close>\<close>

definition with_id :: "request \<Rightarrow> string \<Rightarrow> string \<Rightarrow> (int \<Rightarrow> response op) \<Rightarrow> response op" where
  "with_id c name msg k = (case atoi (Param c name) of None \<Rightarrow> err_json 400 msg | Some i \<Rightarrow> k i)"

section \<open>Facts\<close>

text \<open>A handler that answers: it never fails.\<close>

definition answers :: "'a op \<Rightarrow> bool" where
  "answers m \<longleftrightarrow> (\<forall>w. \<not> isl (fst (m w)))"

named_theorems answers_intros \<open>operations that never fail\<close>

lemma answers_ret [answers_intros]: "answers (ret x)"
  by (simp add: answers_def ret_def)

lemma answers_err_json [answers_intros]: "answers (err_json s t)"
  by (simp add: err_json_def answers_ret)

lemma answers_ok_json [answers_intros]: "answers (ok_json s t)"
  by (simp add: ok_json_def answers_ret)

lemma answers_recovered [answers_intros]: "answers recovered"
  by (simp add: recovered_def answers_ret)

lemma answers_attempt [answers_intros]: "(\<And>r. answers (k r)) \<Longrightarrow> answers (attempt m k)"
  by (auto simp: answers_def attempt_def split: prod.split)

lemma answers_bind [answers_intros]: "answers m \<Longrightarrow> (\<And>x. answers (k x)) \<Longrightarrow> answers (bind m k)"
  by (auto simp: answers_def bind_def split: prod.split sum.split) (metis fst_conv isl_def sum.disc(1))

lemma answers_ignore [answers_intros]: "answers (ignore m)"
  by (simp add: ignore_def answers_intros)

lemma answers_now [answers_intros]: "answers now"
  by (simp add: answers_def now_def)

lemma answers_with_body [answers_intros]: "(\<And>x. answers (k x)) \<Longrightarrow> answers (with_body c f k)"
  by (simp add: with_body_def answers_intros split: option.split)

lemma answers_with_id [answers_intros]: "(\<And>x. answers (k x)) \<Longrightarrow> answers (with_id c n m k)"
  by (simp add: with_id_def answers_intros split: option.split)

lemma answers_if [answers_intros]: "answers m \<Longrightarrow> answers n \<Longrightarrow> answers (if b then m else n)"
  by simp

lemma answers_option [answers_intros]: "answers m \<Longrightarrow> (\<And>x. answers (k x)) \<Longrightarrow> answers (case y of None \<Rightarrow> m | Some x \<Rightarrow> k x)"
  by (simp split: option.split)

lemma answers_sum [answers_intros]: "(\<And>e. answers (m e)) \<Longrightarrow> (\<And>x. answers (k x)) \<Longrightarrow> answers (case y of Inl e \<Rightarrow> m e | Inr x \<Rightarrow> k x)"
  by (simp split: sum.split)

lemma answers_prod [answers_intros]: "(\<And>a b. answers (k a b)) \<Longrightarrow> answers (case p of (a, b) \<Rightarrow> k a b)"
  by (simp split: prod.split)

lemma leaves_answer [leaves_intros]:
  "leaves f (err_json s t)" "leaves f (ok_json s kvs)" "leaves f recovered"
  by (simp_all add: err_json_def ok_json_def recovered_def leaves_ret)

lemma leaves_with_body [leaves_intros]: "(\<And>x. leaves f (k x)) \<Longrightarrow> leaves f (with_body c g k)"
  unfolding with_body_def by (intro leaves_intros)

lemma leaves_with_id [leaves_intros]: "(\<And>x. leaves f (k x)) \<Longrightarrow> leaves f (with_id c n m k)"
  unfolding with_id_def by (intro leaves_intros)

lemma keeps_answer [keeps_intros]:
  "keeps f (err_json s t)" "keeps f (ok_json s kvs)" "keeps f recovered"
  by (simp_all add: err_json_def ok_json_def recovered_def keeps_ret)

lemma keeps_with_body [keeps_intros]: "(\<And>x. keeps f (k x)) \<Longrightarrow> keeps f (with_body c g k)"
  unfolding with_body_def by (intro keeps_intros)

lemma keeps_with_id [keeps_intros]: "(\<And>x. keeps f (k x)) \<Longrightarrow> keeps f (with_id c n m k)"
  unfolding with_id_def by (intro keeps_intros)

end
