(* ===== verification/Payments.thy ===== *)
theory Payments
  imports Http WalletService
begin

text \<open>
  \<^verbatim>\<open>internal/adapter/payment\<close>: the payment providers. The HTTP exchange with Creem and
  the client libraries of Stripe and of the epay gateway are parameters; what the program sends to
  them, and how it reads their callbacks, is modelled. The lemmas show that an accepted Creem
  webhook carries the signature of the shared secret and how amounts are converted to cents.
\<close>

section \<open>Creem\<close>

record CreemProvider =
  crm_apiKey :: string
  crm_webhookSecret :: string

definition NewCreemProvider :: "string \<Rightarrow> string \<Rightarrow> err + CreemProvider option" where
  "NewCreemProvider apiKey webhookSecret =
     (if apiKey = '''' then Inr None else
      if webhookSecret = '''' then Inl (EMsg ''CREEM_WEBHOOK_SECRET is required when CREEM_API_KEY is set'') else
      Inr (Some \<lparr>crm_apiKey = apiKey, crm_webhookSecret = webhookSecret\<rparr>))"

definition CreemProvider_Name :: string where
  "CreemProvider_Name = ''creem''"

text \<open>An amount in the smallest unit: \<^verbatim>\<open>int64(x * 100)\<close> on doubles cuts off.\<close>

definition cents :: "rat \<Rightarrow> int" where
  "cents x = trunc (f64 (f64 x * 100))"

definition creem_request :: "PaymentOrder \<Rightarrow> string \<Rightarrow> json" where
  "creem_request o1 returnURL = JObj [(''request_id'', JStr (ord_OrderNo o1)), (''amount'', JNum (of_int (cents (ord_AmountCNY o1)))),
     (''currency'', JStr ''CNY''),
     (''return_url'', JStr (returnURL @ ''?order_no='' @ ord_OrderNo o1 @ ''&status=success''))]"

text \<open>\<open>post\<close> is the exchange: URL, bearer key and body give status and body.\<close>

definition CreemProvider_CreateCheckout ::
  "(string \<Rightarrow> string \<Rightarrow> string \<Rightarrow> (int \<times> string) op) \<Rightarrow> CreemProvider \<Rightarrow> PaymentOrder \<Rightarrow> string \<Rightarrow> (string \<times> string) op" where
  "CreemProvider_CreateCheckout post p o1 returnURL =
     bind (wrap ''creem http'' (post ''https://api.creem.io/v1/checkouts'' (''Bearer '' @ crm_apiKey p)
        (json_text (creem_request o1 returnURL)))) (\<lambda>(status, full).
     let body = take 65536 full in
     if 400 \<le> status then fail (EMsg (''creem api error '' @ itoa status @ '': '' @ body)) else
     case (case json_unmarshal body of
             Some (JObj kvs) \<Rightarrow> (let f = map (\<lambda>(k, v). (ToLower k, v)) kvs in
               (case (str_field ''id'' f, str_field ''checkout_url'' f) of (Some i, Some u) \<Rightarrow> Some (i, u) | _ \<Rightarrow> None))
           | Some JNull \<Rightarrow> Some ('''', '''') | _ \<Rightarrow> None) of
       None \<Rightarrow> fail (EMsg ''decode creem response'')
     | Some (i, u) \<Rightarrow> if u = '''' then fail (EMsg ''creem returned empty checkout_url'') else ret (u, i))"

definition creem_event :: "string \<Rightarrow> (string \<times> string \<times> string) option" where
  "creem_event payload = (case json_unmarshal payload of
     Some (JObj kvs) \<Rightarrow> (let f = map (\<lambda>(k, v). (ToLower k, v)) kvs in
       (case (str_field ''event_type'' f, str_field ''order_no'' f, str_field ''request_id'' f) of
          (Some ty, Some no, Some rid) \<Rightarrow> Some (ty, no, rid) | _ \<Rightarrow> None))
   | Some JNull \<Rightarrow> Some ('''', '''', '''') | _ \<Rightarrow> None)"

definition CreemProvider_VerifyWebhook :: "CreemProvider \<Rightarrow> string \<Rightarrow> string \<Rightarrow> string \<times> bool" where
  "CreemProvider_VerifyWebhook p payload sig =
     (if crm_webhookSecret p = '''' then ('''', False) else
      if hex_text (hmac_sha256 (crm_webhookSecret p) payload) \<noteq> sig then ('''', False) else
      case creem_event payload of
        None \<Rightarrow> ('''', False)
      | Some (ty, orderNo, requestID) \<Rightarrow>
        if ty \<noteq> ''payment.success'' then ('''', True) else
        let no = (if orderNo = '''' then requestID else orderNo) in
        if no = '''' then ('''', False) else (no, True))"

section \<open>Stripe\<close>

record StripeProvider =
  str_secretKey :: string
  str_webhookSecret :: string

definition NewStripeProvider :: "string \<Rightarrow> string \<Rightarrow> StripeProvider option" where
  "NewStripeProvider secretKey webhookSecret =
     (if secretKey = '''' then None else Some \<lparr>str_secretKey = secretKey, str_webhookSecret = webhookSecret\<rparr>)"

definition StripeProvider_Name :: string where
  "StripeProvider_Name = ''stripe''"

definition stripeUSDRate :: rat where
  "stripeUSDRate = 71 / 10"

definition stripe_cents :: "rat \<Rightarrow> int" where
  "stripe_cents x = (let amountUSD = trunc (f64 (f64 (f64 x / f64 stripeUSDRate) * 100)) in if amountUSD < 50 then 50 else amountUSD)"

text \<open>The session parameters the program fills in; the payment method is the card, the quantity one.\<close>

record stripe_params =
  sp_Key :: string
  sp_ClientReferenceID :: string
  sp_Currency :: string
  sp_Name :: string
  sp_UnitAmount :: int
  sp_SuccessURL :: string
  sp_CancelURL :: string

definition stripe_session :: "StripeProvider \<Rightarrow> PaymentOrder \<Rightarrow> string \<Rightarrow> stripe_params" where
  "stripe_session p o1 returnURL = \<lparr>sp_Key = str_secretKey p, sp_ClientReferenceID = ord_OrderNo o1, sp_Currency = ''usd'',
     sp_Name = ''Lurus '' @ topup_desc (ord_AmountCNY o1), sp_UnitAmount = stripe_cents (ord_AmountCNY o1),
     sp_SuccessURL = returnURL @ ''?order_no='' @ ord_OrderNo o1 @ ''&status=success'',
     sp_CancelURL = returnURL @ ''?order_no='' @ ord_OrderNo o1 @ ''&status=cancelled''\<rparr>"

text \<open>\<open>new_session\<close> gives the URL and the id of a session.\<close>

definition StripeProvider_CreateCheckout ::
  "(stripe_params \<Rightarrow> (string \<times> string) op) \<Rightarrow> StripeProvider \<Rightarrow> PaymentOrder \<Rightarrow> string \<Rightarrow> (string \<times> string) op" where
  "StripeProvider_CreateCheckout new_session p o1 returnURL =
     wrap ''stripe checkout session'' (new_session (stripe_session p o1 returnURL))"

text \<open>\<open>check_event\<close> is the library's check of payload, signature and secret: type, id and object of the event.\<close>

definition StripeProvider_VerifyWebhook ::
  "(string \<Rightarrow> string \<Rightarrow> string \<Rightarrow> (string \<times> string \<times> (string \<times> json) list) option) \<Rightarrow> StripeProvider \<Rightarrow> string \<Rightarrow> string
    \<Rightarrow> string \<times> string \<times> bool" where
  "StripeProvider_VerifyWebhook check_event p payload sig =
     (if str_webhookSecret p = '''' then ('''', '''', False) else
      case check_event payload sig (str_webhookSecret p) of
        None \<Rightarrow> ('''', '''', False)
      | Some (ty, eventID, object) \<Rightarrow>
        if ty \<noteq> ''checkout.session.completed'' then ('''', eventID, True) else
        case map_of object ''client_reference_id'' of
          Some (JStr s) \<Rightarrow> if s = '''' then ('''', eventID, False) else (s, eventID, True)
        | _ \<Rightarrow> ('''', eventID, False))"

section \<open>Epay\<close>

definition EpayProvider_Name :: string where
  "EpayProvider_Name = ''epay_alipay''"

text \<open>\<open>verify\<close> is the gateway library: status, trade status and order number of the parameters.\<close>

definition EpayProvider_VerifyCallback ::
  "((string \<Rightarrow> string option) \<Rightarrow> (bool \<times> string \<times> string) option) \<Rightarrow> (string \<times> string) list \<Rightarrow> string \<times> bool" where
  "EpayProvider_VerifyCallback verify params =
     (case verify (map_of params) of
        None \<Rightarrow> ('''', False)
      | Some (verifyStatus, tradeStatus, serviceTradeNo) \<Rightarrow>
        if \<not> verifyStatus then ('''', False) else
        if tradeStatus \<noteq> ''TRADE_SUCCESS'' then ('''', False) else (serviceTradeNo, True))"

text \<open>
  The arguments of a purchase. How the redirect URL is put together from the answer is left to
  \<open>purchase\<close>, which gives the URL.
\<close>

record epay_purchase =
  ep_Type :: string
  ep_ServiceTradeNo :: string
  ep_Name :: string
  ep_Money :: string
  ep_NotifyUrl :: string
  ep_ReturnUrl :: string

definition epay_args :: "string \<Rightarrow> PaymentOrder \<Rightarrow> string \<Rightarrow> epay_purchase" where
  "epay_args notifyURL o1 returnURL = \<lparr>ep_Type = (if ord_PaymentMethod o1 = ''epay_wxpay'' then ''wxpay'' else ''alipay''),
     ep_ServiceTradeNo = ord_OrderNo o1, ep_Name = ''Lurus '' @ topup_desc (ord_AmountCNY o1),
     ep_Money = fixed 2 (ord_AmountCNY o1), ep_NotifyUrl = notifyURL, ep_ReturnUrl = returnURL\<rparr>"

definition EpayProvider_CreateCheckout ::
  "(epay_purchase \<Rightarrow> string op) \<Rightarrow> string \<Rightarrow> PaymentOrder \<Rightarrow> string \<Rightarrow> (string \<times> string) op" where
  "EpayProvider_CreateCheckout purchase notifyURL o1 returnURL =
     bind (wrap ''epay purchase'' (purchase (epay_args notifyURL o1 returnURL))) (\<lambda>url. ret (url, ord_OrderNo o1))"

section \<open>Facts\<close>

lemma creem_signed: "CreemProvider_VerifyWebhook p payload sig = (no, True) \<Longrightarrow>
    crm_webhookSecret p \<noteq> '''' \<and> sig = hex_text (hmac_sha256 (crm_webhookSecret p) payload)"
  by (auto simp: CreemProvider_VerifyWebhook_def split: if_splits)

text \<open>19.99 yuan are charged as 1998 fen: the double nearest to 19.99, times a hundred, lies below 1999.\<close>

lemma cents_lose_one: "cents (1999 / 100) = 1998"
  by code_simp

end
