(* ===== verification/Subscriptions.thy ===== *)
theory Subscriptions
  imports Entitlements WalletService
begin

text \<open>
  \<^verbatim>\<open>app/subscription_service.go\<close>: activation, grace and expiry of subscriptions, and
  the calendar arithmetic of billing cycles: a month clamps to its last day, and every cycle
  has the length it promises. Then the invariant that an account has at most one live
  subscription per product, what an activation establishes, and where it falls short.
\<close>

section \<open>Billing cycles\<close>

text \<open>\<^verbatim>\<open>time.Date(year, month+1, 0, ...).Day()\<close>\<close>

definition daysInMonth :: "int \<Rightarrow> int \<Rightarrow> int" where
  "daysInMonth year month = (case date_of (go_date year (month + 1) 0 0) of (_, _, d) \<Rightarrow> d)"

text \<open>The loop \<^verbatim>\<open>for targetMonth > 12\<close>.\<close>

function carry_months :: "int \<Rightarrow> int \<Rightarrow> int \<times> int" where
  "carry_months y m = (if 12 < m then carry_months (y + 1) (m - 12) else (y, m))"
  by auto
termination by (relation "measure (\<lambda>(y, m). nat m)") auto

declare carry_months.simps [simp del]

definition addMonthsClamped :: "time \<Rightarrow> int \<Rightarrow> time" where
  "addMonthsClamped t months = (case date_of t of (y, m, d) \<Rightarrow>
     (case carry_months y (m + months) of (targetYear, targetMonth) \<Rightarrow>
      let lastDay = daysInMonth targetYear targetMonth in
      go_date targetYear targetMonth (if lastDay < d then lastDay else d) (clock_of t)))"

definition calculateExpiry :: "time \<Rightarrow> string \<Rightarrow> time option" where
  "calculateExpiry start cycle =
    (if cycle = BillingCycleWeekly then Some (AddDate start 0 0 7)
     else if cycle = BillingCycleMonthly then Some (addMonthsClamped start 1)
     else if cycle = BillingCycleQuarterly then Some (addMonthsClamped start 3)
     else if cycle = BillingCycleYearly then Some (AddDate start 1 0 0)
     else if cycle = BillingCycleForever \<or> cycle = BillingCycleOneTime then None
     else Some (addMonthsClamped start 1))"

section \<open>Operations\<close>

definition gracePeriodDays_of :: "int \<Rightarrow> int" where
  "gracePeriodDays_of n = (if n \<le> 0 then 3 else n)"

definition SubscriptionService_Activate ::
  "int \<Rightarrow> string \<Rightarrow> int \<Rightarrow> string \<Rightarrow> string \<Rightarrow> Subscription op" where
  "SubscriptionService_Activate accountID productID planID paymentMethod externalSubID =
     attempt (ProductRepo_GetPlanByID planID) (\<lambda>r. case r of
       Inl e \<Rightarrow> fail (EMsg (''plan '' @ itoa planID @ '' not found''))
     | Inr None \<Rightarrow> fail (EMsg (''plan '' @ itoa planID @ '' not found''))
     | Inr (Some plan) \<Rightarrow>
     bind (wrap ''check existing'' (SubscriptionRepo_GetActive accountID productID)) (\<lambda>existing.
     bind (case existing of None \<Rightarrow> ret ()
           | Some old \<Rightarrow> wrap ''expire old sub'' (SubscriptionRepo_Update (old\<lparr>sub_Status := SubStatusExpired\<rparr>))) (\<lambda>_.
     bind now (\<lambda>n.
     bind (wrap ''create subscription'' (SubscriptionRepo_Create (Subscription0\<lparr>sub_AccountID := accountID,
        sub_ProductID := productID, sub_PlanID := planID, sub_Status := SubStatusActive, sub_StartedAt := Some n,
        sub_PaymentMethod := paymentMethod, sub_ExternalSubID := externalSubID,
        sub_ExpiresAt := calculateExpiry n (plan_BillingCycle plan)\<rparr>))) (\<lambda>sub.
     bind (ignore (EntitlementService_SyncFromSubscription sub)) (\<lambda>_.
     ret sub))))))"

definition SubscriptionService_Expire :: "int \<Rightarrow> int \<Rightarrow> unit op" where
  "SubscriptionService_Expire gracePeriodDays subID =
     attempt (SubscriptionRepo_GetByID subID) (\<lambda>r. case r of
       Inr (Some sub) \<Rightarrow>
         bind now (\<lambda>n. SubscriptionRepo_Update (sub\<lparr>sub_Status := SubStatusGrace,
            sub_GraceUntil := Some (n + gracePeriodDays_of gracePeriodDays * 24 * hour_ns)\<rparr>))
     | _ \<Rightarrow> fail (EMsg (''subscription '' @ itoa subID @ '' not found'')))"

definition SubscriptionService_EndGrace :: "int \<Rightarrow> unit op" where
  "SubscriptionService_EndGrace subID =
     attempt (SubscriptionRepo_GetByID subID) (\<lambda>r. case r of
       Inr (Some sub) \<Rightarrow>
         bind (SubscriptionRepo_Update (sub\<lparr>sub_Status := SubStatusExpired\<rparr>)) (\<lambda>_.
         EntitlementService_ResetToFree (sub_AccountID sub) (sub_ProductID sub))
     | _ \<Rightarrow> fail (EMsg (''subscription '' @ itoa subID @ '' not found'')))"

definition SubscriptionService_Cancel :: "int \<Rightarrow> string \<Rightarrow> unit op" where
  "SubscriptionService_Cancel accountID productID =
     attempt (SubscriptionRepo_GetActive accountID productID) (\<lambda>r. case r of
       Inr (Some sub) \<Rightarrow> SubscriptionRepo_Update (sub\<lparr>sub_Status := SubStatusCancelled, sub_AutoRenew := False\<rparr>)
     | _ \<Rightarrow> fail (EMsg (''no active subscription for product '' @ productID)))"

definition SubscriptionService_GetActive :: "int \<Rightarrow> string \<Rightarrow> Subscription option op" where
  "SubscriptionService_GetActive accountID productID = SubscriptionRepo_GetActive accountID productID"

definition SubscriptionService_ListByAccount :: "int \<Rightarrow> Subscription list op" where
  "SubscriptionService_ListByAccount accountID = SubscriptionRepo_ListByAccount accountID"

definition SubscriptionService_ListActiveExpired :: "Subscription list op" where
  "SubscriptionService_ListActiveExpired = SubscriptionRepo_ListActiveExpired"

definition SubscriptionService_ListGraceExpired :: "Subscription list op" where
  "SubscriptionService_ListGraceExpired = SubscriptionRepo_ListGraceExpired"

section \<open>The calendar of billing cycles\<close>

lemma carry_months_spec:
  "1 \<le> m \<Longrightarrow> carry_months y m = (y + (m - 1) div 12, (m - 1) mod 12 + 1)"
proof (induction y m rule: carry_months.induct)
  case (1 y m)
  show ?case
  proof (cases "12 < m")
    case True
    then have "carry_months y m = (y + 1 + (m - 12 - 1) div 12, (m - 12 - 1) mod 12 + 1)"
      using "1.IH" "1.prems" by (subst carry_months.simps) simp
    moreover have "m - 1 = (m - 12 - 1) + 12" by simp
    then have "(m - 1) div 12 = (m - 12 - 1) div 12 + 1" "(m - 1) mod 12 = (m - 12 - 1) mod 12"
      by (metis div_add_self2 zero_neq_numeral) (metis \<open>m - 1 = m - 12 - 1 + 12\<close> mod_add_self2)
    ultimately show ?thesis by simp
  next
    case False
    with "1.prems" show ?thesis by (subst carry_months.simps) simp
  qed
qed

lemma daysInMonth_month_len:
  assumes "1 \<le> m" "m \<le> 12"
  shows "daysInMonth y m = month_len y m"
proof -
  have "go_date y (m + 1) 0 0 = (days_from_civil y m 1 + month_len y m - 1) * day_ns"
    using next_month_first [OF assms, of y] by (simp add: go_date_def)
  also have "\<dots> = go_date y m (month_len y m) 0"
    using assms by (simp add: go_date_def)
  finally have "date_of (go_date y (m + 1) 0 0) = (y, m, month_len y m)"
    using go_date_valid(1) [of y m "month_len y m" 0] assms month_len_pos [of y m]
    by (simp add: valid_date_def day_ns_def)
  then show ?thesis by (simp add: daysInMonth_def)
qed

lemma addMonthsClamped_date:
  assumes "date_of t = (y, m, d)" and "0 \<le> n"
  defines "y1 \<equiv> y + (m + n - 1) div 12" and "m1 \<equiv> (m + n - 1) mod 12 + 1"
  shows "date_of (addMonthsClamped t n) = (y1, m1, min d (month_len y1 m1))"
    and "clock_of (addMonthsClamped t n) = clock_of t"
proof -
  have v: "valid_date y m d" using assms(1) civil_from_days_valid(1) by (simp add: date_of_def)
  then have c: "carry_months y (m + n) = (y1, m1)"
    using carry_months_spec [of "m + n" y] assms(2) by (simp add: valid_date_def y1_def m1_def)
  have m1: "1 \<le> m1" "m1 \<le> 12" unfolding m1_def by simp_all
  have "addMonthsClamped t n = go_date y1 m1 (min d (month_len y1 m1)) (clock_of t)"
    using c daysInMonth_month_len [OF m1, of y1] by (simp add: addMonthsClamped_def assms(1) Let_def min_def)
  moreover have "valid_date y1 m1 (min d (month_len y1 m1))"
    using v m1 month_len_pos(1) [of y1 m1] by (simp add: valid_date_def)
  ultimately show "date_of (addMonthsClamped t n) = (y1, m1, min d (month_len y1 m1))"
    "clock_of (addMonthsClamped t n) = clock_of t"
    using go_date_valid clock_of_range by simp_all
qed

text \<open>The billing month clamps. Adding months to an instant lands in the target month (with
  the year carried), on the same day of the month or, if the month is shorter, on its last day,
  at the same time of day.\<close>

theorem monthly_expiry_clamps:
  assumes "date_of t = (y, m, d)"
  shows "\<exists>u. calculateExpiry t BillingCycleMonthly = Some u \<and> clock_of u = clock_of t
    \<and> (let y1 = y + m div 12; m1 = m mod 12 + 1 in date_of u = (y1, m1, min d (month_len y1 m1)))"
  using addMonthsClamped_date [OF assms, of 1] by (simp add: calculateExpiry_def Let_def)

theorem monthly_expiry_clamps_witness:
  "\<exists>u. calculateExpiry (go_date 2024 1 31 0) BillingCycleMonthly = Some u \<and> date_of u = (2024, 2, 29)"
  using monthly_expiry_clamps [OF go_date_valid(1), of 2024 1 31 0]
  by (auto simp: valid_date_def month_len_def leap_def day_ns_def Let_def)

section \<open>Length of a cycle\<close>

lemma first_year: "365 \<le> days_from_civil (y + 1) m 1 - days_from_civil y m 1"
  "days_from_civil (y + 1) m 1 - days_from_civil y m 1 \<le> 366"
  using year_start_step [of y] year_start_step [of "y - 1"] by (auto simp: days_from_civil_def)

lemma time_between:
  assumes "days_of t + k \<le> days_of u" "days_of u \<le> days_of t + l" "clock_of u = clock_of t"
  shows "t + k * day_ns \<le> u" "u \<le> t + l * day_ns"
proof -
  have t: "t = days_of t * day_ns + clock_of t" and u: "u = days_of u * day_ns + clock_of t"
    using time_split [of t] time_split [of u] assms(3) by simp_all
  have "(days_of t + k) * day_ns \<le> days_of u * day_ns" "days_of u * day_ns \<le> (days_of t + l) * day_ns"
    using assms(1,2) by (simp_all add: day_ns_def)
  then show "t + k * day_ns \<le> u" "u \<le> t + l * day_ns" using t u by (simp_all add: distrib_right)
qed

lemma days_of_date: "date_of t = (y, m, d) \<Longrightarrow> days_of t = days_from_civil y m 1 + (d - 1)"
  using civil_from_days_valid(2) [of "days_of t" y m d] days_from_civil_day [of y m d] by (simp add: date_of_def)

lemma month_days: "1 \<le> m \<Longrightarrow> m \<le> 12 \<Longrightarrow> 28 \<le> month_len y m"
  by (simp add: month_len_def)

lemma add_month_days:
  "28 \<le> days_of (addMonthsClamped t 1) - days_of t \<and> days_of (addMonthsClamped t 1) - days_of t \<le> 31"
proof -
  obtain y m d where c: "date_of t = (y, m, d)" by (cases "date_of t")
  then have v: "1 \<le> m" "m \<le> 12" "1 \<le> d" "d \<le> month_len y m"
    using civil_from_days_valid(1) by (auto simp: date_of_def valid_date_def)
  define y1 m1 where "y1 = y + m div 12" and "m1 = m mod 12 + 1"
  have m1: "1 \<le> m1" "m1 \<le> 12" by (simp_all add: m1_def)
  have "date_of (addMonthsClamped t 1) = (y1, m1, min d (month_len y1 m1))"
    using addMonthsClamped_date(1) [OF c, of 1] by (simp add: y1_def m1_def)
  then have "days_of (addMonthsClamped t 1) = days_from_civil y m 1 + month_len y m + (min d (month_len y1 m1) - 1)"
    using days_of_date next_month_first [OF v(1,2), of y] by (simp add: y1_def m1_def)
  then show ?thesis using days_of_date [OF c] v month_days [OF v(1,2), of y] month_len_pos [of y m]
      month_days [OF m1, of y1] by (simp add: min_def split: if_splits)
qed

lemma quarter_days:
  "84 \<le> days_of (addMonthsClamped t 3) - days_of t \<and> days_of (addMonthsClamped t 3) - days_of t \<le> 93"
proof -
  obtain y m d where c: "date_of t = (y, m, d)" by (cases "date_of t")
  then have v: "1 \<le> m" "m \<le> 12" "1 \<le> d" "d \<le> month_len y m"
    using civil_from_days_valid(1) by (auto simp: date_of_def valid_date_def)
  define ya ma where "ya = y + m div 12" and "ma = m mod 12 + 1"
  define yb mb where "yb = ya + ma div 12" and "mb = ma mod 12 + 1"
  define y1 m1 where "y1 = y + (m + 2) div 12" and "m1 = (m + 2) mod 12 + 1"
  have ma: "1 \<le> ma" "ma \<le> 12" and mb: "1 \<le> mb" "mb \<le> 12" and m1: "1 \<le> m1" "m1 \<le> 12" by (simp_all add: ma_def mb_def m1_def)
  have e: "y1 = yb + mb div 12 \<and> m1 = mb mod 12 + 1"
    using month_cases [OF v(1,2)] by (elim insertE) (simp_all add: y1_def m1_def yb_def mb_def ya_def ma_def)
  have "days_from_civil ya ma 1 = days_from_civil y m 1 + month_len y m"
    unfolding ya_def ma_def by (rule next_month_first [OF v(1,2)])
  moreover have "days_from_civil yb mb 1 = days_from_civil ya ma 1 + month_len ya ma"
    unfolding yb_def mb_def by (rule next_month_first [OF ma])
  moreover have "days_from_civil y1 m1 1 = days_from_civil yb mb 1 + month_len yb mb"
    using next_month_first [OF mb, of yb] e by simp
  ultimately have "days_from_civil y1 m1 1 = days_from_civil y m 1 + month_len y m + month_len ya ma + month_len yb mb"
    by simp
  moreover have "date_of (addMonthsClamped t 3) = (y1, m1, min d (month_len y1 m1))"
    using addMonthsClamped_date(1) [OF c, of 3] by (simp add: y1_def m1_def add.commute)
  ultimately have "days_of (addMonthsClamped t 3)
      = days_from_civil y m 1 + month_len y m + month_len ya ma + month_len yb mb + (min d (month_len y1 m1) - 1)"
    using days_of_date by simp
  then show ?thesis using days_of_date [OF c] v month_days [OF v(1,2), of y] month_days [OF ma, of ya] month_days [OF mb, of yb]
      month_len_pos(2) [of y m] month_len_pos(2) [of ya ma] month_len_pos(2) [of yb mb] month_days [OF m1, of y1]
    by (simp add: min_def split: if_splits)
qed

lemma year_days:
  "365 \<le> days_of (AddDate t 1 0 0) - days_of t \<and> days_of (AddDate t 1 0 0) - days_of t \<le> 366
   \<and> clock_of (AddDate t 1 0 0) = clock_of t"
proof -
  obtain y m d where c: "date_of t = (y, m, d)" by (cases "date_of t")
  then have v: "1 \<le> m" "m \<le> 12" using civil_from_days_valid(1) by (auto simp: date_of_def valid_date_def)
  have e: "AddDate t 1 0 0 = (days_from_civil (y + 1) m 1 + (d - 1)) * day_ns + clock_of t"
    using v by (simp add: AddDate_def c go_date_def)
  have "days_of (AddDate t 1 0 0) = days_from_civil (y + 1) m 1 + (d - 1)" "clock_of (AddDate t 1 0 0) = clock_of t"
    unfolding e by (rule days_clock_join [OF clock_of_range])+
  then show ?thesis using days_of_date [OF c] first_year [of y m] by simp
qed

text \<open>A paid period has the length its cycle promises: a week is seven days, a month 28 to
  31, a quarter 84 to 93 and a year 365 or 366 days; a subscription never expires before it
  starts, and only the cycles without an end have no expiry.\<close>

theorem cycle_lengths:
  "case calculateExpiry t cycle of
     None \<Rightarrow> cycle = BillingCycleForever \<or> cycle = BillingCycleOneTime
   | Some u \<Rightarrow> (let (lo, hi) = (if cycle = BillingCycleWeekly then (7, 7) else if cycle = BillingCycleQuarterly then (84, 93)
        else if cycle = BillingCycleYearly then (365, 366) else (28, 31))
      in t + lo * day_ns \<le> u \<and> u \<le> t + hi * day_ns)"
proof -
  have m: "clock_of (addMonthsClamped t n) = clock_of t" if "0 \<le> n" for n
  proof -
    obtain y m d where "date_of t = (y, m, d)" by (cases "date_of t")
    then show ?thesis using addMonthsClamped_date(2) that by blast
  qed
  show ?thesis
    using time_between [of t 28 "addMonthsClamped t 1" 31] time_between [of t 84 "addMonthsClamped t 3" 93]
      time_between [of t 365 "AddDate t 1 0 0" 366] add_month_days [of t] quarter_days [of t] year_days [of t]
      m [of 1] m [of 3] AddDate_days [of t 7]
    by (auto simp: calculateExpiry_def)
qed

section \<open>One live subscription per account and product\<close>

definition subs_ok :: "world \<Rightarrow> bool" where
  "subs_ok w \<longleftrightarrow> uniq_by sub_ID (subs w)
     \<and> (\<forall>x\<in>set (subs w). \<forall>y\<in>set (subs w). IsLive x \<and> IsLive y
          \<and> sub_AccountID x = sub_AccountID y \<and> sub_ProductID x = sub_ProductID y \<longrightarrow> x = y)"

lemma uniq_by_put: "uniq_by key t \<Longrightarrow> uniq_by key (upd_rows (\<lambda>x. key x = key r) (\<lambda>_. r) t)"
  by (subst uniq_by_upd) auto

lemma stable_subs_ok [simp, intro]: "stable subs_ok"
  by (simp add: stable_def subs_ok_def)

lemma keeps_subs_leaves: "leaves subs m \<Longrightarrow> keeps subs_ok m"
  by (simp add: keeps_def leaves_def subs_ok_def)

lemma sub_cols: "t_cols subs_T r = r" "sub_ID (t_touch subs_T n r) = sub_ID r" "IsLive (t_touch subs_T n r) = IsLive r"
  "sub_AccountID (t_touch subs_T n r) = sub_AccountID r" "sub_ProductID (t_touch subs_T n r) = sub_ProductID r"
  "sub_Status (t_touch subs_T n r) = sub_Status r"
  "sub_AccountID (t_new subs_T i n r) = sub_AccountID r" "sub_ProductID (t_new subs_T i n r) = sub_ProductID r"
  by (simp_all add: subs_T_def IsLive_def)

lemma sub_conflict: "t_conflict subs_T r t = None \<longleftrightarrow> (\<forall>x\<in>set t. sub_ID x \<noteq> sub_ID r
   \<and> \<not> (IsLive r \<and> IsLive x \<and> sub_AccountID x = sub_AccountID r \<and> sub_ProductID x = sub_ProductID r))"
  by (auto simp: subs_T_def)

lemma subs_get: "t_get subs_T = subs" "t_upd subs_T = subs_update" "t_name subs_T = ''subscriptions''"
  by (simp_all add: subs_T_def)

lemma subs_ok_add:
  "subs_ok w \<Longrightarrow> t_conflict subs_T r (subs w) = None \<Longrightarrow> subs w' = subs w @ [r] \<Longrightarrow> subs_ok w'"
  unfolding subs_ok_def sub_conflict by (auto simp: uniq_by_def)

lemma subs_ok_put:
  assumes "subs_ok w" and "t_conflict subs_T r (filter (\<lambda>x. sub_ID x \<noteq> sub_ID r) (subs w)) = None"
    and "subs w' = upd_rows (\<lambda>x. sub_ID x = sub_ID r) (\<lambda>_. r) (subs w)"
  shows "subs_ok w'"
proof -
  have u: "uniq_by sub_ID (subs w')" using assms(1) uniq_by_put [of sub_ID "subs w" r] by (simp add: assms(3) subs_ok_def)
  have free: "\<not> (IsLive r \<and> IsLive x \<and> sub_AccountID x = sub_AccountID r \<and> sub_ProductID x = sub_ProductID r)"
    if "x \<in> set (subs w)" "sub_ID x \<noteq> sub_ID r" for x using assms(2) that unfolding sub_conflict by auto
  have m: "x = r \<or> x \<in> set (subs w) \<and> sub_ID x \<noteq> sub_ID r" if "x \<in> set (subs w')" for x
    using that by (auto simp: assms(3) set_upd_rows)
  have "x = y" if "x \<in> set (subs w')" "y \<in> set (subs w')" "IsLive x" "IsLive y"
    "sub_AccountID x = sub_AccountID y" "sub_ProductID x = sub_ProductID y" for x y
    using m [OF that(1)] m [OF that(2)] free that(3-) assms(1) by (metis subs_ok_def)
  then show ?thesis using u by (simp add: subs_ok_def)
qed

lemma subs_create [keeps_intros]: "keeps subs_ok (SubscriptionRepo_Create r)"
  unfolding SubscriptionRepo_Create_def
  by (rule keeps_q_insert) (auto simp: subs_get sub_cols intro: subs_ok_add)

lemma subs_save [keeps_intros]: "keeps subs_ok (SubscriptionRepo_Update r)"
  unfolding SubscriptionRepo_Update_def
proof (rule keeps_q_save)
  fix w assume ok: "subs_ok w"
    and c: "t_conflict subs_T (t_touch subs_T (clock w) r) (filter (\<lambda>x. sub_ID x \<noteq> sub_ID r) (t_get subs_T w)) = None"
  let ?r = "t_touch subs_T (clock w) r"
  show "subs_ok (t_upd subs_T (upd_rows (\<lambda>x. sub_ID x = sub_ID r) (\<lambda>_. t_cols subs_T ?r)) w)"
    by (rule subs_ok_put [OF ok, of ?r]) (use c in \<open>simp_all only: subs_get sub_cols\<close>, simp)
  assume "\<forall>x\<in>set (t_get subs_T w). sub_ID x \<noteq> sub_ID r"
  then have "filter (\<lambda>x. sub_ID x \<noteq> sub_ID r) (subs w) = subs w" unfolding subs_get by (simp add: filter_id_conv)
  with c have "t_conflict subs_T ?r (subs w) = None" unfolding subs_get by simp
  then show "subs_ok (t_upd subs_T (\<lambda>t. t @ [t_cols subs_T ?r]) w)"
    by (rule subs_ok_add [OF ok]) (simp add: sub_cols)
qed simp

lemma subs_ok_map:
  assumes "subs_ok w" and "subs w' = map f (subs w)" and "\<And>x. sub_ID (f x) = sub_ID x" "\<And>x. IsLive (f x) = IsLive x"
    "\<And>x. sub_AccountID (f x) = sub_AccountID x" "\<And>x. sub_ProductID (f x) = sub_ProductID x"
  shows "subs_ok w'"
proof -
  have "map sub_ID (map f (subs w)) = map sub_ID (subs w)" using assms(3) by simp
  then have uniq: "uniq_by sub_ID (subs w')" using assms(1,2) by (metis subs_ok_def uniq_by_def)
  have eq: "x = y" if xy: "x \<in> set (subs w)" "y \<in> set (subs w)" "IsLive (f x)" "IsLive (f y)"
    "sub_AccountID (f x) = sub_AccountID (f y)" "sub_ProductID (f x) = sub_ProductID (f y)" for x y
    using assms(1) xy unfolding subs_ok_def assms(4-6) by blast
  have "u = v" if "u \<in> f ` set (subs w)" "v \<in> f ` set (subs w)" "IsLive u" "IsLive v"
    "sub_AccountID u = sub_AccountID v" "sub_ProductID u = sub_ProductID v" for u v
    using that eq by (elim imageE) metis
  then show ?thesis using uniq unfolding subs_ok_def assms(2) set_map by blast
qed

lemma subs_renewal_state [keeps_intros]: "keeps subs_ok (SubscriptionRepo_UpdateRenewalState i n t)"
proof -
  have "subs_ok (subs_update (upd_rows (\<lambda>s. sub_ID s = i) (\<lambda>r. t_cols subs_T (t_touch subs_T (clock w)
      (r\<lparr>sub_RenewalAttempts := n, sub_NextRenewalAt := t\<rparr>)))) w)" if "subs_ok w" for w
    by (rule subs_ok_map [OF that, of _ "\<lambda>s. if sub_ID s = i then t_cols subs_T (t_touch subs_T (clock w)
      (s\<lparr>sub_RenewalAttempts := n, sub_NextRenewalAt := t\<rparr>)) else s"])
      (simp_all add: upd_rows_def sub_cols, simp add: IsLive_def)
  then show ?thesis unfolding SubscriptionRepo_UpdateRenewalState_def
    by (intro keeps_intros keeps_q_update) (auto simp: subs_get)
qed

lemma ent_service_frames [leaves_intros]:
  assumes "stable f" "apart f ents_T" "\<And>w g. f (w\<lparr>redis := g\<rparr>) = f w"
  shows "leaves f (EntitlementService_SyncFromSubscription s)" "leaves f (EntitlementService_ResetToFree a p)"
    "leaves f (EntitlementService_Get a p)" "leaves f (EntitlementService_Refresh a p)"
  unfolding EntitlementService_SyncFromSubscription_def EntitlementService_ResetToFree_def EntitlementService_Get_def
    EntitlementService_Refresh_def SubscriptionRepo_UpsertEntitlement_def SubscriptionRepo_DeleteEntitlements_def
    SubscriptionRepo_GetEntitlements_def ProductRepo_GetPlanByID_def EntitlementCache_Invalidate_def
    EntitlementCache_Get_def EntitlementCache_Set_def Let_def
  using assms by (auto intro!: leaves_intros split: option.splits sum.splits prod.splits json.splits)

lemma subs_apart [simp, intro]: "apart subs ents_T"
  by (simp add: apart_def)

lemma sync_subs [keeps_intros]:
  "keeps subs_ok (EntitlementService_SyncFromSubscription s)" "keeps subs_ok (EntitlementService_ResetToFree a p)"
  by (auto intro!: keeps_subs_leaves ent_service_frames)

lemma subs_reads [keeps_intros]:
  "keeps subs_ok (SubscriptionRepo_GetActive a p)" "keeps subs_ok (SubscriptionRepo_GetByID i)"
  "keeps subs_ok (ProductRepo_GetPlanByID i)"
  unfolding SubscriptionRepo_GetActive_def SubscriptionRepo_GetByID_def ProductRepo_GetPlanByID_def
  by (auto intro!: keeps_intros)

lemma subs_service [keeps_intros]:
  "keeps subs_ok (SubscriptionService_Activate a p pl m e)" "keeps subs_ok (SubscriptionService_Expire g i)"
  "keeps subs_ok (SubscriptionService_EndGrace i)" "keeps subs_ok (SubscriptionService_Cancel a p)"
  unfolding SubscriptionService_Activate_def SubscriptionService_Expire_def SubscriptionService_EndGrace_def
    SubscriptionService_Cancel_def
  by (auto intro!: keeps_intros split: sum.splits option.splits)

lemma live_for_iff: "live_for a p s \<longleftrightarrow> IsLive s \<and> sub_AccountID s = a \<and> sub_ProductID s = p"
  by (auto simp: live_for_def IsLive_def)

lemma expire_live:
  assumes "subs_ok w" and "faults w = []" and "find (live_for a p) (subs w) = Some x"
  defines "f \<equiv> \<lambda>_. t_touch subs_T (clock w) (x\<lparr>sub_Status := SubStatusExpired\<rparr>)"
  shows "SubscriptionRepo_Update (x\<lparr>sub_Status := SubStatusExpired\<rparr>) w
      = (Inr (), subs_update (upd_rows (\<lambda>y. sub_ID y = sub_ID x) f) w)"
    and "filter (live_for a p) (upd_rows (\<lambda>y. sub_ID y = sub_ID x) f (subs w)) = []"
proof -
  have x: "x \<in> set (subs w)" "live_for a p x" using find_SomeD [OF assms(3)] by simp_all
  have "t_conflict subs_T (f x) (filter (\<lambda>y. sub_ID y \<noteq> sub_ID x) (subs w)) = None"
    unfolding sub_conflict f_def by (simp add: sub_cols IsLive_def)
  then show "SubscriptionRepo_Update (x\<lparr>sub_Status := SubStatusExpired\<rparr>) w
      = (Inr (), subs_update (upd_rows (\<lambda>y. sub_ID y = sub_ID x) f) w)"
    unfolding SubscriptionRepo_Update_def using assms(2) x
    by (subst calm_save [where x = x]) (simp_all add: sub_cols f_def)
  have "y = x" if "y \<in> set (subs w)" "live_for a p y" for y
    using that x assms(1) by (auto simp: subs_ok_def live_for_iff)
  then have "\<not> live_for a p z" if "z \<in> set (upd_rows (\<lambda>y. sub_ID y = sub_ID x) f (subs w))" for z
    using that by (auto simp: set_upd_rows f_def live_for_iff sub_cols IsLive_def)
  then show "filter (live_for a p) (upd_rows (\<lambda>y. sub_ID y = sub_ID x) f (subs w)) = []"
    by (simp add: filter_empty_conv)
qed

text \<open>C6: An activation replaces the live subscription. When no statement fails and the plan exists,
  \<open>Activate\<close> returns an active subscription of that plan which starts now and expires at the end
  of the plan's cycle; afterwards it is the only live subscription of the account for the product,
  and no row of another account or product has changed.\<close>

theorem activation_replaces_live:
  assumes "subs_ok w" and "faults w = []" and "find (\<lambda>q. plan_ID q = pid) (plans w) = Some plan"
    and "0 < seqs w ''subscriptions''" and "\<forall>x\<in>set (subs w). sub_ID x < seqs w ''subscriptions''"
  shows "\<exists>sub w'. SubscriptionService_Activate a p pid pm ext w = (Inr sub, w')
    \<and> sub_Status sub = SubStatusActive \<and> sub_PlanID sub = pid \<and> sub_StartedAt sub = Some (clock w)
    \<and> sub_ExpiresAt sub = calculateExpiry (clock w) (plan_BillingCycle plan)
    \<and> filter (live_for a p) (subs w') = [sub]
    \<and> (\<forall>b q. (b, q) \<noteq> (a, p) \<longrightarrow> filter (live_for b q) (subs w') = filter (live_for b q) (subs w))"
proof -
  let ?new = "t_new subs_T (seqs w ''subscriptions'') (clock w) (Subscription0\<lparr>sub_AccountID := a,
        sub_ProductID := p, sub_PlanID := pid, sub_Status := SubStatusActive, sub_StartedAt := Some (clock w),
        sub_PaymentMethod := pm, sub_ExternalSubID := ext,
        sub_ExpiresAt := calculateExpiry (clock w) (plan_BillingCycle plan)\<rparr>)"
  define olds where "olds = (case find (live_for a p) (subs w) of None \<Rightarrow> subs w
     | Some x \<Rightarrow> upd_rows (\<lambda>y. sub_ID y = sub_ID x) (\<lambda>_. t_touch subs_T (clock w) (x\<lparr>sub_Status := SubStatusExpired\<rparr>)) (subs w))"
  have new: "sub_ID ?new = seqs w ''subscriptions''" "live_for a p ?new" "sub_Status ?new = SubStatusActive"
    "sub_PlanID ?new = pid" "sub_StartedAt ?new = Some (clock w)" "sub_AccountID ?new = a" "sub_ProductID ?new = p"
    "sub_ExpiresAt ?new = calculateExpiry (clock w) (plan_BillingCycle plan)"
    by (simp_all add: subs_T_def serial_def Subscription0_def live_for_def or_default_def)
  have none: "filter (live_for a p) olds = []"
    using expire_live(2) [OF assms(1,2)] by (auto simp: olds_def find_None_filter split: option.split)
  have ids: "sub_ID y \<noteq> seqs w ''subscriptions''" if "y \<in> set olds" for y
    using that assms(5) by (auto simp: olds_def set_upd_rows sub_cols split: option.splits dest: find_SomeD)
  have other: "filter (live_for b q) olds = filter (live_for b q) (subs w)" if "(b, q) \<noteq> (a, p)" for b q
  proof (cases "find (live_for a p) (subs w)")
    case (Some x)
    have x: "x \<in> set (subs w)" "sub_AccountID x = a" "sub_ProductID x = p"
      using find_SomeD [OF Some] by (simp_all add: live_for_def)
    have "y = x" if "y \<in> set (subs w)" "sub_ID y = sub_ID x" for y
      using that x(1) assms(1) uniq_by_eq [of sub_ID "subs w" y x] by (simp add: subs_ok_def)
    then have "olds = upd_rows (\<lambda>y. y = x) (\<lambda>_. t_touch subs_T (clock w) (x\<lparr>sub_Status := SubStatusExpired\<rparr>)) (subs w)"
      unfolding olds_def Some option.case upd_rows_def by (intro map_cong) auto
    then show ?thesis using that x(2,3)
      by (simp only:) (rule filter_upd_rows_off; auto simp: live_for_iff sub_cols)
  qed (simp add: olds_def)
  let ?w1 = "subs_update (\<lambda>_. olds) w"
  let ?w2 = "subs_update (\<lambda>_. olds @ [?new]) (w\<lparr>seqs := (seqs w)(''subscriptions'' := seqs w ''subscriptions'' + 1)\<rparr>)"
  have plan: "ProductRepo_GetPlanByID pid w = (Inr (Some plan), w)"
    using assms(2,3) by (simp add: ProductRepo_GetPlanByID_def calm)
  have live: "SubscriptionRepo_GetActive a p w = (Inr (find (live_for a p) (subs w)), w)"
    using assms(2) by (simp add: SubscriptionRepo_GetActive_def calm)
  have expire: "(case find (live_for a p) (subs w) of None \<Rightarrow> ret ()
           | Some old \<Rightarrow> wrap ''expire old sub'' (SubscriptionRepo_Update (old\<lparr>sub_Status := SubStatusExpired\<rparr>))) w = (Inr (), ?w1)"
    using expire_live(1) [OF assms(1,2)]
    by (auto simp: ret_def wrap_def olds_def upd_rows_def split: option.split)
  have "t_conflict subs_T ?new olds = None"
    using none ids new(1,6,7) by (auto simp: sub_conflict filter_empty_conv live_for_iff)
  then have create: "SubscriptionRepo_Create (Subscription0\<lparr>sub_AccountID := a,
        sub_ProductID := p, sub_PlanID := pid, sub_Status := SubStatusActive, sub_StartedAt := Some (clock w),
        sub_PaymentMethod := pm, sub_ExternalSubID := ext,
        sub_ExpiresAt := calculateExpiry (clock w) (plan_BillingCycle plan)\<rparr>) ?w1 = (Inr ?new, ?w2)"
    unfolding SubscriptionRepo_Create_def using assms(2)
    by (subst calm_insert [OF _ refl]) (simp_all add: subs_get sub_cols)
  let ?w3 = "snd (EntitlementService_SyncFromSubscription ?new ?w2)"
  have "SubscriptionService_Activate a p pid pm ext w = (Inr ?new, ?w3)"
    unfolding SubscriptionService_Activate_def using plan live expire create
    by (simp add: calm_attempt calm_bind [of "wrap _ _"] wrap_def bind_def now_def ret_def ignore_run)
  moreover have "subs ?w3 = olds @ [?new]"
    using ent_service_frames(1) [of subs ?new] by (simp add: leaves_def)
  ultimately show ?thesis using new none other by (auto simp: live_for_iff)
qed

definition demo_live :: world where
  "demo_live = demo_plans\<lparr>
     subs := [Subscription0\<lparr>sub_ID := 4, sub_AccountID := 7, sub_ProductID := ''api'', sub_PlanID := 1,
                sub_Status := SubStatusActive, sub_StartedAt := Some 1000, sub_ExpiresAt := Some (1000 + 31 * day_ns)\<rparr>],
     ents := [AccountEntitlement0\<lparr>ent_ID := 1, ent_AccountID := 7, ent_ProductID := ''api'', ent_Key := ''plan_code'',
                ent_Value := ''pro'', ent_ExpiresAt := Some (1000 + 31 * day_ns)\<rparr>,
              AccountEntitlement0\<lparr>ent_ID := 2, ent_AccountID := 7, ent_ProductID := ''api'', ent_Key := ''quota'',
                ent_Value := ''500'', ent_ExpiresAt := Some (1000 + 31 * day_ns)\<rparr>]\<rparr>"

lemma demo_live_ok:
  "subs_ok demo_live" "faults demo_live = []" "0 < seqs demo_live ''subscriptions''"
  "\<forall>x\<in>set (subs demo_live). sub_ID x < seqs demo_live ''subscriptions''"
  "map sub_Status (subs demo_live) = [SubStatusActive]" "clock demo_live = 1000"
  by (simp_all add: demo_live_def demo_plans_def world0_def Subscription0_def subs_ok_def uniq_by_def)

theorem activation_replaces_live_witness:
  "\<exists>sub w'. SubscriptionService_Activate 7 ''api'' 2 ''stripe'' ''si_1'' demo_live = (Inr sub, w')
    \<and> sub_ExpiresAt sub = None \<and> filter (live_for 7 ''api'') (subs w') = [sub]"
proof -
  have plan: "find (\<lambda>q. plan_ID q = 2) (plans demo_live) = Some (plans demo_live ! 1)" by code_simp
  have cyc: "calculateExpiry (clock demo_live) (plan_BillingCycle (plans demo_live ! 1)) = None" by code_simp
  show ?thesis using activation_replaces_live [OF demo_live_ok(1,2) plan demo_live_ok(3,4), of 7 "''api''" "''stripe''" "''si_1''"] cyc
    by metis
qed

text \<open>An activation is not atomic. The old subscription is expired by one statement and the new
  one created by another: if the second fails, the caller gets an error, the account has no live
  subscription any more, and the entitlements it paid for still say otherwise.\<close>

theorem failed_activation_drops_subscription:
  "\<exists>w'. SubscriptionService_Activate 7 ''api'' 2 ''stripe'' '''' (demo_live\<lparr>faults := [False, False, False, True]\<rparr>)
      = (Inl (EWrap ''create subscription'' EDb), w')
    \<and> filter (live_for 7 ''api'') (subs demo_live) \<noteq> [] \<and> filter (live_for 7 ''api'') (subs w') = []
    \<and> ents w' = ents demo_live"
proof -
  let ?r = "SubscriptionService_Activate 7 ''api'' 2 ''stripe'' '''' (demo_live\<lparr>faults := [False, False, False, True]\<rparr>)"
  have "fst ?r = Inl (EWrap ''create subscription'' EDb)" by code_simp
  moreover have "filter (live_for 7 ''api'') (subs demo_live) \<noteq> []" by code_simp
  moreover have "filter (live_for 7 ''api'') (subs (snd ?r)) = []" by code_simp
  moreover have "ents (snd ?r) = ents demo_live" by code_simp
  ultimately show ?thesis by (intro exI [of _ "snd ?r"]) (metis prod.collapse)
qed

text \<open>A plan without an end keeps the end of the plan it replaces. The upsert of an entitlement
  skips a nil expiry, so after an upgrade from a monthly plan to a lifetime plan the
  entitlements still expire with the month: the live subscription has no expiry, and a read
  answers \<open>free\<close>.\<close>

theorem lifetime_upgrade_loses_entitlements:
  "let w1 = snd (SubscriptionService_Activate 7 ''api'' 2 ''wallet'' '''' demo_live);
       w2 = w1\<lparr>clock := clock w1 + 32 * day_ns\<rparr>
   in map sub_ExpiresAt (filter (live_for 7 ''api'') (subs w2)) = [None]
    \<and> (\<exists>m w3. EntitlementService_Get 7 ''api'' w2 = (Inr m, w3) \<and> m ''plan_code'' = Some ''free'' \<and> m ''quota'' = None)"
proof -
  let ?w1 = "snd (SubscriptionService_Activate 7 ''api'' 2 ''wallet'' '''' demo_live)"
  let ?w2 = "?w1\<lparr>clock := clock ?w1 + 32 * day_ns\<rparr>"
  have "map sub_ExpiresAt (filter (live_for 7 ''api'') (subs ?w2)) = [None]" by code_simp
  moreover have "(case fst (EntitlementService_Get 7 ''api'' ?w2) of Inl e \<Rightarrow> False
     | Inr m \<Rightarrow> m ''plan_code'' = Some ''free'' \<and> m ''quota'' = None)" by code_simp
  then have "\<exists>m w3. EntitlementService_Get 7 ''api'' ?w2 = (Inr m, w3) \<and> m ''plan_code'' = Some ''free'' \<and> m ''quota'' = None"
    by (cases "EntitlementService_Get 7 ''api'' ?w2") (auto split: sum.splits)
  ultimately show ?thesis unfolding Let_def by blast
qed

end
