(* ===== verification/Refunds.thy ===== *)
theory Refunds
  imports Subscriptions Outbox
begin

text \<open>
  \<^verbatim>\<open>adapter/repo/refund.go\<close> and \<^verbatim>\<open>app/refund_service.go\<close>: a refund request is
  reviewed once, an approval credits the wallet, completes the refund, cancels a refunded
  subscription and queues an event. The service is modelled as \<^verbatim>\<open>cmd/server/main.go\<close> wires
  it: with the outbox, the NATS publisher as a fallback, and the subscription canceller.
\<close>

section \<open>Repository\<close>

definition RefundRepo_Create :: "Refund \<Rightarrow> Refund op" where
  "RefundRepo_Create r = q_insert refunds_T r"

definition RefundRepo_GetByRefundNo :: "string \<Rightarrow> Refund option op" where
  "RefundRepo_GetByRefundNo refundNo = opt_row (q_first refunds_T (\<lambda>r. rfd_RefundNo r = refundNo))"

definition RefundRepo_GetPendingByOrderNo :: "string \<Rightarrow> Refund option op" where
  "RefundRepo_GetPendingByOrderNo orderNo =
     opt_row (q_first refunds_T (\<lambda>r. rfd_OrderNo r = orderNo \<and> rfd_Status r \<in> {''pending'', ''approved''}))"

definition RefundRepo_UpdateStatus :: "string \<Rightarrow> string \<Rightarrow> string \<Rightarrow> string \<Rightarrow> string \<Rightarrow> time option \<Rightarrow> unit op" where
  "RefundRepo_UpdateStatus refundNo fromStatus toStatus reviewNote reviewedBy reviewedAt =
     bind (q_update refunds_T (\<lambda>r. rfd_RefundNo r = refundNo \<and> rfd_Status r = fromStatus)
       (\<lambda>r. r\<lparr>rfd_Status := toStatus, rfd_ReviewNote := reviewNote, rfd_ReviewedBy := reviewedBy,
              rfd_ReviewedAt := reviewedAt\<rparr>)) (\<lambda>rowsAffected.
     if rowsAffected = 0
     then fail (EMsg (''refund '' @ refundNo @ '': transition '' @ fromStatus @ ''->'' @ toStatus
            @ '' failed (concurrent or wrong state)''))
     else ret ())"

definition RefundRepo_MarkCompleted :: "string \<Rightarrow> time \<Rightarrow> unit op" where
  "RefundRepo_MarkCompleted refundNo completedAt =
     bind (q_update refunds_T (\<lambda>r. rfd_RefundNo r = refundNo)
       (\<lambda>r. r\<lparr>rfd_Status := RefundStatusCompleted, rfd_CompletedAt := Some completedAt\<rparr>)) (\<lambda>_. ret ())"

definition RefundRepo_ListByAccount :: "int \<Rightarrow> int \<Rightarrow> int \<Rightarrow> (Refund list \<times> int) op" where
  "RefundRepo_ListByAccount accountID page pageSize =
     q_page refunds_T (\<lambda>r. rfd_AccountID r = accountID) rfd_CreatedAt page pageSize"

section \<open>Service\<close>

definition refundWindowDays :: int where
  "refundWindowDays = 7"

text \<open>\<^verbatim>\<open>fmt.Sprintf("LR%X", n)\<close>\<close>

definition generateRefundNo :: "string op" where
  "generateRefundNo = bind now (\<lambda>n. ret (''LR'' @ (if n < 0 then ''-'' else []) @ hex_of (nat \<bar>n\<bar>)))"

definition RefundService_RequestRefund :: "int \<Rightarrow> string \<Rightarrow> string \<Rightarrow> Refund op" where
  "RefundService_RequestRefund accountID orderNo reason =
     bind (wrap ''get order'' (WalletRepo_GetPaymentOrderByNo orderNo)) (\<lambda>o1. case o1 of
       None \<Rightarrow> fail (EMsg ''order not found'')
     | Some order \<Rightarrow>
       if ord_AccountID order \<noteq> accountID then fail (EMsg ''order not found'') else
       if ord_Status order \<noteq> OrderStatusPaid then fail (EMsg ''refund requires a paid order'') else
       bind now (\<lambda>n.
       if ord_CreatedAt order < AddDate n 0 0 (- refundWindowDays)
       then fail (EMsg ''refund window of 7 days has expired'') else
       bind (wrap ''check pending refund'' (RefundRepo_GetPendingByOrderNo orderNo)) (\<lambda>p.
       if p \<noteq> None then fail (EMsg ''a refund is already in progress for this order'') else
       bind generateRefundNo (\<lambda>no.
       wrap ''create refund'' (RefundRepo_Create (Refund0\<lparr>rfd_RefundNo := no, rfd_AccountID := accountID,
          rfd_OrderNo := orderNo, rfd_AmountCNY := ord_AmountCNY order, rfd_Reason := reason,
          rfd_Status := RefundStatusPending\<rparr>))))))"

definition RefundService_GetByNo :: "int \<Rightarrow> string \<Rightarrow> Refund op" where
  "RefundService_GetByNo accountID refundNo =
     bind (wrap ''get refund'' (RefundRepo_GetByRefundNo refundNo)) (\<lambda>o1. case o1 of
       None \<Rightarrow> fail (EMsg ''refund not found'')
     | Some r \<Rightarrow> if rfd_AccountID r \<noteq> accountID then fail (EMsg ''refund not found'') else ret r)"

definition RefundService_ListByAccount :: "int \<Rightarrow> int \<Rightarrow> int \<Rightarrow> (Refund list \<times> int) op" where
  "RefundService_ListByAccount accountID page pageSize = RefundRepo_ListByAccount accountID page pageSize"

text \<open>The payload is a Go map: \<^verbatim>\<open>json.Marshal\<close> writes its keys sorted.\<close>

definition RefundService_publishRefundCompleted :: "Refund \<Rightarrow> unit op" where
  "RefundService_publishRefundCompleted r =
     attempt (NewEvent ''identity.refund.completed'' (rfd_AccountID r) '''' ''''
        (JObj [(''amount_cny'', JNum (rfd_AmountCNY r)), (''order_no'', JStr (rfd_OrderNo r)),
               (''refund_no'', JStr (rfd_RefundNo r))])) (\<lambda>e. case e of
       Inl _ \<Rightarrow> ret ()
     | Inr ev \<Rightarrow> attempt (OutboxRepo_Insert ev) (\<lambda>i. case i of
         Inr _ \<Rightarrow> ret ()
       | Inl _ \<Rightarrow> ignore (Publisher_Publish ev)))"

text \<open>After the transition: credit, completion, and what is only attempted.\<close>

definition approved_refund :: "Refund \<Rightarrow> unit op" where
  "approved_refund r =
     bind (wrap ''credit wallet'' (WalletRepo_Credit (rfd_AccountID r) (rfd_AmountCNY r) TxTypeRefund
        (''Refund approved: '' @ rfd_RefundNo r) ''refund'' (rfd_RefundNo r) '''')) (\<lambda>_.
     bind now (\<lambda>completedAt.
     bind (wrap ''mark refund completed'' (RefundRepo_MarkCompleted (rfd_RefundNo r) completedAt)) (\<lambda>_.
     attempt (WalletRepo_GetPaymentOrderByNo (rfd_OrderNo r)) (\<lambda>o1.
     bind (case o1 of Inr (Some order) \<Rightarrow>
             if ord_OrderType order = ''subscription'' \<and> ord_ProductID order \<noteq> ''''
             then ignore (SubscriptionService_Cancel (rfd_AccountID r) (ord_ProductID order)) else ret ()
           | _ \<Rightarrow> ret ()) (\<lambda>_.
     RefundService_publishRefundCompleted r)))))"

definition RefundService_Approve :: "string \<Rightarrow> string \<Rightarrow> string \<Rightarrow> unit op" where
  "RefundService_Approve refundNo reviewerID reviewNote =
     bind (wrap ''get refund'' (RefundRepo_GetByRefundNo refundNo)) (\<lambda>o1. case o1 of
       None \<Rightarrow> fail (EMsg ''refund not found'')
     | Some r \<Rightarrow>
       if rfd_Status r \<noteq> RefundStatusPending
       then fail (EMsg (''refund is not in pending state (current: '' @ rfd_Status r @ '')'')) else
       bind now (\<lambda>n.
       bind (wrap ''update refund status to approved'' (RefundRepo_UpdateStatus refundNo RefundStatusPending
          RefundStatusApproved reviewNote reviewerID (Some n))) (\<lambda>_.
       approved_refund r)))"

definition RefundService_Reject :: "string \<Rightarrow> string \<Rightarrow> string \<Rightarrow> unit op" where
  "RefundService_Reject refundNo reviewerID reviewNote =
     bind (wrap ''get refund'' (RefundRepo_GetByRefundNo refundNo)) (\<lambda>o1. case o1 of
       None \<Rightarrow> fail (EMsg ''refund not found'')
     | Some r \<Rightarrow>
       if rfd_Status r \<noteq> RefundStatusPending
       then fail (EMsg (''refund is not in pending state (current: '' @ rfd_Status r @ '')'')) else
       bind now (\<lambda>n.
       wrap ''update refund status to rejected'' (RefundRepo_UpdateStatus refundNo RefundStatusPending
          RefundStatusRejected reviewNote reviewerID (Some n))))"

section \<open>A refund is paid at most once\<close>

definition refund_armed :: "string \<Rightarrow> world \<Rightarrow> bool" where
  "refund_armed no w \<longleftrightarrow> (\<exists>r\<in>set (refunds w). rfd_RefundNo r = no \<and> rfd_Status r = RefundStatusPending)
     \<or> (\<forall>r\<in>set (refunds w). rfd_RefundNo r \<noteq> no)"

definition is_refund_of :: "string \<Rightarrow> WalletTransaction \<Rightarrow> bool" where
  "is_refund_of no t \<longleftrightarrow> tx_Type t = TxTypeRefund \<and> tx_ReferenceType t = ''refund'' \<and> tx_ReferenceID t = no"

definition refund_rows :: "string \<Rightarrow> world \<Rightarrow> nat" where
  "refund_rows no w = length (filter (is_refund_of no) (transactions w))"

text \<open>\<open>settled k w\<close>: refund \<open>k\<close> exists and is not pending.\<close>

abbreviation settled :: "string \<Rightarrow> world \<Rightarrow> bool" where
  "settled k w \<equiv> \<not> refund_armed k w"

lemma stable_settled [simp, intro]: "stable (settled k)"
  by (simp add: stable_def refund_armed_def)

lemma keeps_settled_leaves: "leaves refunds m \<Longrightarrow> keeps (settled k) m"
  by (simp add: keeps_def leaves_def refund_armed_def)

lemma refund_cols:
  "rfd_RefundNo (t_cols refunds_T r) = rfd_RefundNo r" "rfd_Status (t_cols refunds_T r) = rfd_Status r"
  "rfd_RefundNo (t_touch refunds_T n r) = rfd_RefundNo r" "rfd_Status (t_touch refunds_T n r) = rfd_Status r"
  "rfd_RefundNo (t_new refunds_T i n r) = rfd_RefundNo r"
  "rfd_AccountID (t_cols refunds_T r) = rfd_AccountID r" "rfd_AccountID (t_touch refunds_T n r) = rfd_AccountID r"
  "rfd_AmountCNY (t_cols refunds_T r) = dec 2 (rfd_AmountCNY r)" "rfd_AmountCNY (t_touch refunds_T n r) = rfd_AmountCNY r"
  "rfd_OrderNo (t_cols refunds_T r) = rfd_OrderNo r" "rfd_OrderNo (t_touch refunds_T n r) = rfd_OrderNo r"
  by (simp_all add: refunds_T_def)

text \<open>An update that never writes \<open>pending\<close> keeps refunds settled.\<close>

lemma settled_update:
  assumes "\<And>r. rfd_RefundNo (f r) = rfd_RefundNo r" "\<And>r. rfd_Status (f r) \<noteq> RefundStatusPending"
  shows "keeps (settled k) (q_update refunds_T P f)"
proof (rule keeps_q_update)
  fix w :: world
  let ?f = "\<lambda>r. t_cols refunds_T (t_touch refunds_T (clock w) (f r))"
  assume "settled k w"
  then obtain r where r: "r \<in> set (refunds w)" "rfd_RefundNo r = k"
    and np: "\<forall>r\<in>set (refunds w). rfd_RefundNo r = k \<longrightarrow> rfd_Status r \<noteq> RefundStatusPending"
    unfolding refund_armed_def by auto
  have "\<exists>r\<in>set (upd_rows P ?f (refunds w)). rfd_RefundNo r = k"
    using upd_rows_mem [OF r(1), of P ?f] r(2) assms(1) by (intro bexI [of _ "if P r then ?f r else r"]) (auto simp: refund_cols)
  moreover have "\<forall>r\<in>set (upd_rows P ?f (refunds w)). rfd_RefundNo r = k \<longrightarrow> rfd_Status r \<noteq> RefundStatusPending"
    using np assms by (auto simp: set_upd_rows refund_cols)
  ultimately show "settled k (t_upd refunds_T (upd_rows P ?f) w)" unfolding refund_armed_def by auto
qed simp

lemma settled_insert: "keeps (settled k) (q_insert refunds_T r)"
proof (rule keeps_q_insert)
  fix w :: world and i assume "settled k w"
    and "t_conflict refunds_T (t_new refunds_T i (clock w) r) (t_get refunds_T w) = None"
  then show "settled k (t_upd refunds_T (\<lambda>t. t @ [t_cols refunds_T (t_new refunds_T i (clock w) r)])
      (w\<lparr>seqs := (seqs w)(t_name refunds_T := i + 1)\<rparr>))"
    by (auto simp: refund_armed_def refunds_T_def)
qed simp

lemma refunds_apart [simp, intro]:
  "apart refunds wallets_T" "apart refunds transactions_T" "apart refunds orders_T" "apart refunds subs_T"
  "apart refunds outbox_T" "apart transactions refunds_T" "apart transactions orders_T" "apart transactions subs_T"
  "apart transactions outbox_T" "apart refunds vips_T" "apart refunds ents_T" "apart transactions ents_T"
  by (simp_all add: apart_def)

lemma publish_frames:
  assumes "stable f" "apart f outbox_T" "\<And>w g. f (w\<lparr>published := g\<rparr>) = f w"
  shows "leaves f (RefundService_publishRefundCompleted r)"
  using assms unfolding RefundService_publishRefundCompleted_def NewEvent_def OutboxRepo_Insert_def Publisher_Publish_def
  by (auto intro!: leaves_intros leaves_stmt split: sum.splits) (simp add: leaves_def)

lemma cancel_frames:
  assumes "stable f" "apart f subs_T"
  shows "leaves f (SubscriptionService_Cancel a p)"
  using assms unfolding SubscriptionService_Cancel_def SubscriptionRepo_GetActive_def SubscriptionRepo_Update_def
  by (auto intro!: leaves_intros split: sum.splits option.splits)

lemma credit_refunds: "leaves refunds (WalletRepo_Credit a x ty d rt ri p)"
  unfolding WalletRepo_Credit_def by (auto intro!: leaves_intros)

lemma MarkCompleted_settled: "keeps (settled k) (RefundRepo_MarkCompleted no t)"
  unfolding RefundRepo_MarkCompleted_def by (intro keeps_intros settled_update) simp_all

lemma approved_settled: "keeps (settled k) (approved_refund r)"
  unfolding approved_refund_def WalletRepo_GetPaymentOrderByNo_def
  by (auto intro!: keeps_intros MarkCompleted_settled keeps_settled_leaves [OF credit_refunds]
      keeps_settled_leaves [OF publish_frames] keeps_settled_leaves [OF cancel_frames]
      split: sum.splits option.splits)

lemma rest_transactions:
  "leaves transactions (RefundRepo_MarkCompleted no t)" "leaves transactions (RefundRepo_UpdateStatus no a b c d e)"
  "leaves transactions (RefundRepo_GetByRefundNo no)" "leaves transactions (RefundRepo_Create r)"
  "leaves transactions (RefundService_publishRefundCompleted r)" "leaves transactions (SubscriptionService_Cancel u v)"
  unfolding RefundRepo_MarkCompleted_def RefundRepo_UpdateStatus_def RefundRepo_GetByRefundNo_def RefundRepo_Create_def
  by (auto intro!: leaves_intros publish_frames cancel_frames)

lemma approved_rows:
  assumes "approved_refund r w = (x, w')"
  shows "transactions w' = transactions w \<or> (\<exists>t. transactions w' = transactions w @ [t]
     \<and> tx_Type t = TxTypeRefund \<and> tx_ReferenceType t = ''refund'' \<and> tx_ReferenceID t = rfd_RefundNo r)"
proof -
  let ?m = "WalletRepo_Credit (rfd_AccountID r) (rfd_AmountCNY r) TxTypeRefund
        (''Refund approved: '' @ rfd_RefundNo r) ''refund'' (rfd_RefundNo r) ''''"
  obtain y w1 where m: "?m w = (y, w1)" by fastforce
  have "transactions (snd (approved_refund r w)) = transactions (snd (wrap ''credit wallet'' ?m w))"
    unfolding approved_refund_def WalletRepo_GetPaymentOrderByNo_def
    by (rule bind_rest) (auto intro!: leaves_intros rest_transactions split: sum.splits option.splits)
  then have "transactions w' = transactions w1" using assms m by simp
  with Credit_rows [OF m] show ?thesis by simp
qed

text \<open>The moves of the others: requests, rejections, unrelated credits, time and failures.\<close>

datatype refund_env = Ask int string string | Refuse string string string | CreditOther int rat string
  | RefundClock time | RefundFaults "bool list"

fun refund_env_step :: "refund_env \<Rightarrow> world \<Rightarrow> world" where
  "refund_env_step (Ask a no reason) w = snd (RefundService_RequestRefund a no reason w)"
| "refund_env_step (Refuse no reviewer note) w = snd (RefundService_Reject no reviewer note w)"
| "refund_env_step (CreditOther a x ref) w = snd (WalletRepo_Credit a x TxTypeBonus '''' ''admin'' ref '''' w)"
| "refund_env_step (RefundClock t) w = w\<lparr>clock := t\<rparr>"
| "refund_env_step (RefundFaults bs) w = w\<lparr>faults := bs\<rparr>"

definition approve_step :: "string \<times> string \<Rightarrow> string \<Rightarrow> world \<Rightarrow> world" where
  "approve_step a no w = snd (RefundService_Approve no (fst a) (snd a) w)"

lemma UpdateStatus_settles:
  assumes "RefundRepo_UpdateStatus no RefundStatusPending st note rv ra w = (Inr u, w')" and "st \<noteq> RefundStatusPending"
  shows "refund_armed no w" and "settled no w'"
proof -
  let ?f = "\<lambda>r. t_cols refunds_T (t_touch refunds_T (clock w) (r\<lparr>rfd_Status := st, rfd_ReviewNote := note,
     rfd_ReviewedBy := rv, rfd_ReviewedAt := ra\<rparr>))"
  let ?P = "\<lambda>r. rfd_RefundNo r = no \<and> rfd_Status r = RefundStatusPending"
  from assms obtain r where r: "r \<in> set (refunds w)" "?P r" and w': "refunds w' = upd_rows ?P ?f (refunds w)"
    by (auto simp: RefundRepo_UpdateStatus_def ok_simps filter_empty_conv split: if_splits)
  then show "refund_armed no w" by (auto simp: refund_armed_def)
  have "?f r \<in> set (refunds w')" using upd_rows_mem [OF r(1), of ?P ?f] r(2) w' by simp
  moreover have "\<forall>x\<in>set (refunds w'). rfd_RefundNo x = no \<longrightarrow> rfd_Status x \<noteq> RefundStatusPending"
  proof
    fix x assume "x \<in> set (refunds w')"
    then obtain z where "x = (if ?P z then ?f z else z)" unfolding w' set_upd_rows by (rule imageE)
    then show "rfd_RefundNo x = no \<longrightarrow> rfd_Status x \<noteq> RefundStatusPending"
      using assms(2) by (cases "?P z") (simp_all add: refund_cols)
  qed
  moreover have "rfd_RefundNo (?f r) = no" using r(2) by (simp add: refund_cols)
  ultimately show "settled no w'" unfolding refund_armed_def by blast
qed

lemma UpdateStatus_settled: "st \<noteq> RefundStatusPending \<Longrightarrow> keeps (settled k) (RefundRepo_UpdateStatus no a st note rv ra)"
  unfolding RefundRepo_UpdateStatus_def by (intro keeps_intros settled_update) simp_all

lemma reads_settled: "keeps (settled k) (RefundRepo_GetByRefundNo no)" "keeps (settled k) (RefundRepo_GetPendingByOrderNo no)"
  unfolding RefundRepo_GetByRefundNo_def RefundRepo_GetPendingByOrderNo_def by (auto intro!: keeps_intros)

lemma review_settled:
  "keeps (settled k) (RefundService_Approve no rv note)" "keeps (settled k) (RefundService_Reject no rv note)"
  unfolding RefundService_Approve_def RefundService_Reject_def
  by (auto intro!: keeps_intros UpdateStatus_settled reads_settled approved_settled split: option.splits)

lemma request_settled: "keeps (settled k) (RefundService_RequestRefund a no reason)"
  unfolding RefundService_RequestRefund_def RefundRepo_Create_def generateRefundNo_def WalletRepo_GetPaymentOrderByNo_def
  by (auto intro!: keeps_intros reads_settled settled_insert split: option.splits)

lemma request_transactions: "leaves transactions (RefundService_RequestRefund a no reason)"
  "leaves transactions (RefundService_Reject no rv note)"
  unfolding RefundService_RequestRefund_def RefundService_Reject_def generateRefundNo_def WalletRepo_GetPaymentOrderByNo_def
    RefundRepo_GetPendingByOrderNo_def
  by (auto intro!: leaves_intros rest_transactions split: option.splits)

lemma Approve_pays:
  "refund_rows k (snd (RefundService_Approve j rv note w)) = refund_rows k w
   \<or> j = k \<and> refund_armed k w \<and> settled k (snd (RefundService_Approve j rv note w))
     \<and> refund_rows k (snd (RefundService_Approve j rv note w)) = Suc (refund_rows k w)"
proof -
  obtain x w1 where g: "RefundRepo_GetByRefundNo j w = (x, w1)" by fastforce
  have w1: "transactions w1 = transactions w" "refunds w1 = refunds w"
    using leavesD [OF rest_transactions(3) g] g
    by (auto simp: RefundRepo_GetByRefundNo_def opt_row_def q_first_def stmt_def split: if_splits option.splits)
  show ?thesis
  proof (cases "\<exists>r. x = Inr (Some r) \<and> rfd_Status r = RefundStatusPending")
    case False
    have "snd (RefundService_Approve j rv note w) = w1"
    proof (cases x)
      case (Inr o1)
      with False g show ?thesis
        by (cases o1) (simp_all add: RefundService_Approve_def bind_def wrap_def fail_def)
    next
      case (Inl e)
      with g show ?thesis by (simp add: RefundService_Approve_def bind_def wrap_def)
    qed
    then show ?thesis using w1 by (simp add: refund_rows_def)
  next
    case True
    then obtain r where r: "x = Inr (Some r)" "rfd_Status r = RefundStatusPending" by blast
    then have "find (\<lambda>r. rfd_RefundNo r = j) (refunds w) = Some r" using g r(1)
      by (simp add: RefundRepo_GetByRefundNo_def opt_first_ok)
    then have no: "rfd_RefundNo r = j" using find_SomeD by fast
    obtain y w2 where u: "RefundRepo_UpdateStatus j RefundStatusPending RefundStatusApproved note rv (Some (clock w1)) w1 = (y, w2)"
      by fastforce
    note t2 = leavesD [OF rest_transactions(2) u]
    show ?thesis
    proof (cases y)
      case (Inl e)
      then have "snd (RefundService_Approve j rv note w) = w2"
        using g r u by (simp add: RefundService_Approve_def bind_def wrap_def now_def)
      then show ?thesis using w1 t2 by (simp add: refund_rows_def)
    next
      case (Inr v)
      then have s: "snd (RefundService_Approve j rv note w) = snd (approved_refund r w2)"
        using g r u by (simp add: RefundService_Approve_def bind_def wrap_def now_def)
      obtain z w3 where z: "approved_refund r w2 = (z, w3)" by fastforce
      have "refund_armed j w" using UpdateStatus_settles(1) [OF u [unfolded Inr]] w1 by (simp add: refund_armed_def)
      moreover have "settled j w3" using UpdateStatus_settles(2) [OF u [unfolded Inr]] keepsD [OF approved_settled z] by simp
      moreover have "refund_rows k w3 = refund_rows k w \<or> refund_rows k w3 = refund_rows k w + (if j = k then 1 else 0)"
        using approved_rows [OF z] no w1 t2 unfolding refund_rows_def is_refund_of_def by (elim disjE exE) auto
      ultimately show ?thesis using s z by (cases "j = k") auto
    qed
  qed
qed

lemma credit_other_rows:
  "refund_rows k (snd (WalletRepo_Credit a x TxTypeBonus d rt ri p w)) = refund_rows k w"
proof -
  obtain r w1 where c: "WalletRepo_Credit a x TxTypeBonus d rt ri p w = (r, w1)" by fastforce
  from Credit_rows [OF c] show ?thesis by (auto simp: c refund_rows_def is_refund_of_def)
qed

interpretation refund_payments: pays_once refund_env_step refund_armed approve_step refund_rows
proof
  fix k e s assume n: "settled k s"
  show "settled k (refund_env_step e s)"
  proof (cases e)
    case (Ask a no reason)
    then show ?thesis using n keepsD [OF request_settled prod.collapse [symmetric]] by simp
  next
    case (Refuse no rv cmt)
    then show ?thesis using n keepsD [OF review_settled(2) prod.collapse [symmetric]] by simp
  next
    case (CreditOther a x ref)
    then show ?thesis using n keepsD [OF keeps_settled_leaves [OF credit_refunds] prod.collapse [symmetric]] by simp
  qed (insert n, simp_all add: refund_armed_def)
next
  fix k s a j assume n: "settled k s"
  then show "settled k (approve_step a j s)" using review_settled(1) by (simp add: approve_step_def keeps_def)
next
  fix k a j s show "refund_rows k (approve_step a j s) = refund_rows k s
    \<or> j = k \<and> refund_armed k s \<and> settled k (approve_step a j s) \<and> refund_rows k (approve_step a j s) = Suc (refund_rows k s)"
    unfolding approve_step_def by (rule Approve_pays)
next
  fix k e s show "refund_rows k (refund_env_step e s) = refund_rows k s"
    using request_transactions
    by (cases e) (simp_all add: credit_other_rows [unfolded refund_rows_def] leaves_def refund_rows_def)
qed


text \<open>A live row saved as not live leaves its account without a live subscription.\<close>

lemma unlive_row:
  assumes "subs_ok w" and "faults w = []" and "find (live_for a p) (subs w) = Some x"
    and "sub_ID y = sub_ID x" "\<not> IsLive y"
  shows "\<exists>w'. SubscriptionRepo_Update y w = (Inr (), w') \<and> filter (live_for a p) (subs w') = []
     \<and> (\<exists>g. w' = subs_update g w)"
proof -
  have x: "x \<in> set (subs w)" "live_for a p x" using find_SomeD [OF assms(3)] by simp_all
  let ?f = "\<lambda>_. t_touch subs_T (clock w) y"
  let ?w = "subs_update (upd_rows (\<lambda>z. sub_ID z = sub_ID y) ?f) w"
  have "t_conflict subs_T (t_touch subs_T (clock w) y) (filter (\<lambda>z. sub_ID z \<noteq> sub_ID y) (subs w)) = None"
    unfolding sub_conflict using assms(5) by (simp add: sub_cols)
  then have "SubscriptionRepo_Update y w = (Inr (), ?w)"
    unfolding SubscriptionRepo_Update_def using assms(2,4) x
    by (subst calm_save [where x = x]) (simp_all add: sub_cols)
  moreover have "z = x" if "z \<in> set (subs w)" "live_for a p z" for z
    using that x assms(1) by (auto simp: subs_ok_def live_for_iff)
  then have "\<not> live_for a p z" if "z \<in> set (upd_rows (\<lambda>z. sub_ID z = sub_ID y) ?f (subs w))" for z
    using that assms(4,5) by (auto simp: set_upd_rows live_for_iff sub_cols)
  then have "filter (live_for a p) (subs ?w) = []" by (simp add: filter_empty_conv)
  ultimately show ?thesis by blast
qed

lemma Cancel_unlives:
  assumes "subs_ok w" and "faults w = []"
  shows "filter (live_for a p) (subs (snd (SubscriptionService_Cancel a p w))) = []"
proof (cases "find (live_for a p) (subs w)")
  case None
  then show ?thesis using assms(2) None [unfolded find_None_filter]
    by (subst SubscriptionService_Cancel_def) (simp add: SubscriptionRepo_GetActive_def calm del: find_None_iff)
next
  case (Some x)
  let ?y = "x\<lparr>sub_Status := SubStatusCancelled, sub_AutoRenew := False\<rparr>"
  have "SubscriptionService_Cancel a p w = SubscriptionRepo_Update ?y w"
    using assms(2) Some by (simp add: SubscriptionService_Cancel_def SubscriptionRepo_GetActive_def calm)
  then show ?thesis using unlive_row [OF assms Some, of ?y] by (auto simp: IsLive_def)
qed

lemma UpdateStatus_run:
  assumes "faults w = []" and "r \<in> set (refunds w)" and "rfd_RefundNo r = no" and "rfd_Status r = st"
  shows "RefundRepo_UpdateStatus no st st2 note rv ra w = (Inr (),
     refunds_update (upd_rows (\<lambda>r. rfd_RefundNo r = no \<and> rfd_Status r = st) (\<lambda>r. t_cols refunds_T (t_touch refunds_T (clock w)
       (r\<lparr>rfd_Status := st2, rfd_ReviewNote := note, rfd_ReviewedBy := rv, rfd_ReviewedAt := ra\<rparr>)))) w)"
  using assms by (auto simp: RefundRepo_UpdateStatus_def calm filter_empty_conv)

lemma Credit_frames:
  assumes "stable f" "apart f wallets_T" "apart f transactions_T"
  shows "leaves f (WalletRepo_Credit a x ty d rt ri p)"
  using assms unfolding WalletRepo_Credit_def by (auto intro!: leaves_intros)

lemma publish_returns: "\<exists>w'. RefundService_publishRefundCompleted r w = (Inr (), w')"
  by (auto simp: RefundService_publishRefundCompleted_def attempt_def ret_def ignore_run split: prod.splits sum.splits)

lemma publish_balance: "leaves (\<lambda>w. balance w c) (RefundService_publishRefundCompleted r)"
  "leaves (\<lambda>w. balance w c) (SubscriptionService_Cancel u v)"
proof -
  have "leaves wallets (RefundService_publishRefundCompleted r)" "leaves wallets (SubscriptionService_Cancel u v)"
    by (auto intro!: publish_frames cancel_frames simp: apart_def)
  then show "leaves (\<lambda>w. balance w c) (RefundService_publishRefundCompleted r)"
    "leaves (\<lambda>w. balance w c) (SubscriptionService_Cancel u v)"
    by (simp_all add: leaves_def balance_def)
qed

text \<open>C8: An approved refund settles. When no statement fails, approving a pending refund credits
  its amount to the account and to no other, leaves the refund completed, and if the order was
  for a subscription ends the account's live subscription of that product.\<close>

theorem approved_refund_settles:
  assumes "ledger_ok w" and "subs_ok w" and "fresh_ids w" and "faults w = []"
    and "find (\<lambda>r. rfd_RefundNo r = no) (refunds w) = Some r" and "rfd_Status r = RefundStatusPending"
    and "is_dec 4 (rfd_AmountCNY r)" and "balance w (rfd_AccountID r) = Some b"
  shows "\<exists>w'. RefundService_Approve no rv note w = (Inr (), w')
    \<and> (\<forall>c. balance w' c = (if c = rfd_AccountID r then Some (b + rfd_AmountCNY r) else balance w c))
    \<and> (\<exists>r'\<in>set (refunds w'). rfd_RefundNo r' = no \<and> rfd_Status r' = RefundStatusCompleted)
    \<and> (\<forall>ord. find (\<lambda>x. ord_OrderNo x = rfd_OrderNo r) (orders w) = Some ord \<and> ord_OrderType ord = ''subscription''
          \<and> ord_ProductID ord \<noteq> '''' \<longrightarrow> filter (live_for (rfd_AccountID r) (ord_ProductID ord)) (subs w') = [])"
proof -
  have r: "r \<in> set (refunds w)" "rfd_RefundNo r = no" using find_SomeD [OF assms(5)] by simp_all
  let ?a = "rfd_AccountID r" and ?x = "rfd_AmountCNY r"
  let ?P = "\<lambda>r. rfd_RefundNo r = no \<and> rfd_Status r = RefundStatusPending"
  let ?f = "\<lambda>r. t_cols refunds_T (t_touch refunds_T (clock w) (r\<lparr>rfd_Status := RefundStatusApproved,
     rfd_ReviewNote := note, rfd_ReviewedBy := rv, rfd_ReviewedAt := Some (clock w)\<rparr>))"
  define w1 where "w1 = refunds_update (upd_rows ?P ?f) w"
  have w1: "ledger_ok w1" "faults w1 = []" "fresh_ids w1" "balance w1 c = balance w c" "subs w1 = subs w" "orders w1 = orders w"
    "refunds w1 = upd_rows ?P ?f (refunds w)" for c
    using assms(1-4) by (simp_all add: w1_def ledger_ok_def ledger_of_def balance_def fresh_ids_def)
  have up: "RefundRepo_UpdateStatus no RefundStatusPending RefundStatusApproved note rv (Some (clock w)) w = (Inr (), w1)"
    unfolding w1_def by (rule UpdateStatus_run [OF assms(4) r assms(6)])
  have m1: "?f r \<in> set (refunds w1)" using upd_rows_mem [OF r(1), of ?P ?f] r(2) assms(6) w1(7) by simp
  obtain tx w2 where c: "WalletRepo_Credit ?a ?x TxTypeRefund (''Refund approved: '' @ no) ''refund'' no '''' w1 = (Inr tx, w2)"
    and f2: "faults w2 = []"
    using Credit_succeeds [OF w1(1,2) _ w1(3), of ?a b] w1(4) assms(8) by metis
  have keep2: "orders w2 = orders w" "refunds w2 = refunds w1" "subs w2 = subs w"
    using leavesD [OF Credit_leaves_orders c] leavesD [OF credit_refunds c] w1(5,6)
      leavesD [OF Credit_frames c, of subs] by (simp_all add: apart_def)
  have "moved ?a ?x tx w1 w2" using Credit_moved [OF c] ledger_ok_uniq [OF w1(1)] by blast
  from balance_moved [OF this w1(1)] have bal2: "balance w2 d = (if d = ?a then Some (b + ?x) else balance w d)" for d
    using w1(4) assms(7,8) balance_is_dec [OF w1(1), of ?a b] by (simp add: dec_add)
  let ?g = "\<lambda>x. t_cols refunds_T (t_touch refunds_T (clock w2)
     (x\<lparr>rfd_Status := RefundStatusCompleted, rfd_CompletedAt := Some (clock w2)\<rparr>))"
  define w3 where "w3 = refunds_update (upd_rows (\<lambda>x. rfd_RefundNo x = no) ?g) w2"
  have fin: "RefundRepo_MarkCompleted no (clock w2) w2 = (Inr (), w3)"
    using f2 by (simp add: RefundRepo_MarkCompleted_def calm w3_def)
  have w3: "faults w3 = []" "subs w3 = subs w" "orders w3 = orders w" "balance w3 d = balance w2 d" for d
    using f2 keep2 by (simp_all add: w3_def balance_def)
  have "?g (?f r) \<in> set (refunds w3)"
    using upd_rows_mem [of "?f r" "refunds w2" "\<lambda>x. rfd_RefundNo x = no" ?g] m1 r(2) keep2(2) by (simp add: w3_def refund_cols)
  then have comp: "\<exists>r'\<in>set (refunds w3). rfd_RefundNo r' = no \<and> rfd_Status r' = RefundStatusCompleted"
    using r(2) by (intro bexI [of _ "?g (?f r)"]) (simp_all add: refund_cols)
  let ?o = "find (\<lambda>x. ord_OrderNo x = rfd_OrderNo r) (orders w)"
  define undo where "undo = (case Inr ?o :: err + PaymentOrder option of Inr (Some order) \<Rightarrow>
             if ord_OrderType order = ''subscription'' \<and> ord_ProductID order \<noteq> ''''
             then ignore (SubscriptionService_Cancel ?a (ord_ProductID order)) else ret ()
           | _ \<Rightarrow> ret ())"
  define w4 where "w4 = snd (undo w3)"
  have undo: "undo w3 = (Inr (), w4)"
    by (auto simp: w4_def undo_def ret_def ignore_run split: option.split)
  have w4: "balance w4 d = balance w3 d" "refunds w4 = refunds w3" for d
    using leavesD [OF publish_balance(2) prod.collapse [symmetric]] leavesD [OF cancel_frames prod.collapse [symmetric], of refunds]
    by (auto simp: w4_def undo_def ret_def ignore_run split: option.split)
  have sub4: "filter (live_for ?a (ord_ProductID ord)) (subs w4) = []"
    if "?o = Some ord" "ord_OrderType ord = ''subscription''" "ord_ProductID ord \<noteq> ''''" for ord
    using that Cancel_unlives [OF _ w3(1), of ?a "ord_ProductID ord"] assms(2) w3(2)
    by (simp add: w4_def undo_def ignore_run subs_ok_def)
  obtain w5 where pub: "RefundService_publishRefundCompleted r w4 = (Inr (), w5)" using publish_returns by blast
  have w5: "balance w5 d = balance w4 d" "refunds w5 = refunds w4" "subs w5 = subs w4" for d
    using leavesD [OF publish_balance(1) pub] leavesD [OF publish_frames [of refunds] pub]
      leavesD [OF publish_frames [of subs] pub] by (auto simp: apart_def)
  have "approved_refund r w1 = (Inr (), w5)"
    unfolding approved_refund_def r(2) using c fin undo [unfolded undo_def] pub w3(1,3)
    by (simp add: bind_def wrap_def now_def attempt_def WalletRepo_GetPaymentOrderByNo_def calm_opt_first)
  then have "RefundService_Approve no rv note w = (Inr (), w5)"
    using up assms(4-6) by (simp add: RefundService_Approve_def RefundRepo_GetByRefundNo_def calm_opt_first bind_def wrap_def now_def)
  then show ?thesis using bal2 comp sub4 w3 w4 w5 by auto
qed

definition demo_refunds :: world where
  "demo_refunds = demo\<lparr>
     orders := [PaymentOrder0\<lparr>ord_ID := 1, ord_AccountID := 7, ord_OrderNo := ''LO1'', ord_OrderType := ''subscription'',
        ord_ProductID := ''api'', ord_AmountCNY := 30, ord_Status := OrderStatusPaid, ord_CreatedAt := 0\<rparr>],
     subs := [Subscription0\<lparr>sub_ID := 4, sub_AccountID := 7, sub_ProductID := ''api'', sub_Status := SubStatusActive\<rparr>],
     refunds := [Refund0\<lparr>rfd_ID := 1, rfd_RefundNo := ''LRA'', rfd_AccountID := 7, rfd_OrderNo := ''LO1'',
        rfd_AmountCNY := 30, rfd_Status := RefundStatusPending\<rparr>]\<rparr>"

theorem approved_refund_settles_witness:
  "\<exists>w'. RefundService_Approve ''LRA'' ''boss'' ''ok'' demo_refunds = (Inr (), w')
    \<and> balance w' 7 = Some 130 \<and> filter (live_for 7 ''api'') (subs w') = []"
proof -
  have h: "ledger_ok demo_refunds" "subs_ok demo_refunds" "fresh_ids demo_refunds" "faults demo_refunds = []"
    "balance demo_refunds 7 = Some 100"
    by (simp_all add: demo_refunds_def demo_def world0_def ledger_ok_def ledger_of_def uniq_by_def Wallet0_def subs_ok_def
        WalletTransaction0_def is_dec_def fresh_ids_def balance_def)
  have r: "find (\<lambda>r. rfd_RefundNo r = ''LRA'') (refunds demo_refunds) = Some (hd (refunds demo_refunds))"
    "rfd_Status (hd (refunds demo_refunds)) = RefundStatusPending" "is_dec 4 (rfd_AmountCNY (hd (refunds demo_refunds)))"
    "balance demo_refunds (rfd_AccountID (hd (refunds demo_refunds))) = Some 100"
    "rfd_AccountID (hd (refunds demo_refunds)) = 7" "rfd_AmountCNY (hd (refunds demo_refunds)) = 30"
    "rfd_OrderNo (hd (refunds demo_refunds)) = ''LO1''"
    using h(5) by (simp_all add: demo_refunds_def Refund0_def is_dec_def)
  have o1: "find (\<lambda>x. ord_OrderNo x = ''LO1'') (orders demo_refunds) = Some (hd (orders demo_refunds))"
    "ord_OrderType (hd (orders demo_refunds)) = ''subscription''" "ord_ProductID (hd (orders demo_refunds)) = ''api''"
    by (simp_all add: demo_refunds_def PaymentOrder0_def)
  show ?thesis using approved_refund_settles [OF h(1-4) r(1-4), of "''boss''" "''ok''"] r(5-7) o1 by fastforce
qed


text \<open>A settled refund does not close its order. Whenever every earlier refund of a paid order
  inside the window is completed or rejected, the whole amount can be requested again: the
  request checks neither what was already refunded nor marks the order.\<close>

theorem refunded_order_refundable_again:
  assumes "faults w = []" and "find (\<lambda>x. ord_OrderNo x = no) (orders w) = Some ord"
    and "ord_AccountID ord = a" and "ord_Status ord = OrderStatusPaid" and "clock w - 7 * day_ns \<le> ord_CreatedAt ord"
    and "\<forall>r\<in>set (refunds w). rfd_OrderNo r = no \<longrightarrow> rfd_Status r \<in> {RefundStatusCompleted, RefundStatusRejected}"
    and "\<forall>r\<in>set (refunds w). rfd_RefundNo r \<noteq> ''LR'' @ hex_of (nat (clock w)) \<and> rfd_ID r \<noteq> seqs w ''refunds''"
    and "0 \<le> clock w"
  shows "\<exists>r w'. RefundService_RequestRefund a no reason w = (Inr r, w') \<and> rfd_AmountCNY r = ord_AmountCNY ord
    \<and> rfd_Status r = RefundStatusPending \<and> orders w' = orders w"
proof -
  have "AddDate (clock w) 0 0 (- refundWindowDays) = clock w - 7 * day_ns"
    unfolding AddDate_days by (simp add: refundWindowDays_def)
  then have win: "\<not> ord_CreatedAt ord < AddDate (clock w) 0 0 (- refundWindowDays)" using assms(5) by simp
  have none: "find (\<lambda>r. rfd_OrderNo r = no \<and> rfd_Status r \<in> {''pending'', ''approved''}) (refunds w) = None"
    using assms(6) by (auto simp: find_None_iff)
  let ?r = "Refund0\<lparr>rfd_RefundNo := ''LR'' @ hex_of (nat (clock w)), rfd_AccountID := a, rfd_OrderNo := no,
     rfd_AmountCNY := ord_AmountCNY ord, rfd_Reason := reason, rfd_Status := RefundStatusPending\<rparr>"
  have "t_conflict refunds_T (t_new refunds_T (seqs w ''refunds'') (clock w) ?r) (t_get refunds_T w) = None"
    using assms(7) by (auto simp: refunds_T_def serial_def Refund0_def)
  note ins = calm_insert [OF assms(1) refl, of refunds_T ?r, simplified, OF this [simplified]]
  show ?thesis
    using assms(1-4,8) win none ins
    by (simp add: RefundService_RequestRefund_def WalletRepo_GetPaymentOrderByNo_def RefundRepo_GetPendingByOrderNo_def
        RefundRepo_Create_def generateRefundNo_def calm) (simp add: refunds_T_def Refund0_def or_default_def)
qed

theorem refunded_order_refundable_again_witness:
  "let w = demo_refunds\<lparr>clock := 5, refunds := map (\<lambda>r. r\<lparr>rfd_Status := RefundStatusCompleted\<rparr>) (refunds demo_refunds)\<rparr>
   in \<exists>r w'. RefundService_RequestRefund 7 ''LO1'' ''again'' w = (Inr r, w') \<and> rfd_AmountCNY r = 30"
proof -
  let ?w = "demo_refunds\<lparr>clock := 5, refunds := map (\<lambda>r. r\<lparr>rfd_Status := RefundStatusCompleted\<rparr>) (refunds demo_refunds)\<rparr>"
  let ?o = "hd (orders ?w)"
  have h: "faults ?w = []" "find (\<lambda>x. ord_OrderNo x = ''LO1'') (orders ?w) = Some ?o"
    "ord_AccountID ?o = 7" "ord_Status ?o = OrderStatusPaid" "clock ?w - 7 * day_ns \<le> ord_CreatedAt ?o"
    "\<forall>r\<in>set (refunds ?w). rfd_OrderNo r = ''LO1'' \<longrightarrow> rfd_Status r \<in> {RefundStatusCompleted, RefundStatusRejected}"
    "\<forall>r\<in>set (refunds ?w). rfd_RefundNo r \<noteq> ''LR'' @ hex_of (nat (clock ?w)) \<and> rfd_ID r \<noteq> seqs ?w ''refunds''"
    "0 \<le> clock ?w" "ord_AmountCNY ?o = 30"
    by code_simp+
  from refunded_order_refundable_again [OF h(1-8), of "''again''"] h(9) show ?thesis unfolding Let_def by metis
qed

end
