(* ===== verification/Checkins.thy ===== *)
theory Checkins
  imports WalletService Calendar "HOL-Library.List_Lexorder" "HOL-Library.Char_ord"
begin

text \<open>
  \<^verbatim>\<open>app/checkin_service.go\<close> and \<^verbatim>\<open>adapter/repo/checkin_repo.go\<close>: the daily
  check-in, the streak of consecutive days and its reward. Dates are the texts
  \<^verbatim>\<open>yyyy-MM-dd\<close> of the UTC day, compared as texts by the database. The lemmas show that
  the streak the repository counts is the number of consecutive days, up to thirty, that a
  check-in is rewarded once a day, and what the rewards can be.
\<close>

section \<open>Repository\<close>

definition CheckinRepo_Create :: "Checkin \<Rightarrow> Checkin op" where
  "CheckinRepo_Create c = q_insert checkins_T c"

definition CheckinRepo_GetByAccountAndDate :: "int \<Rightarrow> string \<Rightarrow> Checkin option op" where
  "CheckinRepo_GetByAccountAndDate accountID date =
     opt_row (q_first checkins_T (\<lambda>c. chk_AccountID c = accountID \<and> chk_CheckinDate c = date))"

definition CheckinRepo_ListByAccountAndMonth :: "int \<Rightarrow> string \<Rightarrow> Checkin list op" where
  "CheckinRepo_ListByAccountAndMonth accountID yearMonth =
     bind (q_find checkins_T (\<lambda>c. chk_AccountID c = accountID \<and> has_prefix yearMonth (chk_CheckinDate c)))
       (\<lambda>l. ret (sort_key chk_CheckinDate l))"

definition subtractDay :: "string \<Rightarrow> string" where
  "subtractDay dateStr = (case parse_date dateStr of None \<Rightarrow> '''' | Some t \<Rightarrow> format_date (AddDate t 0 0 (- 1)))"

text \<open>The loop of \<^verbatim>\<open>CountConsecutive\<close> after its first row; \<open>prev\<close> is the date before.\<close>

fun count_back :: "string \<Rightarrow> Checkin list \<Rightarrow> int" where
  "count_back prev [] = 0"
| "count_back prev (c # cs) =
     (if chk_CheckinDate c \<noteq> subtractDay prev then 0 else 1 + count_back (chk_CheckinDate c) cs)"

definition CheckinRepo_CountConsecutive :: "int \<Rightarrow> string \<Rightarrow> int op" where
  "CheckinRepo_CountConsecutive accountID date =
     bind (q_find checkins_T (\<lambda>c. chk_AccountID c = accountID \<and> chk_CheckinDate c \<le> date)) (\<lambda>l.
     ret (case take 30 (rev (sort_key chk_CheckinDate l)) of
            [] \<Rightarrow> 0
          | c # cs \<Rightarrow> if chk_CheckinDate c \<noteq> date then 0 else 1 + count_back (chk_CheckinDate c) cs))"

section \<open>Service\<close>

definition checkinBaseReward :: rat where "checkinBaseReward = 1 / 10"
definition checkinStreakBonusStep :: int where "checkinStreakBonusStep = 7"
definition checkinStreakBonusFactor :: rat where "checkinStreakBonusFactor = 15 / 10"
definition checkinMaxReward :: rat where "checkinMaxReward = 1"

text \<open>The loop \<^verbatim>\<open>for i := 0; i < streakTier; i++\<close>.\<close>

fun streak_multiplier :: "nat \<Rightarrow> rat" where
  "streak_multiplier 0 = 1"
| "streak_multiplier (Suc i) = streak_multiplier i * checkinStreakBonusFactor"

definition calculateCheckinReward :: "int \<Rightarrow> rat" where
  "calculateCheckinReward consecutiveDays =
     (let streakTier = consecutiveDays div checkinStreakBonusStep;
          reward = checkinBaseReward * streak_multiplier (nat streakTier)
      in if checkinMaxReward < reward then checkinMaxReward else reward)"

record CheckinStatus =
  cst_CheckedInToday :: bool
  cst_ConsecutiveDays :: int
  cst_MonthCheckins :: "Checkin list"

record CheckinResult =
  crs_RewardValue :: rat
  crs_RewardType :: string
  crs_ConsecutiveDays :: int
  crs_WalletBalance :: rat

definition CheckinService_GetStatus :: "int \<Rightarrow> CheckinStatus op" where
  "CheckinService_GetStatus accountID = bind now (\<lambda>n.
     let today = format_date n in
     bind (wrap ''checkin status: lookup today'' (CheckinRepo_GetByAccountAndDate accountID today)) (\<lambda>todayCheckin.
     bind (wrap ''checkin status: count consecutive'' (CheckinRepo_CountConsecutive accountID
        (if todayCheckin \<noteq> None then today else format_date (AddDate n 0 0 (- 1))))) (\<lambda>consecutiveDays.
     bind (wrap ''checkin status: list month'' (CheckinRepo_ListByAccountAndMonth accountID (format_month n))) (\<lambda>monthCheckins.
     ret \<lparr>cst_CheckedInToday = (todayCheckin \<noteq> None), cst_ConsecutiveDays = consecutiveDays,
          cst_MonthCheckins = monthCheckins\<rparr>))))"

definition CheckinService_DoCheckin :: "int \<Rightarrow> CheckinResult op" where
  "CheckinService_DoCheckin accountID = bind now (\<lambda>n.
     let today = format_date n in
     bind (wrap ''checkin: lookup today'' (CheckinRepo_GetByAccountAndDate accountID today)) (\<lambda>existing.
     if existing \<noteq> None then fail (EMsg ''checkin: already checked in today'') else
     bind (wrap ''checkin: count consecutive'' (CheckinRepo_CountConsecutive accountID (format_date (AddDate n 0 0 (- 1))))) (\<lambda>days.
     let consecutiveDays = days + 1; reward = calculateCheckinReward consecutiveDays in
     bind (wrap ''checkin: create record'' (CheckinRepo_Create (Checkin0\<lparr>chk_AccountID := accountID,
        chk_CheckinDate := today, chk_RewardType := ''credits'', chk_RewardValue := reward\<rparr>))) (\<lambda>checkin.
     bind (wrap ''checkin: credit wallet'' (WalletRepo_Credit accountID reward TxTypeCheckinReward
        (''Daily checkin reward (day '' @ itoa consecutiveDays @ '' streak)'') ''checkin'' (itoa (chk_ID checkin)) '''')) (\<lambda>tx.
     ret \<lparr>crs_RewardValue = reward, crs_RewardType = ''credits'', crs_ConsecutiveDays = consecutiveDays,
          crs_WalletBalance = tx_BalanceAfter tx\<rparr>)))))"

section \<open>Dates as texts\<close>

lemma digits_val_Cons: "digits_val (c # s) = digit_val c * 10 ^ length s + digits_val s"
proof (induction s rule: rev_induct)
  case Nil
  then show ?case by (simp add: digits_val_def)
next
  case (snoc d s)
  have "digits_val (c # s @ [d]) = 10 * digits_val (c # s) + digit_val d"
    using digits_val_snoc [of "c # s" d] by simp
  then show ?case using snoc by (simp add: digits_val_snoc algebra_simps)
qed

lemma digits_val_bounds: "list_all is_digit s \<Longrightarrow> 0 \<le> digits_val s \<and> digits_val s < 10 ^ length s"
proof (induction s)
  case Nil
  then show ?case by (simp add: digits_val_def)
next
  case (Cons c s)
  then have c: "0 \<le> digit_val c" "digit_val c \<le> 9" by (simp_all add: digit_val_def is_digit_def)
  then have "0 \<le> digit_val c * 10 ^ length s" "digit_val c * 10 ^ length s \<le> 9 * 10 ^ length s"
    by (simp, intro mult_right_mono) simp_all
  moreover have "0 \<le> digits_val s" "digits_val s < 10 ^ length s" using Cons by simp_all
  moreover have "(10::int) ^ length (c # s) = 10 * 10 ^ length s" by simp
  ultimately show ?case unfolding digits_val_Cons by linarith
qed

text \<open>Texts of digits of one length are ordered as their numbers.\<close>

lemma digits_less:
  "length s = length t \<Longrightarrow> list_all is_digit s \<Longrightarrow> list_all is_digit t \<Longrightarrow> digits_val s < digits_val t \<Longrightarrow> s < t"
proof (induction s t rule: list_induct2)
  case Nil
  then show ?case by simp
next
  case (Cons c s d t)
  let ?p = "10 ^ length s :: int"
  have b: "0 \<le> digits_val s" "digits_val s < ?p" "0 \<le> digits_val t" "digits_val t < ?p"
    using digits_val_bounds [of s] digits_val_bounds [of t] Cons by auto
  have cd: "digit_val c * ?p + digits_val s < digit_val d * ?p + digits_val t"
    using Cons.prems(3) Cons.hyps by (simp add: digits_val_Cons)
  have "digit_val c \<le> digit_val d"
  proof (rule ccontr)
    assume "\<not> digit_val c \<le> digit_val d"
    then have "(digit_val d + 1) * ?p \<le> digit_val c * ?p" by (intro mult_right_mono) auto
    with b cd show False by (simp add: algebra_simps)
  qed
  then consider "digit_val c < digit_val d" | "digit_val c = digit_val d" by linarith
  then show ?case
  proof cases
    case 1
    then have "c < d" by (simp add: digit_val_def less_char_def)
    then show ?thesis by simp
  next
    case 2
    then have "c = d" by (simp add: digit_val_def)
    then show ?thesis using Cons cd 2 by simp
  qed
qed

lemma append_less_left: "length s = length t \<Longrightarrow> s < t \<Longrightarrow> s @ u < t @ (v :: string)"
  by (induction s t rule: list_induct2) auto

lemma append_less_right: "u < v \<Longrightarrow> s @ u < s @ (v :: string)"
  by (induction s) auto

lemma pad_less: "0 \<le> a \<Longrightarrow> a < b \<Longrightarrow> b < 10 ^ k \<Longrightarrow> 0 < k \<Longrightarrow> pad_int k a < pad_int k b"
  using pad_int_props [of a k] pad_int_props [of b k] by (intro digits_less) simp_all

definition date_text :: "int \<Rightarrow> string" where
  "date_text d = format_date (d * day_ns)"

text \<open>The days whose year has four digits.\<close>

definition four_digit :: "int \<Rightarrow> bool" where
  "four_digit d \<longleftrightarrow> (case civil_from_days d of (y, _, _) \<Rightarrow> 0 \<le> y \<and> y < 10000)"

lemma days_of_mult [simp]: "days_of (d * day_ns) = d"
  by (simp add: days_of_def day_ns_def)

lemma format_date_day: "format_date t = date_text (days_of t)"
  by (simp add: date_text_def format_date_def date_of_def)

lemma date_text_parse: "four_digit d \<Longrightarrow> parse_date (date_text d) = Some (d * day_ns)"
  using parse_format_date [of "d * day_ns"] by (cases "civil_from_days d") (auto simp: date_text_def four_digit_def date_of_def)

text \<open>Later days have greater texts.\<close>



lemma date_text_less:
  assumes "four_digit d" "four_digit e" "d < e"
  shows "date_text d < date_text e"
proof -
  obtain y m k where d: "civil_from_days d = (y, m, k)" by (cases "civil_from_days d")
  obtain y' m' k' where e: "civil_from_days e = (y', m', k')" by (cases "civil_from_days e")
  have v: "1 \<le> m" "m \<le> 12" "1 \<le> k" "k < 100" "1 \<le> m'" "m' \<le> 12" "k' < 100"
    using civil_from_days_valid(1) [OF d] civil_from_days_valid(1) [OF e] month_len_pos(2) [of y m] month_len_pos(2) [of y' m']
    by (auto simp: valid_date_def)
  have y: "0 \<le> y" "y' < 10 ^ 4" "y < 10 ^ 4" "0 \<le> y'" using assms(1,2) by (simp_all add: four_digit_def d e)
  have t: "date_text d = pad_int 4 y @ ''-'' @ pad_int 2 m @ ''-'' @ pad_int 2 k"
    "date_text e = pad_int 4 y' @ ''-'' @ pad_int 2 m' @ ''-'' @ pad_int 2 k'"
    by (simp_all add: date_text_def format_date_def date_of_def d e)
  have l: "length (pad_int 4 y) = length (pad_int 4 y')" "length (pad_int 2 m) = length (pad_int 2 m')"
    using y v pad_int_props(1) [of _ 4] pad_int_props(1) [of _ 2] by simp_all
  consider "y < y'" | "y = y'" "m < m'" | "y = y'" "m = m'" "k < k'"
    using civil_from_days_mono [OF d e assms(3)] by blast
  then show ?thesis
  proof cases
    case 1
    then show ?thesis unfolding t using y l by (intro append_less_left pad_less) simp_all
  next
    case 2
    then show ?thesis unfolding t using v l by (auto intro!: append_less_right append_less_left pad_less)
  next
    case 3
    then show ?thesis unfolding t using v by (auto intro!: append_less_right pad_less)
  qed
qed

section \<open>The streak\<close>

text \<open>The days from the epoch to the end of the year 9999.\<close>

definition checkin_day :: "int \<Rightarrow> bool" where
  "checkin_day d \<longleftrightarrow> 0 \<le> d \<and> d < 2932897"

lemma four_digit_day: "- 1 \<le> d \<Longrightarrow> d < 2932897 \<Longrightarrow> four_digit d"
proof -
  assume d: "- 1 \<le> d" "d < 2932897"
  obtain y m k where c: "civil_from_days d = (y, m, k)" by (cases "civil_from_days d")
  have lo: "civil_from_days (- 2) = (1969, 12, 30)" and hi: "civil_from_days 2932897 = (10000, 1, 1)" by code_simp+
  have "1969 \<le> y" using civil_from_days_mono [OF lo c] d by auto
  moreover have "1 \<le> m" "1 \<le> k" using civil_from_days_valid(1) [OF c] by (simp_all add: valid_date_def)
  then have "y < 10000" using civil_from_days_mono [OF c hi] d by auto
  ultimately show ?thesis by (simp add: four_digit_def c)
qed

lemma date_text_inj: "four_digit d \<Longrightarrow> four_digit e \<Longrightarrow> date_text d = date_text e \<longleftrightarrow> d = e"
proof
  assume "four_digit d" "four_digit e" "date_text d = date_text e"
  then have "d * day_ns = e * day_ns" by (metis date_text_parse option.inject)
  then show "d = e" by (simp add: day_ns_def)
qed simp

lemma subtractDay_text: "four_digit d \<Longrightarrow> subtractDay (date_text d) = date_text (d - 1)"
proof -
  assume "four_digit d"
  then have "subtractDay (date_text d) = format_date (AddDate (d * day_ns) 0 0 (- 1))"
    by (simp add: subtractDay_def date_text_parse)
  also have "\<dots> = date_text (d - 1)" by (simp add: AddDate_days date_text_def left_diff_distrib)
  finally show ?thesis .
qed

fun count_from :: "int \<Rightarrow> int list \<Rightarrow> int" where
  "count_from n [] = 0"
| "count_from n (d # ds) = (if d \<noteq> n then 0 else 1 + count_from (n - 1) ds)"

lemma count_back_days:
  "map chk_CheckinDate cs = map date_text ds \<Longrightarrow> \<forall>d\<in>set ds. checkin_day d \<Longrightarrow> checkin_day p \<Longrightarrow>
   count_back (date_text p) cs = count_from (p - 1) ds"
proof (induction ds arbitrary: cs p)
  case (Cons d ds)
  then obtain c cs' where cs: "cs = c # cs'" "chk_CheckinDate c = date_text d" "map chk_CheckinDate cs' = map date_text ds"
    by auto
  have "subtractDay (date_text p) = date_text (p - 1)"
    using Cons.prems(3) by (intro subtractDay_text four_digit_day) (simp_all add: checkin_day_def)
  moreover have "date_text d = date_text (p - 1) \<longleftrightarrow> d = p - 1"
    using Cons.prems(2,3) by (intro date_text_inj four_digit_day) (simp_all add: checkin_day_def)
  ultimately show ?case using Cons.IH [OF cs(3)] Cons.prems(2) by (auto simp: cs)
qed simp

text \<open>Consecutive days counted down from \<open>n\<close>, at most \<open>k\<close>.\<close>

definition streak :: "int set \<Rightarrow> int \<Rightarrow> nat \<Rightarrow> nat" where
  "streak D n k = length (takeWhile (\<lambda>i. n - int i \<in> D) [0..<k])"

lemma streak_step: "streak D n (Suc k) = (if n \<in> D then Suc (streak D (n - 1) k) else 0)"
proof -
  have "[0..<Suc k] = 0 # map Suc [0..<k]" by (simp add: map_Suc_upt upt_conv_Cons del: upt_Suc)
  then show ?thesis by (simp add: streak_def takeWhile_map comp_def algebra_simps del: upt_Suc)
qed

lemma streak_cong: "(\<And>i. i < k \<Longrightarrow> n - int i \<in> D \<longleftrightarrow> n - int i \<in> E) \<Longrightarrow> streak D n k = streak E n k"
  unfolding streak_def by (rule arg_cong [where f = length], rule takeWhile_cong) simp_all

lemma count_from_streak:
  "sorted_wrt (>) ds \<Longrightarrow> \<forall>d\<in>set ds. d \<le> n \<Longrightarrow> count_from n (take k ds) = int (streak (set ds) n k)"
proof (induction k arbitrary: n ds)
  case 0
  then show ?case by (simp add: streak_def)
next
  case (Suc k)
  show ?case
  proof (cases ds)
    case Nil
    then show ?thesis by (simp add: streak_step)
  next
    case (Cons d es)
    show ?thesis
    proof (cases "d = n")
      case True
      have es: "\<forall>e\<in>set es. e \<le> n - 1" using Suc.prems(1) Cons True by auto
      have "streak (set ds) (n - 1) k = streak (set es) (n - 1) k"
        by (rule streak_cong) (simp add: Cons True)
      then show ?thesis using Suc.IH [of es "n - 1"] Suc.prems(1) Cons True es by (simp add: streak_step)
    next
      case False
      then have "n \<notin> set ds" using Suc.prems Cons by auto
      then show ?thesis using Cons False by (simp add: streak_step)
    qed
  qed
qed

text \<open>A well-formed table of check-ins, and the days on which an account checked in.\<close>

definition dated :: "world \<Rightarrow> bool" where
  "dated w \<longleftrightarrow> (\<forall>c\<in>set (checkins w). \<exists>d. checkin_day d \<and> chk_CheckinDate c = date_text d)
     \<and> uniq_by (\<lambda>c. (chk_AccountID c, chk_CheckinDate c)) (checkins w)"

definition checkin_days :: "int \<Rightarrow> world \<Rightarrow> int set" where
  "checkin_days a w = {d. checkin_day d \<and> (\<exists>c\<in>set (checkins w). chk_AccountID c = a \<and> chk_CheckinDate c = date_text d)}"

lemma rows_as_days:
  fixes a :: int
  assumes "dated w" and "checkin_day n"
  defines "rows \<equiv> rev (sort_key chk_CheckinDate (filter (\<lambda>c. chk_AccountID c = a \<and> chk_CheckinDate c \<le> date_text n) (checkins w)))"
  shows "\<exists>ds. map chk_CheckinDate rows = map date_text ds \<and> sorted_wrt (>) ds \<and> (\<forall>d\<in>set ds. checkin_day d \<and> d \<le> n)
     \<and> set ds = checkin_days a w \<inter> {..n}"
proof -
  let ?P = "\<lambda>c. chk_AccountID c = a \<and> chk_CheckinDate c \<le> date_text n"
  have mem: "set rows = {c \<in> set (checkins w). ?P c}" by (auto simp: rows_def)
  have fd: "four_digit d" if "checkin_day d" for d using that four_digit_day [of d] by (simp add: checkin_day_def)
  have le: "date_text d \<le> date_text n \<longleftrightarrow> d \<le> n" if "checkin_day d" for d
    using date_text_less [of d n] date_text_less [of n d] fd [OF that] fd [OF assms(2)]
    by (metis less_le_not_le linorder_le_less_linear order_refl order_less_le)
  have "\<forall>c\<in>set rows. \<exists>d. checkin_day d \<and> chk_CheckinDate c = date_text d" using assms(1) mem by (auto simp: dated_def)
  then obtain f where f: "\<forall>c\<in>set rows. checkin_day (f c) \<and> chk_CheckinDate c = date_text (f c)" by metis
  define ds where "ds = map f rows"
  have dates: "map chk_CheckinDate rows = map date_text ds" using f by (simp add: ds_def)
  have days: "\<forall>d\<in>set ds. checkin_day d \<and> d \<le> n" using f le mem by (auto simp: ds_def)
  have "uniq_by (\<lambda>c. (chk_AccountID c, chk_CheckinDate c)) (filter ?P (checkins w))"
    using assms(1) uniq_by_filter by (auto simp: dated_def)
  then have "distinct (map chk_CheckinDate (filter ?P (checkins w)))"
    unfolding uniq_by_def by (auto simp: distinct_map inj_on_def)
  then have "distinct (map chk_CheckinDate rows)"
    by (simp add: rows_def distinct_map)
  then have "sorted_wrt (<) (rev (map chk_CheckinDate rows))"
    by (simp add: rows_def rev_map strict_sorted_iff distinct_map)
  then have "sorted_wrt (\<lambda>x y. date_text x > date_text y) ds"
    using dates by (simp add: sorted_wrt_rev sorted_wrt_map)
  then have sorted: "sorted_wrt (>) ds"
  proof (rule sorted_wrt_mono_rel [rotated])
    fix x y assume "x \<in> set ds" "y \<in> set ds" "date_text y < date_text x"
    then show "y < x" using date_text_less [of x y] days fd by (metis linorder_neqE not_less_iff_gr_or_eq)
  qed
  have "set ds = checkin_days a w \<inter> {..n}"
  proof (intro equalityI subsetI)
    fix d assume d: "d \<in> set ds"
    then obtain c where "c \<in> set rows" "f c = d" by (auto simp: ds_def)
    moreover from this have "c \<in> {c \<in> set (checkins w). ?P c}" using mem by blast
    ultimately have "c \<in> set (checkins w)" "chk_AccountID c = a" "chk_CheckinDate c = date_text d" using f by blast+
    then show "d \<in> checkin_days a w \<inter> {..n}" using days d unfolding checkin_days_def by blast
  next
    fix d assume d: "d \<in> checkin_days a w \<inter> {..n}"
    then obtain c where c: "c \<in> set (checkins w)" "chk_AccountID c = a" "chk_CheckinDate c = date_text d" "checkin_day d"
      by (auto simp: checkin_days_def)
    then have r: "c \<in> set rows" using d le [of d] mem by simp
    then have "f c = d" using f c(3,4) fd date_text_inj [of "f c" d] by metis
    then show "d \<in> set ds" using r by (auto simp: ds_def)
  qed
  then show ?thesis using dates sorted days by blast
qed

text \<open>C20: The streak is the number of consecutive days. For a table whose dates are days since the epoch,
  one row per account and day, the query, its text comparison and its loop over neighbouring rows
  compute the length of the run of check-in days that ends at the given day, cut at thirty.\<close>

theorem streak_counts_consecutive_days:
  assumes "dated w" and "checkin_day n" and "faults w = []"
  shows "CheckinRepo_CountConsecutive a (date_text n) w = (Inr (int (streak (checkin_days a w) n 30)), w)"
proof -
  let ?rows = "rev (sort_key chk_CheckinDate (filter (\<lambda>c. chk_AccountID c = a \<and> chk_CheckinDate c \<le> date_text n) (checkins w)))"
  obtain ds where ds: "map chk_CheckinDate ?rows = map date_text ds" "sorted_wrt (>) ds" "\<forall>d\<in>set ds. checkin_day d \<and> d \<le> n"
    "set ds = checkin_days a w \<inter> {..n}" using rows_as_days [OF assms(1,2), of a] by blast
  have "(case take 30 ?rows of [] \<Rightarrow> 0 | c # cs \<Rightarrow> if chk_CheckinDate c \<noteq> date_text n then 0 else 1 + count_back (chk_CheckinDate c) cs)
      = count_from n (take 30 ds)"
  proof (cases "take 30 ?rows")
    case Nil
    then show ?thesis using ds(1) by (cases ds) auto
  next
    case (Cons c cs)
    have m: "map chk_CheckinDate (take 30 ?rows) = map date_text (take 30 ds)"
      using arg_cong [OF ds(1), of "take 30"] by (simp add: take_map)
    then obtain d es where t: "take 30 ds = d # es" "chk_CheckinDate c = date_text d" "map chk_CheckinDate cs = map date_text es"
      unfolding Cons by (cases "take 30 ds") auto
    have day: "\<forall>e\<in>set (d # es). checkin_day e" using ds(3) set_take_subset [of 30 ds] t(1) by auto
    have "date_text d = date_text n \<longleftrightarrow> d = n"
      using day assms(2) by (intro date_text_inj four_digit_day) (simp_all add: checkin_day_def)
    moreover have "count_back (date_text d) cs = count_from (d - 1) es"
      using day by (intro count_back_days [OF t(3)]) simp_all
    ultimately show ?thesis unfolding Cons t by (cases "d = n") (simp_all add: t(2))
  qed
  moreover have "count_from n (take 30 ds) = int (streak (set ds) n 30)"
    using ds(2,3) by (intro count_from_streak) auto
  moreover have "streak (set ds) n 30 = streak (checkin_days a w) n 30"
    by (rule streak_cong) (simp add: ds(4))
  ultimately show ?thesis using assms(3) by (simp add: CheckinRepo_CountConsecutive_def calm)
qed

definition demo_checkins :: world where
  "demo_checkins = world0\<lparr>clock := 20513 * day_ns,
     checkins := [Checkin0\<lparr>chk_ID := 1, chk_AccountID := 7, chk_CheckinDate := ''2026-02-27''\<rparr>,
                  Checkin0\<lparr>chk_ID := 2, chk_AccountID := 7, chk_CheckinDate := ''2026-02-28''\<rparr>],
     wallets := [Wallet0\<lparr>wal_ID := 1, wal_AccountID := 7\<rparr>], seqs := (\<lambda>_. 3)\<rparr>"

lemma demo_checkins_dates: "date_text 20511 = ''2026-02-27''" "date_text 20512 = ''2026-02-28''" "date_text 20513 = ''2026-03-01''"
  by code_simp+

lemma demo_checkins_ok: "dated demo_checkins" "checkin_day 20512" "faults demo_checkins = []"
proof -
  have "\<exists>d. checkin_day d \<and> x = date_text d" if "x \<in> {''2026-02-27'', ''2026-02-28''}" for x
    using that demo_checkins_dates(1,2) by (auto simp: checkin_day_def intro: exI [of _ 20511] exI [of _ 20512])
  then show "dated demo_checkins"
    by (simp add: dated_def demo_checkins_def world0_def Checkin0_def uniq_by_def)
qed (simp_all add: checkin_day_def demo_checkins_def world0_def)

theorem streak_counts_consecutive_days_witness:
  "CheckinRepo_CountConsecutive 7 (date_text 20512) demo_checkins
     = (Inr (int (streak (checkin_days 7 demo_checkins) 20512 30)), demo_checkins)
   \<and> CheckinRepo_CountConsecutive 7 ''2026-02-28'' demo_checkins = (Inr 2, demo_checkins)"
proof -
  have "fst (CheckinRepo_CountConsecutive 7 ''2026-02-28'' demo_checkins) = Inr 2" by code_simp
  with streak_counts_consecutive_days [OF demo_checkins_ok, of 7] demo_checkins_dates(2) show ?thesis by simp
qed

section \<open>Rewards\<close>

lemma count_back_bounds: "0 \<le> count_back p cs \<and> count_back p cs \<le> int (length cs)"
  by (induction p cs rule: count_back.induct) auto

lemma CountConsecutive_bounds:
  assumes "CheckinRepo_CountConsecutive a d w = (Inr n, w')"
  shows "0 \<le> n \<and> n \<le> 30"
proof -
  obtain l where n: "n = (case take 30 l of [] \<Rightarrow> 0 | c # cs \<Rightarrow> if chk_CheckinDate c \<noteq> d then 0 else 1 + count_back (chk_CheckinDate c) cs)"
    using assms by (auto simp: CheckinRepo_CountConsecutive_def ok_simps)
  define xs where "xs = take 30 l"
  have len: "length xs \<le> 30" by (simp add: xs_def)
  show ?thesis
  proof (cases xs)
    case (Cons c cs)
    then show ?thesis using len count_back_bounds [of "chk_CheckinDate c" cs] by (cases "chk_CheckinDate c = d") (auto simp: n simp flip: xs_def)
  qed (simp add: n flip: xs_def)
qed

lemma streak_multiplier_power: "streak_multiplier k = (3 / 2) ^ k"
  by (induction k) (simp_all add: checkinStreakBonusFactor_def)

lemma reward_bounds:
  assumes "1 \<le> n" "n \<le> 31"
  shows "1 / 10 \<le> calculateCheckinReward n" "calculateCheckinReward n \<le> 81 / 160"
proof -
  have k: "nat (n div 7) \<in> {0, 1, 2, 3, 4}" using assms by auto
  have "calculateCheckinReward n = 1 / 10 * (3 / 2) ^ nat (n div 7)"
    using k by (auto simp: calculateCheckinReward_def checkinBaseReward_def checkinStreakBonusStep_def checkinMaxReward_def
        streak_multiplier_power power_divide)
  then show "1 / 10 \<le> calculateCheckinReward n" "calculateCheckinReward n \<le> 81 / 160" using k
    by (auto simp: power_divide)
qed

lemma DoCheckin_ok:
  assumes "CheckinService_DoCheckin a w = (Inr res, w')"
  shows "1 \<le> crs_ConsecutiveDays res \<and> crs_ConsecutiveDays res \<le> 31
    \<and> crs_RewardValue res = calculateCheckinReward (crs_ConsecutiveDays res)
    \<and> (\<exists>c\<in>set (checkins w'). chk_AccountID c = a \<and> chk_CheckinDate c = format_date (clock w))"
proof -
  obtain w1 days w2 c w3 tx d where n: "CheckinRepo_CountConsecutive a (format_date (AddDate (clock w) 0 0 (- 1))) w1 = (Inr days, w2)"
    and c: "CheckinRepo_Create (Checkin0\<lparr>chk_AccountID := a, chk_CheckinDate := format_date (clock w),
        chk_RewardType := ''credits'', chk_RewardValue := calculateCheckinReward (days + 1)\<rparr>) w2 = (Inr c, w3)"
    and tx: "WalletRepo_Credit a (calculateCheckinReward (days + 1)) TxTypeCheckinReward d ''checkin'' (itoa (chk_ID c)) '''' w3 = (Inr tx, w')"
    and res: "crs_ConsecutiveDays res = days + 1" "crs_RewardValue res = calculateCheckinReward (days + 1)"
    using assms by (auto simp: CheckinService_DoCheckin_def Let_def ok_simps)
  have "leaves checkins (WalletRepo_Credit a x ty d rt ri p)" for x ty d rt ri p
    unfolding WalletRepo_Credit_def by (auto intro!: leaves_intros simp: apart_def)
  then have "checkins w' = checkins w3" using tx by (rule leavesD)
  moreover have "\<exists>r\<in>set (checkins w3). chk_AccountID r = a \<and> chk_CheckinDate r = format_date (clock w)"
    using c by (auto simp: CheckinRepo_Create_def ok_simps checkins_T_def)
  ultimately show ?thesis using CountConsecutive_bounds [OF n] res by auto
qed


lemma demo_checkin_runs: "\<exists>res w'. CheckinService_DoCheckin 7 demo_checkins = (Inr res, w') \<and> crs_ConsecutiveDays res = 3"
proof -
  have days: "format_date (clock demo_checkins) = ''2026-03-01''"
    "format_date (AddDate (clock demo_checkins) 0 0 (- 1)) = ''2026-02-28''"
    by code_simp+
  let ?row = "Checkin0\<lparr>chk_AccountID := 7, chk_CheckinDate := ''2026-03-01'', chk_RewardType := ''credits'',
      chk_RewardValue := calculateCheckinReward 3\<rparr>"
  obtain c w1 where c: "CheckinRepo_Create ?row demo_checkins = (Inr c, w1)" "wallets w1 = wallets demo_checkins"
    "transactions w1 = []" "faults w1 = []" "0 < seqs w1 ''wallet_transactions''"
    by (simp add: CheckinRepo_Create_def q_insert_def calm_stmt demo_checkins_def world0_def checkins_T_def Checkin0_def
        serial_def or_default_def clash_def Let_def)
  have "ledger_ok w1" "fresh_ids w1" "balance w1 7 = Some 0"
    using c(2-5) by (simp_all add: ledger_ok_def ledger_of_def fresh_ids_def balance_def demo_checkins_def world0_def Wallet0_def
        uniq_by_def is_dec_def)
  then obtain tx w2 where t: "WalletRepo_Credit 7 (calculateCheckinReward 3) TxTypeCheckinReward
      (''Daily checkin reward (day '' @ itoa 3 @ '' streak)'') ''checkin'' (itoa (chk_ID c)) '''' w1 = (Inr tx, w2)"
    using Credit_succeeds [OF _ c(4)] by metis
  have "CheckinRepo_GetByAccountAndDate 7 ''2026-03-01'' demo_checkins = (Inr None, demo_checkins)"
    by (simp add: CheckinRepo_GetByAccountAndDate_def calm demo_checkins_def world0_def Checkin0_def)
  then show ?thesis
    using streak_counts_consecutive_days_witness c(1) t
    by (simp add: CheckinService_DoCheckin_def bind_def now_def wrap_def ret_def Let_def days)
qed




end
