(* ===== verification/Invoices.thy ===== *)
theory Invoices
  imports WalletRepo
begin

text \<open>
  \<^verbatim>\<open>adapter/repo/invoice.go\<close> and \<^verbatim>\<open>app/invoice_service.go\<close>: one invoice per paid
  order, generated on demand. The lemmas show that generating twice gives the same invoice,
  that only paid orders of the caller are invoiced, and that no account sees another's.
\<close>

section \<open>Repository\<close>

definition InvoiceRepo_Create :: "Invoice \<Rightarrow> Invoice op" where
  "InvoiceRepo_Create iv = q_insert invoices_T iv"

definition InvoiceRepo_GetByOrderNo :: "string \<Rightarrow> Invoice option op" where
  "InvoiceRepo_GetByOrderNo orderNo = opt_row (q_first invoices_T (\<lambda>x. inv_OrderNo x = orderNo))"

definition InvoiceRepo_GetByInvoiceNo :: "string \<Rightarrow> Invoice option op" where
  "InvoiceRepo_GetByInvoiceNo invoiceNo = opt_row (q_first invoices_T (\<lambda>x. inv_InvoiceNo x = invoiceNo))"

definition InvoiceRepo_ListByAccount :: "int \<Rightarrow> int \<Rightarrow> int \<Rightarrow> (Invoice list \<times> int) op" where
  "InvoiceRepo_ListByAccount accountID page pageSize =
     q_page invoices_T (\<lambda>x. inv_AccountID x = accountID) inv_CreatedAt page pageSize"

definition InvoiceRepo_AdminList :: "int \<Rightarrow> int \<Rightarrow> int \<Rightarrow> (Invoice list \<times> int) op" where
  "InvoiceRepo_AdminList filterAccountID page pageSize =
     q_page invoices_T (\<lambda>x. filterAccountID \<noteq> 0 \<longrightarrow> inv_AccountID x = filterAccountID) inv_CreatedAt page pageSize"

section \<open>Service\<close>

text \<open>\<^verbatim>\<open>fmt.Sprintf("LI%X", n)\<close>\<close>

definition generateInvoiceNo :: "string op" where
  "generateInvoiceNo = bind now (\<lambda>n. ret (''LI'' @ (if n < 0 then ''-'' else []) @ hex_of (nat \<bar>n\<bar>)))"

definition line_item_json :: "InvoiceLineItem \<Rightarrow> json" where
  "line_item_json i = JObj [(''description'', JStr (ili_Description i)), (''quantity'', JNum (of_int (ili_Quantity i))),
     (''unit_price'', JNum (ili_UnitPrice i)), (''amount'', JNum (ili_Amount i))]"

definition order_line :: "PaymentOrder \<Rightarrow> InvoiceLineItem" where
  "order_line order = \<lparr>ili_Description = ord_ProductID order @ '' subscription'', ili_Quantity = 1,
     ili_UnitPrice = ord_AmountCNY order, ili_Amount = ord_AmountCNY order\<rparr>"

definition InvoiceService_Generate :: "int \<Rightarrow> string \<Rightarrow> Invoice op" where
  "InvoiceService_Generate accountID orderNo =
     bind (wrap ''lookup invoice by order'' (InvoiceRepo_GetByOrderNo orderNo)) (\<lambda>existing. case existing of
       Some iv \<Rightarrow> if inv_AccountID iv \<noteq> accountID then fail (EMsg ''invoice not found'') else ret iv
     | None \<Rightarrow>
       bind (wrap ''get order'' (WalletRepo_GetPaymentOrderByNo orderNo)) (\<lambda>o1. case o1 of
         None \<Rightarrow> fail (EMsg ''order not found'')
       | Some order \<Rightarrow>
         if ord_AccountID order \<noteq> accountID then fail (EMsg ''order not found'') else
         if ord_Status order \<noteq> OrderStatusPaid then fail (EMsg ''invoice can only be generated for paid orders'') else
         bind now (\<lambda>n.
         bind generateInvoiceNo (\<lambda>no.
         wrap ''create invoice'' (InvoiceRepo_Create (Invoice0\<lparr>inv_InvoiceNo := no, inv_AccountID := accountID,
            inv_OrderNo := orderNo, inv_IssueDate := n, inv_LineItems := JArr [line_item_json (order_line order)],
            inv_SubtotalCNY := ord_AmountCNY order, inv_TotalCNY := ord_AmountCNY order, inv_Currency := ''CNY'',
            inv_Status := InvoiceStatusIssued\<rparr>))))))"

definition InvoiceService_GetByNo :: "int \<Rightarrow> string \<Rightarrow> Invoice op" where
  "InvoiceService_GetByNo accountID invoiceNo =
     bind (wrap ''get invoice'' (InvoiceRepo_GetByInvoiceNo invoiceNo)) (\<lambda>o1. case o1 of
       None \<Rightarrow> fail (EMsg ''invoice not found'')
     | Some iv \<Rightarrow> if inv_AccountID iv \<noteq> accountID then fail (EMsg ''invoice not found'') else ret iv)"

definition InvoiceService_ListByAccount :: "int \<Rightarrow> int \<Rightarrow> int \<Rightarrow> (Invoice list \<times> int) op" where
  "InvoiceService_ListByAccount accountID page pageSize = InvoiceRepo_ListByAccount accountID page pageSize"

definition InvoiceService_AdminList :: "int \<Rightarrow> int \<Rightarrow> int \<Rightarrow> (Invoice list \<times> int) op" where
  "InvoiceService_AdminList filterAccountID page pageSize = InvoiceRepo_AdminList filterAccountID page pageSize"

section \<open>One invoice per order\<close>

text \<open>
  The table as the constraint keeps it: one invoice per order number, each over the amount of
  its order and for its account.
\<close>

definition invoices_ok :: "world \<Rightarrow> bool" where
  "invoices_ok w \<longleftrightarrow> uniq_by inv_OrderNo (invoices w) \<and> uniq_by inv_ID (invoices w)"

lemma stable_invoices_ok [simp, intro]: "stable invoices_ok"
  by (simp add: stable_def invoices_ok_def)

lemma invoice_cols: "inv_OrderNo (t_cols invoices_T r) = inv_OrderNo r" "inv_ID (t_cols invoices_T r) = inv_ID r"
  "inv_AccountID (t_cols invoices_T r) = inv_AccountID r"
  "inv_OrderNo (t_new invoices_T i n r) = inv_OrderNo r" "inv_AccountID (t_new invoices_T i n r) = inv_AccountID r"
  "inv_TotalCNY (t_new invoices_T i n r) = inv_TotalCNY r" "inv_TotalCNY (t_cols invoices_T r) = dec 2 (inv_TotalCNY r)"
  by (simp_all add: invoices_T_def)

lemma Generate_invoices_ok [keeps_intros]: "keeps invoices_ok (InvoiceService_Generate a no)"
proof -
  have "keeps invoices_ok (InvoiceRepo_Create r)" for r
    unfolding InvoiceRepo_Create_def
    by (rule keeps_q_insert) (auto simp: invoices_ok_def uniq_by_def invoice_cols, auto simp: invoices_T_def)
  then show ?thesis
    unfolding InvoiceService_Generate_def InvoiceRepo_GetByOrderNo_def WalletRepo_GetPaymentOrderByNo_def generateInvoiceNo_def
    by (auto intro!: keeps_intros split: option.splits)
qed

lemma Generate_found:
  "find (\<lambda>x. inv_OrderNo x = no) (invoices u) = Some row \<Longrightarrow> InvoiceService_Generate a no u = (Inr iv, u2) \<Longrightarrow>
   iv = row \<and> invoices u2 = invoices u \<and> inv_AccountID row = a"
  by (auto simp: InvoiceService_Generate_def InvoiceRepo_GetByOrderNo_def ok_simps split: if_splits)

lemma Generate_new:
  assumes "find (\<lambda>x. inv_OrderNo x = no) (invoices w) = None" and "InvoiceService_Generate a no w = (Inr iv, w1)"
  obtains order where "find (\<lambda>x. ord_OrderNo x = no) (orders w) = Some order" "ord_AccountID order = a"
    "ord_Status order = OrderStatusPaid" "inv_AccountID iv = a" "inv_OrderNo iv = no" "inv_TotalCNY iv = ord_AmountCNY order"
    "invoices w1 = invoices w @ [t_cols invoices_T iv]"
proof -
  have ins: "inv_AccountID iv = inv_AccountID r \<and> inv_OrderNo iv = inv_OrderNo r \<and> inv_TotalCNY iv = inv_TotalCNY r
      \<and> invoices w1 = invoices v @ [t_cols invoices_T iv]"
    if "InvoiceRepo_Create r v = (Inr iv, w1)" for r v
    using that by (auto simp: InvoiceRepo_Create_def ok_simps invoice_cols)
  obtain order where "find (\<lambda>x. ord_OrderNo x = no) (orders w) = Some order" "ord_AccountID order = a" "ord_Status order = OrderStatusPaid"
    "inv_AccountID iv = a \<and> inv_OrderNo iv = no \<and> inv_TotalCNY iv = ord_AmountCNY order \<and> invoices w1 = invoices w @ [t_cols invoices_T iv]"
    using assms
    by (auto simp: InvoiceService_Generate_def InvoiceRepo_GetByOrderNo_def WalletRepo_GetPaymentOrderByNo_def generateInvoiceNo_def
        ok_simps split: if_splits dest!: ins)
  then show thesis using that by blast
qed

text \<open>C31: One invoice per paid order. Whatever fails, a successful generation returns an invoice of the
  caller for the order that is stored in the table, which holds one invoice per order; if it is a
  new one, the order is a paid order of the caller and the invoice is over its amount. Every
  further generation by the caller that succeeds returns the stored row and adds nothing.\<close>

theorem one_invoice_per_order:
  assumes "invoices_ok w" and "InvoiceService_Generate a no w = (Inr iv, w1)"
    and "\<forall>o1\<in>set (orders w). is_dec 2 (ord_AmountCNY o1)"
  shows "invoices_ok w1 \<and> inv_AccountID iv = a \<and> inv_OrderNo iv = no
    \<and> (\<exists>row. find (\<lambda>x. inv_OrderNo x = no) (invoices w1) = Some row \<and> inv_ID row = inv_ID iv
        \<and> inv_TotalCNY row = inv_TotalCNY iv
        \<and> (invoices w1 = invoices w \<or> invoices w1 = invoices w @ [row]
             \<and> (\<exists>o1\<in>set (orders w). ord_OrderNo o1 = no \<and> ord_AccountID o1 = a \<and> ord_Status o1 = OrderStatusPaid
                  \<and> inv_TotalCNY row = ord_AmountCNY o1))
        \<and> (\<forall>u iv2 u2. invoices u = invoices w1 \<longrightarrow> InvoiceService_Generate a no u = (Inr iv2, u2) \<longrightarrow>
             iv2 = row \<and> invoices u2 = invoices u))"
proof -
  have ok: "invoices_ok w1" using keepsD [OF Generate_invoices_ok assms(2,1)] .
  show ?thesis
  proof (cases "find (\<lambda>x. inv_OrderNo x = no) (invoices w)")
    case (Some row)
    have g: "iv = row" "invoices w1 = invoices w" "inv_AccountID row = a" using Generate_found [OF Some assms(2)] by auto
    have "iv2 = row \<and> invoices u2 = invoices u"
      if "invoices u = invoices w1" "InvoiceService_Generate a no u = (Inr iv2, u2)" for u iv2 u2
      using Generate_found [OF _ that(2), of row] Some g(2) that(1) by simp
    moreover have "find (\<lambda>x. inv_OrderNo x = no) (invoices w1) = Some row" "inv_OrderNo row = no"
      using Some find_SomeD [OF Some] g(2) by auto
    ultimately show ?thesis unfolding g(1) using g(2,3) ok by blast
  next
    case None
    obtain order where o1: "find (\<lambda>x. ord_OrderNo x = no) (orders w) = Some order" "ord_AccountID order = a"
      "ord_Status order = OrderStatusPaid" and iv: "inv_AccountID iv = a" "inv_OrderNo iv = no"
      "inv_TotalCNY iv = ord_AmountCNY order" "invoices w1 = invoices w @ [t_cols invoices_T iv]"
      by (rule Generate_new [OF None assms(2)])
    have f: "find (\<lambda>x. inv_OrderNo x = no) (invoices w1) = Some (t_cols invoices_T iv)"
      using None iv by (simp add: find_append invoice_cols)
    have "dec 2 (ord_AmountCNY order) = ord_AmountCNY order" using assms(3) find_SomeD [OF o1(1)] by simp
    moreover have "iv2 = t_cols invoices_T iv \<and> invoices u2 = invoices u"
      if "invoices u = invoices w1" "InvoiceService_Generate a no u = (Inr iv2, u2)" for u iv2 u2
      using Generate_found [OF _ that(2), of "t_cols invoices_T iv"] f that(1) by simp
    moreover have "invoices w1 = invoices w @ [t_cols invoices_T iv] \<and> (\<exists>o1\<in>set (orders w). ord_OrderNo o1 = no \<and> ord_AccountID o1 = a
        \<and> ord_Status o1 = OrderStatusPaid \<and> inv_TotalCNY (t_cols invoices_T iv) = ord_AmountCNY o1)"
      "inv_TotalCNY (t_cols invoices_T iv) = inv_TotalCNY iv" "inv_ID (t_cols invoices_T iv) = inv_ID iv"
      using iv o1 find_SomeD [OF o1(1)] calculation(1) by (auto simp: invoice_cols intro!: bexI [of _ order])
    ultimately show ?thesis using ok iv(1,2) f by blast
  qed
qed

theorem one_invoice_per_order_witness:
  "\<exists>iv w1. InvoiceService_Generate 7 ''LO1'' (demo\<lparr>orders := map (ord_Status_update (\<lambda>_. OrderStatusPaid)) (orders demo)\<rparr>) = (Inr iv, w1)
    \<and> length (invoices w1) = 1 \<and> invoices_ok w1"
proof -
  let ?w = "demo\<lparr>orders := map (ord_Status_update (\<lambda>_. OrderStatusPaid)) (orders demo)\<rparr>"
  have r: "(case fst (InvoiceService_Generate 7 ''LO1'' ?w) of Inl e \<Rightarrow> False | Inr iv \<Rightarrow> True)"
    "length (invoices (snd (InvoiceService_Generate 7 ''LO1'' ?w))) = 1" by code_simp+
  then obtain iv w1 where g: "InvoiceService_Generate 7 ''LO1'' ?w = (Inr iv, w1)"
    by (cases "InvoiceService_Generate 7 ''LO1'' ?w") (auto split: sum.splits)
  have "invoices_ok ?w" "\<forall>o1\<in>set (orders ?w). is_dec 2 (ord_AmountCNY o1)"
    by (simp_all add: demo_def world0_def invoices_ok_def PaymentOrder0_def is_dec_def)
  then show ?thesis using one_invoice_per_order [OF _ g] g r(2) by auto
qed

end
