(* ===== verification/Referral.thy ===== *)
theory Referral
  imports Accounts
begin

text \<open>
  \<^verbatim>\<open>app/referral_service.go\<close> and \<^verbatim>\<open>adapter/repo/referral_repo.go\<close>: rewards to
  the account that invited another, and the generation of redemption codes in bulk. The service
  is modelled as \<^verbatim>\<open>cmd/server/main.go\<close> wires it, with the statistics and the event
  store. The lemmas show that a reward is paid at most once per referrer, referee and event,
  that bulk generation ends with the requested number of distinct codes, and that no code it
  makes can be redeemed.
\<close>

section \<open>Repository\<close>

definition ReferralRepo_GetReferralStats :: "int \<Rightarrow> (int \<times> rat) op" where
  "ReferralRepo_GetReferralStats referrerAccountID =
     wrap ''query referral stats'' (bind (q_find transactions_T
       (\<lambda>t. tx_AccountID t = referrerAccountID \<and> tx_Type t = ''referral_reward'')) (\<lambda>rows.
     ret (int (length (remdups (map tx_ReferenceID rows))), sum_list (map tx_Amount rows))))"

text \<open>A unique violation means that the event is already there.\<close>

definition ReferralRepo_CreateRewardEvent :: "ReferralRewardEvent \<Rightarrow> bool op" where
  "ReferralRepo_CreateRewardEvent ev =
     attempt (q_insert rewards_T ev) (\<lambda>r. case r of
       Inl (EUnique c) \<Rightarrow> ret False
     | Inl e \<Rightarrow> fail (EWrap ''insert reward event'' e)
     | Inr _ \<Rightarrow> ret True)"

section \<open>Service\<close>

definition bulkGenerateMaxCount :: int where
  "bulkGenerateMaxCount = 1000"

definition RewardSignup :: rat where "RewardSignup = 5"
definition RewardFirstTopup :: rat where "RewardFirstTopup = 10"
definition RewardFirstSubscription :: rat where "RewardFirstSubscription = 30"
definition RewardRenewalRate :: rat where "RewardRenewalRate = 5 / 100"

text \<open>The text begins with the UTF-8 bytes of four Chinese characters and a dash.\<close>

definition reward_desc :: "string \<Rightarrow> string" where
  "reward_desc eventType = map char_of [230, 142, 168, 232, 141, 144, 229, 165, 150, 229, 138, 177, 32, 226, 128, 148, 32 :: nat]
     @ eventType"

definition ReferralService_reward :: "int \<Rightarrow> int \<Rightarrow> string \<Rightarrow> rat \<Rightarrow> unit op" where
  "ReferralService_reward referrerID refereeID eventType amount =
     attempt (AccountRepo_GetByID referrerID) (\<lambda>r. case r of
       Inr (Some referrer) \<Rightarrow>
         bind (wrap ''record reward event'' (ReferralRepo_CreateRewardEvent (ReferralRewardEvent0\<lparr>
            rre_ReferrerID := referrerID, rre_RefereeID := refereeID, rre_EventType := eventType,
            rre_RewardCredits := amount, rre_Status := ''credited''\<rparr>))) (\<lambda>created.
         if \<not> created then ret () else
         bind (wrap ''ensure referrer wallet'' (WalletRepo_GetOrCreate referrerID)) (\<lambda>_.
         bind (WalletRepo_Credit referrerID amount TxTypeReferralReward (reward_desc eventType)
            ''referral_event'' (''referee:'' @ itoa refereeID) '''') (\<lambda>_. ret ())))
     | _ \<Rightarrow> fail (EMsg (''referrer '' @ itoa referrerID @ '' not found'')))"

definition ReferralService_GetStats :: "int \<Rightarrow> (int \<times> rat) op" where
  "ReferralService_GetStats referrerAccountID = ReferralRepo_GetReferralStats referrerAccountID"

definition ReferralService_OnSignup :: "int \<Rightarrow> int \<Rightarrow> unit op" where
  "ReferralService_OnSignup refereeID referrerID = ReferralService_reward referrerID refereeID ''signup'' RewardSignup"

definition ReferralService_OnFirstTopup :: "int \<Rightarrow> int \<Rightarrow> unit op" where
  "ReferralService_OnFirstTopup refereeID referrerID =
     ReferralService_reward referrerID refereeID ''first_topup'' RewardFirstTopup"

definition ReferralService_OnFirstSubscription :: "int \<Rightarrow> int \<Rightarrow> unit op" where
  "ReferralService_OnFirstSubscription refereeID referrerID =
     ReferralService_reward referrerID refereeID ''first_subscription'' RewardFirstSubscription"

definition ReferralService_OnRenewal :: "int \<Rightarrow> int \<Rightarrow> rat \<Rightarrow> int \<Rightarrow> unit op" where
  "ReferralService_OnRenewal refereeID referrerID amountCNY renewalCount =
     (if 6 < renewalCount then ret () else
      let rewardLB = amountCNY * RewardRenewalRate in
      if rewardLB \<le> 0 then ret () else
      ReferralService_reward referrerID refereeID (''renewal_royalty_'' @ itoa renewalCount) rewardLB)"

text \<open>Four random bytes in hexadecimal, upper case.\<close>

definition generateCode :: "string op" where
  "generateCode = bind (wrap ''rand read'' draw) (\<lambda>s. ret (ToUpper s))"

text \<open>
  The loop of \<^verbatim>\<open>BulkGenerateCodes\<close>: it draws until it has enough distinct codes. Every
  round consumes one random string, so it ends when the supply does. \<open>mk\<close> builds the row.
\<close>

function draw_codes :: "(string \<Rightarrow> RedemptionCode) \<Rightarrow> nat \<Rightarrow> RedemptionCode list \<Rightarrow> RedemptionCode list op" where
  "draw_codes mk count cs w =
     (if count \<le> length cs then (Inr cs, w) else
      case generateCode w of
        (Inl e, w1) \<Rightarrow> (Inl (EWrap ''generate code'' e), w1)
      | (Inr code, w1) \<Rightarrow>
          draw_codes mk count (if code \<in> set (map rc_Code cs) then cs else cs @ [mk code]) w1)"
  by pat_completeness auto
termination
  by (relation "measure (\<lambda>(mk, count, cs, w). length (entropy w))")
    (auto simp: generateCode_def wrap_def bind_def draw_def ret_def split: prod.splits sum.splits list.splits)

declare draw_codes.simps [simp del]

text \<open>The metadata is the JSON document for a plan code that needs no escaping.\<close>

definition bulk_code :: "string \<Rightarrow> string \<Rightarrow> int \<Rightarrow> time option \<Rightarrow> string \<Rightarrow> string \<Rightarrow> RedemptionCode" where
  "bulk_code productID planCode durationDays expiresAt notes code = RedemptionCode0\<lparr>rc_Code := code,
     rc_ProductID := productID, rc_RewardType := ''subscription_trial'', rc_RewardValue := of_int durationDays,
     rc_MaxUses := 1, rc_ExpiresAt := expiresAt, rc_BatchID := notes,
     rc_RewardMetadata := JObj [(''plan_code'', JStr planCode), (''duration_days'', JNum (of_int durationDays))]\<rparr>"

definition ReferralService_BulkGenerateCodes ::
  "string \<Rightarrow> string \<Rightarrow> int \<Rightarrow> time option \<Rightarrow> string \<Rightarrow> int \<Rightarrow> RedemptionCode list op" where
  "ReferralService_BulkGenerateCodes productID planCode durationDays expiresAt notes count =
     (if count < 1 \<or> bulkGenerateMaxCount < count
      then fail (EMsg (''count must be between 1 and '' @ itoa bulkGenerateMaxCount @ '', got '' @ itoa count)) else
      bind (draw_codes (bulk_code productID planCode durationDays expiresAt notes) (nat count) []) (\<lambda>codes.
      bind (wrap ''bulk create codes'' (WalletRepo_BulkCreate codes)) (\<lambda>_.
      ret codes)))"

section \<open>A reward is paid at most once\<close>

type_synonym reward_id = "int \<times> int \<times> string"

definition reward_key :: "ReferralRewardEvent \<Rightarrow> reward_id" where
  "reward_key r = (rre_ReferrerID r, rre_RefereeID r, rre_EventType r)"

definition reward_armed :: "reward_id \<Rightarrow> world \<Rightarrow> bool" where
  "reward_armed k w \<longleftrightarrow> k \<notin> reward_key ` set (rewards w)"

definition is_reward_of :: "reward_id \<Rightarrow> WalletTransaction \<Rightarrow> bool" where
  "is_reward_of k t \<longleftrightarrow> tx_Type t = TxTypeReferralReward \<and> tx_AccountID t = fst k
     \<and> tx_ReferenceID t = ''referee:'' @ itoa (fst (snd k)) \<and> tx_Description t = reward_desc (snd (snd k))"

definition reward_rows :: "reward_id \<Rightarrow> world \<Rightarrow> nat" where
  "reward_rows k w = length (filter (is_reward_of k) (transactions w))"

lemma is_reward_of_eq: "is_reward_of k t \<Longrightarrow> is_reward_of j t \<Longrightarrow> j = k"
  by (auto simp: is_reward_of_def reward_desc_def itoa_eq prod_eq_iff)

lemma reward_conflict: "t_conflict rewards_T r t = None \<Longrightarrow> reward_key r \<notin> reward_key ` set t"
  by (auto simp: rewards_T_def reward_key_def)

lemma reward_cols: "reward_key (t_cols rewards_T (t_new rewards_T i n r)) = reward_key r"
  by (simp add: rewards_T_def reward_key_def)

lemma rewards_apart [simp, intro]: "apart rewards wallets_T" "apart rewards transactions_T" "apart transactions rewards_T"
  by (simp_all add: apart_def)

lemma reward_frames:
  "leaves rewards (WalletRepo_GetOrCreate a)" "leaves rewards (WalletRepo_Credit a x ty d rt ri p)"
  "leaves transactions (WalletRepo_GetOrCreate a)" "leaves transactions (AccountRepo_GetByID a)"
  "leaves rewards (AccountRepo_GetByID a)" "leaves transactions (ReferralRepo_CreateRewardEvent ev)"
  unfolding WalletRepo_GetOrCreate_def WalletRepo_Credit_def AccountRepo_GetByID_def ReferralRepo_CreateRewardEvent_def
  by (auto intro!: leaves_intros leaves_attempt split: sum.splits err.splits)

lemma Credit_row_full:
  assumes "WalletRepo_Credit a x ty d rt ri p w = (r, w')"
  shows "transactions w' = transactions w \<or>
    (\<exists>t. transactions w' = transactions w @ [t] \<and> tx_Type t = ty \<and> tx_AccountID t = a \<and> tx_ReferenceID t = ri \<and> tx_Description t = d)"
proof (cases r)
  case (Inl e)
  then show ?thesis using assms by (auto simp: WalletRepo_Credit_def dest!: transaction_rollback)
next
  case (Inr tx)
  then show ?thesis using assms
    by (auto simp: WalletRepo_Credit_def ok_simps transactions_T_def)
qed

lemma CreateRewardEvent_effect:
  assumes "ReferralRepo_CreateRewardEvent ev w = (r, w')"
  shows "rewards w' = rewards w \<and> r \<noteq> Inr True \<or>
    (\<exists>x. rewards w' = rewards w @ [x] \<and> reward_key x = reward_key ev \<and> reward_key ev \<notin> reward_key ` set (rewards w) \<and> r = Inr True)"
proof (cases "fst (q_insert rewards_T ev w)")
  case (Inl e)
  then have "rewards w' = rewards w" "r \<noteq> Inr True" using assms
    by (auto simp: ReferralRepo_CreateRewardEvent_def attempt_def q_insert_def stmt_def ret_def fail_def Let_def
        split: if_splits option.splits err.splits prod.splits sum.splits)
  then show ?thesis by simp
next
  case (Inr x)
  then obtain w1 where i: "q_insert rewards_T ev w = (Inr x, w1)" by (metis prod.collapse)
  then have "r = Inr True" "w' = w1" using assms by (auto simp: ReferralRepo_CreateRewardEvent_def attempt_def ret_def)
  with i reward_conflict [of x] reward_cols [of _ _ ev] show ?thesis
    by (fastforce simp: ok_simps reward_key_def rewards_T_def)
qed

lemma reward_effect:
  assumes "ReferralService_reward a b e x w = (r, w')"
  shows "transactions w' = transactions w \<and> (rewards w' = rewards w \<or> (\<exists>v. rewards w' = rewards w @ [v])) \<or>
    (\<exists>t v. transactions w' = transactions w @ [t] \<and> is_reward_of (a, b, e) t
       \<and> rewards w' = rewards w @ [v] \<and> reward_key v = (a, b, e) \<and> reward_armed (a, b, e) w)"
proof -
  obtain o1 w1 where g: "AccountRepo_GetByID a w = (o1, w1)" by fastforce
  have w1: "transactions w1 = transactions w" "rewards w1 = rewards w"
    using leavesD [OF reward_frames(4) g] leavesD [OF reward_frames(5) g] by simp_all
  let ?ev = "ReferralRewardEvent0\<lparr>rre_ReferrerID := a, rre_RefereeID := b, rre_EventType := e, rre_RewardCredits := x, rre_Status := ''credited''\<rparr>"
  obtain c w2 where c: "ReferralRepo_CreateRewardEvent ?ev w1 = (c, w2)" by fastforce
  have w2: "transactions w2 = transactions w" using leavesD [OF reward_frames(6) c] w1 by simp
  show ?thesis
  proof (cases "(\<exists>q. o1 = Inr (Some q)) \<and> c = Inr True")
    case False
    then have "w' = w1 \<or> w' = w2" using assms g c
      by (auto simp: ReferralService_reward_def attempt_def bind_def wrap_def ret_def fail_def split: sum.splits option.splits bool.splits)
    then show ?thesis using w1 w2 CreateRewardEvent_effect [OF c] by auto
  next
    case True
    then obtain v where v: "rewards w2 = rewards w @ [v]" "reward_key v = (a, b, e)" "reward_armed (a, b, e) w"
      using CreateRewardEvent_effect [OF c] w1 by (auto simp: reward_armed_def reward_key_def)
    let ?m = "WalletRepo_Credit a x TxTypeReferralReward (reward_desc e) ''referral_event'' (''referee:'' @ itoa b) ''''"
    obtain y w3 where m: "wrap ''ensure referrer wallet'' (WalletRepo_GetOrCreate a) w2 = (y, w3)" by fastforce
    have w3: "transactions w3 = transactions w" "rewards w3 = rewards w @ [v]"
      using leavesD [OF leaves_wrap [OF reward_frames(3)] m] leavesD [OF leaves_wrap [OF reward_frames(1)] m] v w2 by simp_all
    obtain z w4 where z: "?m w3 = (z, w4)" by fastforce
    have w4: "rewards w4 = rewards w @ [v]" using leavesD [OF reward_frames(2) z] w3 by simp
    have "w' = w3 \<or> w' = w4" using assms g c True m z
      by (auto simp: ReferralService_reward_def attempt_def bind_def wrap_def ret_def split: sum.splits)
    then show ?thesis using Credit_row_full [OF z] w3 w4 v by (auto simp: is_reward_of_def)
  qed
qed

text \<open>The moves of the others: unrelated credits, new accounts, time and failures.\<close>

datatype reward_env = OtherCredit int rat string | NewAccount Account | RewardClock time | RewardFaults "bool list"

fun reward_env_step :: "reward_env \<Rightarrow> world \<Rightarrow> world" where
  "reward_env_step (OtherCredit a x ref) w = snd (WalletRepo_Credit a x TxTypeBonus '''' ''admin'' ref '''' w)"
| "reward_env_step (NewAccount a) w = snd (AccountRepo_Create a w)"
| "reward_env_step (RewardClock t) w = w\<lparr>clock := t\<rparr>"
| "reward_env_step (RewardFaults bs) w = w\<lparr>faults := bs\<rparr>"

definition reward_step :: "rat \<Rightarrow> reward_id \<Rightarrow> world \<Rightarrow> world" where
  "reward_step x k w = snd (ReferralService_reward (fst k) (fst (snd k)) (snd (snd k)) x w)"

lemma reward_env_frames: "rewards (reward_env_step e w) = rewards w" "reward_rows k (reward_env_step e w) = reward_rows k w"
proof -
  have a: "leaves rewards (AccountRepo_Create a)" "leaves transactions (AccountRepo_Create a)" for a
    unfolding AccountRepo_Create_def by (auto intro!: leaves_intros simp: apart_def accounts_T_def)
  show "rewards (reward_env_step e w) = rewards w"
    using reward_frames(2) a(1) by (cases e) (auto simp: leaves_def)
  show "reward_rows k (reward_env_step e w) = reward_rows k w"
  proof (cases e)
    case (OtherCredit u x ref)
    obtain r w1 where c: "WalletRepo_Credit u x TxTypeBonus '''' ''admin'' ref '''' w = (r, w1)" by fastforce
    show ?thesis using Credit_row_full [OF c] c OtherCredit by (auto simp: reward_rows_def is_reward_of_def)
  qed (use a(2) in \<open>auto simp: reward_rows_def leaves_def\<close>)
qed

lemma reward_step_rows:
  "rewards (reward_step x j w) = rewards w \<or> (\<exists>v. rewards (reward_step x j w) = rewards w @ [v])"
  "reward_rows k (reward_step x j w) = reward_rows k w \<or> j = k \<and> reward_armed k w \<and> \<not> reward_armed k (reward_step x j w)
     \<and> reward_rows k (reward_step x j w) = Suc (reward_rows k w)"
proof -
  obtain a b e where j: "j = (a, b, e)" by (cases j)
  obtain r w' where s: "ReferralService_reward a b e x w = (r, w')" by fastforce
  then have w': "reward_step x j w = w'" by (simp add: reward_step_def j)
  note E = reward_effect [OF s]
  show "rewards (reward_step x j w) = rewards w \<or> (\<exists>v. rewards (reward_step x j w) = rewards w @ [v])"
    using E unfolding w' by blast
  show "reward_rows k (reward_step x j w) = reward_rows k w \<or> j = k \<and> reward_armed k w \<and> \<not> reward_armed k (reward_step x j w)
     \<and> reward_rows k (reward_step x j w) = Suc (reward_rows k w)"
  proof (cases "transactions w' = transactions w")
    case True
    then show ?thesis by (simp add: reward_rows_def w')
  next
    case False
    then obtain t v where t: "transactions w' = transactions w @ [t]" "is_reward_of (a, b, e) t"
      and v: "rewards w' = rewards w @ [v]" "reward_key v = (a, b, e)" "reward_armed (a, b, e) w" using E by blast
    show ?thesis
    proof (cases "(a, b, e) = k")
      case True
      then show ?thesis using t v by (auto simp: reward_rows_def reward_armed_def w' [unfolded j] j)
    next
      case False
      then have "\<not> is_reward_of k t" using is_reward_of_eq [OF _ t(2)] by blast
      then show ?thesis using t by (simp add: reward_rows_def w')
    qed
  qed
qed

interpretation reward_payments: pays_once reward_env_step reward_armed reward_step reward_rows
proof
  fix k e s assume "\<not> reward_armed k s"
  then show "\<not> reward_armed k (reward_env_step e s)" by (simp add: reward_armed_def reward_env_frames)
next
  fix k s a j assume "\<not> reward_armed k s"
  then show "\<not> reward_armed k (reward_step a j s)"
    using reward_step_rows(1) [of a j s] by (auto simp: reward_armed_def)
next
  fix k a j s
  show "reward_rows k (reward_step a j s) = reward_rows k s
          \<or> j = k \<and> reward_armed k s \<and> \<not> reward_armed k (reward_step a j s) \<and> reward_rows k (reward_step a j s) = Suc (reward_rows k s)"
    by (rule reward_step_rows(2))
next
  fix k e s show "reward_rows k (reward_env_step e s) = reward_rows k s" by (rule reward_env_frames(2))
qed

text \<open>C19: A referral reward is paid at most once. Whatever calls of the reward functions, unrelated
  credits, sign-ups and statement failures interleave, the ledger ends with at most one reward
  row per referrer, referee and kind of event, since the event row with its unique key is
  written before the money moves.\<close>

theorem reward_paid_at_most_once:
  assumes "reward_rows k w = 0"
  shows "reward_rows k (act_run reward_step reward_env_step xs w) \<le> 1"
  using assms by (rule reward_payments.run_pays_at_most_once)

theorem reward_paid_at_most_once_witness:
  "reward_rows (1, 9, ''signup'') (act_run reward_step reward_env_step
     [Inl (RewardSignup, (1, 9, ''signup'')), Inr (RewardFaults [False, True]), Inl (RewardSignup, (1, 9, ''signup''))]
     (demo_accounts\<lparr>wallets := [Wallet0\<lparr>wal_ID := 1, wal_AccountID := 1\<rparr>]\<rparr>)) \<le> 1"
  by (rule reward_paid_at_most_once) (simp add: reward_rows_def demo_accounts_def world0_def)

section \<open>Codes in bulk\<close>

lemma generateCode_run: "generateCode w = (case entropy w of [] \<Rightarrow> (Inl (EWrap ''rand read'' (EExt ''rand'')), w)
    | s # ss \<Rightarrow> (Inr (ToUpper s), w\<lparr>entropy := ss\<rparr>))"
  by (simp add: generateCode_def wrap_def bind_def draw_def ret_def split: list.split)

lemma draw_codes_ok:
  assumes "draw_codes mk count cs w = (Inr out, w')" and "distinct (map rc_Code cs)" and "\<And>c. rc_Code (mk c) = c"
    and "set cs \<subseteq> range mk" and "length cs \<le> count"
  shows "length out = count \<and> distinct (map rc_Code out) \<and> set out \<subseteq> range mk \<and> (\<exists>ss. w' = w\<lparr>entropy := ss\<rparr>)"
  using assms
proof (induction mk count cs w rule: draw_codes.induct)
  case (1 mk count cs w)
  note run = "1.prems"(1) [unfolded draw_codes.simps [of mk count cs w]]
  show ?case
  proof (cases "count \<le> length cs")
    case True
    then have "out = cs" "w' = w" using run by simp_all
    then show ?thesis using "1.prems"(2-5) True by (intro conjI exI [of _ "entropy w"]) simp_all
  next
    case False
    then obtain s ss where e: "entropy w = s # ss" using run
      by (auto simp: generateCode_run split: list.splits)
    let ?cs = "if ToUpper s \<in> set (map rc_Code cs) then cs else cs @ [mk (ToUpper s)]"
    have g: "generateCode w = (Inr (ToUpper s), w\<lparr>entropy := ss\<rparr>)" by (simp add: generateCode_run e)
    have "draw_codes mk count ?cs (w\<lparr>entropy := ss\<rparr>) = (Inr out, w')"
      using run False g by simp
    moreover have "distinct (map rc_Code ?cs)" using "1.prems"(2,3) by auto
    moreover have "set ?cs \<subseteq> range mk" using "1.prems"(4) by auto
    moreover have "length ?cs \<le> count" using False by auto
    ultimately show ?thesis
      using "1.IH" [OF False g [symmetric] refl] "1.prems"(3) by fastforce
  qed
qed

text \<open>The loop ends with enough codes as soon as the random source offers enough different ones.\<close>

lemma draw_codes_ends:
  assumes "distinct (map rc_Code cs)" and "\<And>c. rc_Code (mk c) = c"
    and "count \<le> card (rc_Code ` set cs \<union> ToUpper ` set (entropy w))"
  shows "\<exists>out w'. draw_codes mk count cs w = (Inr out, w')
    \<and> rc_Code ` set out \<subseteq> rc_Code ` set cs \<union> ToUpper ` set (entropy w)"
  using assms
proof (induction mk count cs w rule: draw_codes.induct)
  case (1 mk count cs w)
  show ?case
  proof (cases "count \<le> length cs")
    case True
    then show ?thesis by (subst draw_codes.simps) simp
  next
    case False
    have "card (rc_Code ` set cs) = length cs" using "1.prems"(1) distinct_card [of "map rc_Code cs"] by simp
    with False "1.prems"(3) have "entropy w \<noteq> []" by auto
    then obtain s ss where e: "entropy w = s # ss" by (cases "entropy w") auto
    let ?cs = "if ToUpper s \<in> set (map rc_Code cs) then cs else cs @ [mk (ToUpper s)]"
    have g: "generateCode w = (Inr (ToUpper s), w\<lparr>entropy := ss\<rparr>)" by (simp add: generateCode_run e)
    have d: "distinct (map rc_Code ?cs)" using "1.prems"(1,2) by auto
    have u: "rc_Code ` set ?cs \<union> ToUpper ` set (entropy (w\<lparr>entropy := ss\<rparr>)) = rc_Code ` set cs \<union> ToUpper ` set (entropy w)"
      using "1.prems"(2) by (auto simp: e)
    have "\<exists>out w'. draw_codes mk count ?cs (w\<lparr>entropy := ss\<rparr>) = (Inr out, w')
        \<and> rc_Code ` set out \<subseteq> rc_Code ` set cs \<union> ToUpper ` set (entropy w)"
      using "1.IH" [OF False g [symmetric] refl d "1.prems"(2)] "1.prems"(3) unfolding u by blast
    then show ?thesis using False g by (subst draw_codes.simps) simp
  qed
qed

lemma bulk_code_fields [simp]:
  "rc_Code (bulk_code p pc d ex nt c) = c" "rc_ID (bulk_code p pc d ex nt c) = 0"
  "rc_RewardType (bulk_code p pc d ex nt c) = ''subscription_trial''"
  by (simp_all add: bulk_code_def RedemptionCode0_def)

lemma bulk_row:
  "rc_Code (t_cols codes_T r) = rc_Code r" "rc_RewardType (t_cols codes_T r) = rc_RewardType r"
  "rc_ID (t_cols codes_T r) = rc_ID r" "rc_Code (t_new codes_T i n r) = rc_Code r"
  "rc_RewardType (t_new codes_T i n r) = rc_RewardType r" "rc_ID r = 0 \<Longrightarrow> rc_ID (t_new codes_T i n r) = i"
  by (simp_all add: codes_T_def serial_def)

lemma bulk_conflict: "t_conflict codes_T r t = None \<longleftrightarrow> (\<forall>x\<in>set t. rc_ID x \<noteq> rc_ID r \<and> rc_Code x \<noteq> rc_Code r)"
  by (auto simp: codes_T_def)

definition insert_codes :: "RedemptionCode list \<Rightarrow> unit op" where
  "insert_codes cs = for_each (\<lambda>rc. bind (q_insert codes_T rc) (\<lambda>_. ret ())) cs"

lemma insert_codes_runs:
  assumes "faults w = []" and "\<forall>x\<in>set (codes w). rc_ID x < seqs w ''redemption_codes''"
    and "distinct (map rc_Code cs)" and "rc_Code ` set cs \<inter> rc_Code ` set (codes w) = {}" and "\<forall>c\<in>set cs. rc_ID c = 0"
  shows "\<exists>w'. insert_codes cs w = (Inr (), w') \<and> faults w' = [] \<and> map rc_Code (codes w') = map rc_Code (codes w) @ map rc_Code cs"
  using assms
proof (induction cs arbitrary: w)
  case Nil
  then show ?case by (simp add: insert_codes_def ret_def)
next
  case (Cons c cs)
  let ?i = "seqs w ''redemption_codes''"
  let ?r = "t_new codes_T ?i (clock w) c"
  let ?w = "codes_update (\<lambda>t. t @ [t_cols codes_T ?r]) (w\<lparr>seqs := (seqs w)(''redemption_codes'' := ?i + 1)\<rparr>)"
  have id: "rc_ID ?r = ?i" "rc_Code ?r = rc_Code c" using Cons.prems(5) by (simp_all add: bulk_row)
  have "\<forall>x\<in>set (codes w). rc_Code x \<noteq> rc_Code c"
    using Cons.prems(4) by (metis disjoint_iff imageI list.set_intros(1))
  then have "t_conflict codes_T ?r (codes w) = None" unfolding bulk_conflict id using Cons.prems(2) by auto
  then have i: "q_insert codes_T c w = (Inr ?r, ?w)" using Cons.prems(1) by (subst calm_insert [OF _ refl]) simp_all
  have "\<exists>w'. insert_codes cs ?w = (Inr (), w') \<and> faults w' = [] \<and> map rc_Code (codes w') = map rc_Code (codes ?w) @ map rc_Code cs"
  proof (rule Cons.IH)
    show "\<forall>x\<in>set (codes ?w). rc_ID x < seqs ?w ''redemption_codes''"
      using Cons.prems(2) id by (auto simp: bulk_row zless_add1_eq)
    show "rc_Code ` set cs \<inter> rc_Code ` set (codes ?w) = {}"
      using Cons.prems(3,4) id by (auto simp: bulk_row)
  qed (use Cons.prems in simp_all)
  then show ?case using i by (auto simp: insert_codes_def bind_def ret_def bulk_row)
qed

text \<open>C22: Bulk generation ends with what was asked for. For a count between 1 and 1000, if the random
  source offers at least that many different codes, none of them stored yet, then the retry loop
  ends and the call stores exactly \<open>count\<close> pairwise different codes, all new.\<close>

theorem bulk_generation_ends:
  assumes "1 \<le> count" and "count \<le> bulkGenerateMaxCount" and "faults w = []"
    and "nat count \<le> card (ToUpper ` set (entropy w))"
    and "ToUpper ` set (entropy w) \<inter> rc_Code ` set (codes w) = {}"
    and "\<forall>x\<in>set (codes w). rc_ID x < seqs w ''redemption_codes''"
  shows "\<exists>cs w'. ReferralService_BulkGenerateCodes p pc d ex nt count w = (Inr cs, w')
    \<and> length cs = nat count \<and> distinct (map rc_Code cs)
    \<and> map rc_Code (codes w') = map rc_Code (codes w) @ map rc_Code cs"
proof -
  let ?mk = "bulk_code p pc d ex nt"
  obtain cs w1 where cs: "draw_codes ?mk (nat count) [] w = (Inr cs, w1)" "rc_Code ` set cs \<subseteq> ToUpper ` set (entropy w)"
    using draw_codes_ends [of "[]" ?mk "nat count" w] assms(4) by auto
  obtain ss where ok: "length cs = nat count" "distinct (map rc_Code cs)" "set cs \<subseteq> range ?mk" "w1 = w\<lparr>entropy := ss\<rparr>"
    using draw_codes_ok [OF cs(1)] by auto
  have "\<forall>c\<in>set cs. rc_ID c = 0" "rc_Code ` set cs \<inter> rc_Code ` set (codes w) = {}" using ok(3) cs(2) assms(5) by auto
  then obtain w2 where w2: "insert_codes cs w1 = (Inr (), w2)" "faults w2 = []" "map rc_Code (codes w2) = map rc_Code (codes w) @ map rc_Code cs"
    using insert_codes_runs [of w1 cs] assms(3,5,6) cs(2) ok by auto
  have "cs \<noteq> []" using ok(1) assms(1) by auto
  then have "WalletRepo_BulkCreate cs w1 = (Inr (), w2)"
    using w2(1,2) calm_transaction by (simp add: WalletRepo_BulkCreate_def insert_codes_def)
  then have "ReferralService_BulkGenerateCodes p pc d ex nt count w = (Inr cs, w2)"
    using assms(1,2) cs(1) by (simp add: ReferralService_BulkGenerateCodes_def bind_def wrap_def ret_def)
  then show ?thesis using ok w2(3) by blast
qed

theorem bulk_generation_ends_witness:
  "\<exists>cs w'. ReferralService_BulkGenerateCodes ''api'' ''pro'' 30 None '''' 2
       (world0\<lparr>entropy := [''0a1b2c3d'', ''0a1b2c3d'', ''ffffffff'']\<rparr>) = (Inr cs, w')
    \<and> length cs = 2 \<and> distinct (map rc_Code cs)"
proof -
  let ?w = "world0\<lparr>entropy := [''0a1b2c3d'', ''0a1b2c3d'', ''ffffffff'']\<rparr>"
  have u: "ToUpper ''0a1b2c3d'' = ''0A1B2C3D''" "ToUpper ''ffffffff'' = ''FFFFFFFF''" by code_simp+
  have "nat 2 \<le> card (ToUpper ` set (entropy ?w))" by (simp add: u)
  then show ?thesis
    using bulk_generation_ends [of 2 ?w "''api''" "''pro''" 30 None "''''"]
    by (force simp: bulkGenerateMaxCount_def world0_def)
qed

text \<open>A row inserted with a code stays the only row with that code.\<close>

definition code_has_type :: "string \<Rightarrow> string \<Rightarrow> world \<Rightarrow> bool" where
  "code_has_type c ty w \<longleftrightarrow> (\<exists>x\<in>set (codes w). rc_Code x = c) \<and> (\<forall>x\<in>set (codes w). rc_Code x = c \<longrightarrow> rc_RewardType x = ty)"

lemma insert_code_type:
  assumes "q_insert codes_T r w = (Inr x, w')"
  shows "code_has_type (rc_Code r) (rc_RewardType r) w'" and "code_has_type c ty w \<Longrightarrow> code_has_type c ty w'"
  using assms by (auto simp: ok_simps code_has_type_def bulk_conflict bulk_row)

lemma insert_codes_type:
  assumes "insert_codes cs w = (Inr u, w')"
  shows "(code_has_type c ty w \<longrightarrow> code_has_type c ty w') \<and> (\<forall>r\<in>set cs. code_has_type (rc_Code r) (rc_RewardType r) w')"
  using assms
proof (induction cs arbitrary: w c ty)
  case Nil
  then show ?case by (simp add: insert_codes_def ret_def)
next
  case (Cons r cs)
  then obtain x w1 where i: "q_insert codes_T r w = (Inr x, w1)" and rest: "insert_codes cs w1 = (Inr u, w')"
    by (auto simp: insert_codes_def ok_simps)
  have "(code_has_type k t w1 \<longrightarrow> code_has_type k t w') \<and> (\<forall>r\<in>set cs. code_has_type (rc_Code r) (rc_RewardType r) w')" for k t
    by (rule Cons.IH [OF rest])
  with insert_code_type [OF i] show ?case by auto
qed

lemma code_has_type_adv [simp]: "code_has_type c ty (adv w) = code_has_type c ty w"
  by (simp add: code_has_type_def)

text \<open>No generated code can be redeemed. Bulk generation writes codes of the type
  \<open>subscription_trial\<close>, and redemption knows only \<open>credits\<close>: after any successful generation,
  and for any account, time and failures, redeeming any of its codes returns an error.\<close>

theorem bulk_codes_never_redeem:
  assumes "ReferralService_BulkGenerateCodes p pc d ex nt n w = (Inr cs, w')" and "rc \<in> set cs" and "codes u = codes w'"
  shows "\<exists>e. fst (WalletRepo_RedeemCode a (rc_Code rc) u) = Inl e"
proof -
  obtain w1 where d: "draw_codes (bulk_code p pc d ex nt) (nat n) [] w = (Inr cs, w1)"
    and b: "WalletRepo_BulkCreate cs w1 = (Inr (), w')"
    using assms(1) by (auto simp: ReferralService_BulkGenerateCodes_def ok_simps split: if_splits)
  have ty: "rc_RewardType rc = ''subscription_trial''" using draw_codes_ok [OF d] assms(2) by auto
  obtain w2 where w2: "insert_codes cs w1 = (Inr (), w2)" "w' = adv w2"
    using b assms(2) by (auto simp: WalletRepo_BulkCreate_def insert_codes_def ok_simps split: if_splits)
  have "code_has_type (rc_Code rc) ''subscription_trial'' w2"
    using conjunct2 [OF insert_codes_type [OF w2(1)]] assms(2) ty by metis
  then have t: "code_has_type (rc_Code rc) ''subscription_trial'' u"
    using assms(3) w2(2) by (simp add: code_has_type_def)
  have False if r: "WalletRepo_RedeemCode a (rc_Code rc) u = (Inr tx, u')" for tx u'
  proof -
    from r obtain row where "find (\<lambda>y. rc_Code y = rc_Code rc) (codes u) = Some row" "rc_RewardType row = ''credits''"
      by (auto simp: WalletRepo_RedeemCode_def ok_simps)
    with t show False by (auto simp: code_has_type_def dest: find_SomeD)
  qed
  then show ?thesis by (cases "WalletRepo_RedeemCode a (rc_Code rc) u"; cases "fst (WalletRepo_RedeemCode a (rc_Code rc) u)") auto
qed

theorem bulk_codes_never_redeem_witness:
  "\<exists>e. fst (WalletRepo_RedeemCode 7 ''0A1B2C3D'' (snd (ReferralService_BulkGenerateCodes ''api'' ''pro'' 30 None '''' 1
       (world0\<lparr>entropy := [''0a1b2c3d'']\<rparr>)))) = Inl e"
proof -
  let ?r = "ReferralService_BulkGenerateCodes ''api'' ''pro'' 30 None '''' 1 (world0\<lparr>entropy := [''0a1b2c3d'']\<rparr>)"
  have "(case fst ?r of Inl e \<Rightarrow> False | Inr cs \<Rightarrow> map rc_Code cs = [''0A1B2C3D''])" by code_simp
  then obtain cs where cs: "fst ?r = Inr cs" "map rc_Code cs = [''0A1B2C3D'']" by (auto split: sum.splits)
  then have "?r = (Inr cs, snd ?r)" "hd cs \<in> set cs" "rc_Code (hd cs) = ''0A1B2C3D''" by (auto simp: prod_eq_iff)
  from bulk_codes_never_redeem [OF this(1,2) refl, of 7] this(3) show ?thesis by simp
qed

end
