(* ===== verification/Handlers.thy ===== *)
theory Handlers
  imports Payments Overview Refunds Checkins Invoices Referral
begin

text \<open>
  The handlers of the user API and their administrative neighbours, \<^verbatim>\<open>internal/adapter/handler\<close>:
  \<^verbatim>\<open>account.go\<close>, \<^verbatim>\<open>wallet.go\<close>, \<^verbatim>\<open>subscription.go\<close>,
  \<^verbatim>\<open>refund.go\<close>, \<^verbatim>\<open>invoice.go\<close>, \<^verbatim>\<open>checkin_handler.go\<close> and
  the public half of \<^verbatim>\<open>product.go\<close>. Each handler is the whole function: the decoding of the request, every
  service call in order and every answer.
\<close>

section \<open>Service calls\<close>

text \<open>
  \<^verbatim>\<open>x, err := m(); if err != nil { c.JSON(status, ...); return }\<close>, with a fixed text or
  with the text of the error.
\<close>

definition or_error :: "int \<Rightarrow> string \<Rightarrow> 'a op \<Rightarrow> ('a \<Rightarrow> response op) \<Rightarrow> response op" where
  "or_error s t m k = attempt m (\<lambda>r. case r of Inl e \<Rightarrow> err_json s t | Inr x \<Rightarrow> k x)"

definition or_text :: "int \<Rightarrow> 'a op \<Rightarrow> ('a \<Rightarrow> response op) \<Rightarrow> response op" where
  "or_text s m k = attempt m (\<lambda>r. case r of Inl e \<Rightarrow> err_json s (err_text e) | Inr x \<Rightarrow> k x)"

text \<open>\<^verbatim>\<open>if err != nil || x == nil\<close>\<close>

definition or_missing :: "int \<Rightarrow> string \<Rightarrow> 'a option op \<Rightarrow> ('a \<Rightarrow> response op) \<Rightarrow> response op" where
  "or_missing s t m k = attempt m (\<lambda>r. case r of Inr (Some x) \<Rightarrow> k x | _ \<Rightarrow> err_json s t)"

text \<open>\<^verbatim>\<open>gin.H{"data": list, "total": total}\<close>\<close>

definition page_json :: "('a \<Rightarrow> gval) \<Rightarrow> 'a list \<times> int \<Rightarrow> response op" where
  "page_json g p = ok_json 200 [(''data'', GList (map g (fst p))), (''total'', GInt (snd p))]"

definition utf8_text :: "nat list \<Rightarrow> string" where
  "utf8_text bs = map char_of bs"

section \<open>Checkout\<close>

text \<open>The providers a handler is wired with, each absent when it is not configured.\<close>

record checkouts =
  co_epay :: "((epay_purchase \<Rightarrow> string op) \<times> string) option"
  co_stripe :: "(StripeProvider \<times> (stripe_params \<Rightarrow> (string \<times> string) op)) option"
  co_creem :: "(CreemProvider \<times> (string \<Rightarrow> string \<Rightarrow> string \<Rightarrow> (int \<times> string) op)) option"

definition provider_error :: "string \<Rightarrow> string" where
  "provider_error name = ''payment provider not available: '' @ name"

text \<open>A \<^verbatim>\<open>providerError\<close> is the value \<open>Inl\<close>, any other error is one of the operation.\<close>

definition resolveCheckout :: "checkouts \<Rightarrow> PaymentOrder \<Rightarrow> string \<Rightarrow> (string + string \<times> string) op" where
  "resolveCheckout h order returnURL =
     (if ord_PaymentMethod order \<in> {''epay_alipay'', ''epay_wxpay''} then
        (case co_epay h of None \<Rightarrow> ret (Inl (provider_error ''epay''))
         | Some (purchase, notifyURL) \<Rightarrow> bind (EpayProvider_CreateCheckout purchase notifyURL order returnURL) (\<lambda>x. ret (Inr x)))
      else if ord_PaymentMethod order = ''stripe'' then
        (case co_stripe h of None \<Rightarrow> ret (Inl (provider_error ''stripe''))
         | Some (p, new_session) \<Rightarrow> bind (StripeProvider_CreateCheckout new_session p order returnURL) (\<lambda>x. ret (Inr x)))
      else if ord_PaymentMethod order = ''creem'' then
        (case co_creem h of None \<Rightarrow> ret (Inl (provider_error ''creem''))
         | Some (p, post) \<Rightarrow> bind (CreemProvider_CreateCheckout post p order returnURL) (\<lambda>x. ret (Inr x)))
      else ret (Inl (provider_error (ord_PaymentMethod order))))"

section \<open>Wallet\<close>

definition minTopupCNY :: rat where "minTopupCNY = 1"
definition maxTopupCNY :: rat where "maxTopupCNY = 100000"

definition validPaymentMethods :: "string list" where
  "validPaymentMethods = [''epay_alipay'', ''epay_wechat'', ''stripe'', ''creem'']"

definition WalletHandler_GetWallet :: handler where
  "WalletHandler_GetWallet c =
     or_error 500 ''wallet lookup failed'' (WalletService_GetWallet (mustAccountID c)) (\<lambda>wallet. ret (JSON 200 (GWallet wallet)))"

definition WalletHandler_ListTransactions :: handler where
  "WalletHandler_ListTransactions c = (case page_params c of (page, pageSize) \<Rightarrow>
     or_error 500 ''failed to list transactions'' (WalletService_ListTransactions (mustAccountID c) page pageSize) (page_json GTx))"

definition WalletHandler_Redeem :: handler where
  "WalletHandler_Redeem c =
     with_body c (req_str ''code'') (\<lambda>code.
     or_text 400 (WalletService_Redeem (mustAccountID c) code) (\<lambda>_.
     ok_json 200 [(''redeemed'', GBool True)]))"

definition method_json :: "string \<Rightarrow> string \<Rightarrow> string \<Rightarrow> gval" where
  "method_json i name provider = GObj [(''id'', GStr i), (''name'', GStr name), (''provider'', GStr provider)]"

definition WalletHandler_TopupInfo :: "checkouts \<Rightarrow> handler" where
  "WalletHandler_TopupInfo h c = ok_json 200 [(''payment_methods'', GList (
     (if co_epay h \<noteq> None then
        [method_json ''epay_alipay'' (utf8_text [230, 148, 175, 228, 187, 152, 229, 174, 157]) ''epay'',
         method_json ''epay_wxpay'' (utf8_text [229, 190, 174, 228, 191, 161, 230, 148, 175, 228, 187, 152]) ''epay''] else []) @
     (if co_stripe h \<noteq> None then [method_json ''stripe'' (utf8_text [228, 191, 161, 231, 148, 168, 229, 141, 161] @ '' (Stripe)'') ''stripe''] else []) @
     (if co_creem h \<noteq> None then [method_json ''creem'' ''Creem'' ''creem''] else [])))]"

definition topup_request :: "(string \<times> json) list \<Rightarrow> (rat \<times> string \<times> string) option" where
  "topup_request f = (case (req_pos ''amount_cny'' f, req_str ''payment_method'' f, str_field ''return_url'' f) of
     (Some a, Some m, Some u) \<Rightarrow> Some (a, m, u) | _ \<Rightarrow> None)"

text \<open>What both checkouts do with the provider's answer: store the external id, answer the URL.\<close>

definition answer_checkout :: "PaymentOrder \<Rightarrow> string \<times> string \<Rightarrow> response op" where
  "answer_checkout order urls = (case urls of (payURL, externalID) \<Rightarrow>
     bind (if externalID \<noteq> '''' then ignore (WalletService_UpdatePaymentOrder (order\<lparr>ord_ExternalID := externalID\<rparr>)) else ret ()) (\<lambda>_.
     ok_json 201 [(''order_no'', GStr (ord_OrderNo order)), (''pay_url'', GStr payURL)]))"

definition WalletHandler_CreateTopup :: "checkouts \<Rightarrow> handler" where
  "WalletHandler_CreateTopup h c =
     with_body c topup_request (\<lambda>(amountCNY, paymentMethod, url).
     if amountCNY < minTopupCNY then err_json 400 ''amount_cny must be at least 1.00'' else
     if maxTopupCNY < amountCNY then err_json 400 ''amount_cny exceeds maximum allowed per transaction'' else
     if paymentMethod \<notin> set validPaymentMethods then err_json 400 ''unsupported payment method'' else
     or_error 500 ''failed to create payment order'' (WalletService_CreateTopup (mustAccountID c) amountCNY paymentMethod) (\<lambda>order.
     or_error 500 ''payment checkout failed'' (resolveCheckout h order (if url = '''' then ''/topup/result'' else url)) (\<lambda>r. case r of
       Inl pe \<Rightarrow> err_json 400 pe
     | Inr urls \<Rightarrow> answer_checkout order urls)))"

definition WalletHandler_ListOrders :: handler where
  "WalletHandler_ListOrders c = (case page_params c of (page, pageSize) \<Rightarrow>
     or_error 500 ''failed to list orders'' (WalletService_ListOrders (mustAccountID c) page pageSize) (page_json GOrder))"

definition WalletHandler_GetOrder :: handler where
  "WalletHandler_GetOrder c =
     or_error 404 ''order not found'' (WalletService_GetOrderByNo (mustAccountID c) (Param c ''order_no'')) (\<lambda>order.
     ret (JSON 200 (GOrder order)))"

definition adjust_request :: "(string \<times> json) list \<Rightarrow> (rat \<times> string) option" where
  "adjust_request f = (case (req_num ''amount'' f, req_str ''description'' f) of (Some a, Some d) \<Rightarrow> Some (a, d) | _ \<Rightarrow> None)"

definition WalletHandler_AdminAdjustWallet :: handler where
  "WalletHandler_AdminAdjustWallet c =
     with_id c ''id'' ''invalid account id'' (\<lambda>i.
     with_body c adjust_request (\<lambda>(amount, desc).
     or_error 400 ''wallet adjustment failed''
       (if 0 < amount then bind (WalletService_Credit i amount ''admin_credit'' desc ''admin'' ''admin_adjust'' '''') (\<lambda>_. ret ())
        else if amount < 0 then bind (WalletService_Debit i (- amount) ''admin_debit'' desc ''admin'' ''admin_adjust'' '''') (\<lambda>_. ret ())
        else ret ()) (\<lambda>_.
     or_error 500 ''adjustment failed'' (WalletService_GetWallet i) (\<lambda>wallet. ret (JSON 200 (GWallet wallet))))))"

section \<open>Subscriptions\<close>

definition SubscriptionHandler_ListSubscriptions :: handler where
  "SubscriptionHandler_ListSubscriptions c =
     or_error 500 ''failed to list subscriptions'' (SubscriptionService_ListByAccount (mustAccountID c)) (\<lambda>subs.
     ok_json 200 [(''subscriptions'', GList (map GSub subs))])"

definition SubscriptionHandler_GetSubscription :: handler where
  "SubscriptionHandler_GetSubscription c =
     or_error 500 ''lookup failed'' (SubscriptionService_GetActive (mustAccountID c) (Param c ''product_id'')) (\<lambda>s. case s of
       None \<Rightarrow> err_json 404 ''no active subscription''
     | Some sub \<Rightarrow> ret (JSON 200 (GSub sub)))"

definition checkout_request :: "(string \<times> json) list \<Rightarrow> (string \<times> int \<times> string \<times> string) option" where
  "checkout_request f = (case (req_str ''product_id'' f, req_int ''plan_id'' f, req_str ''payment_method'' f, str_field ''return_url'' f) of
     (Some p, Some i, Some m, Some u) \<Rightarrow> Some (p, i, m, u) | _ \<Rightarrow> None)"

text \<open>Two Chinese words around the product.\<close>

definition subscribe_desc :: "string \<Rightarrow> string" where
  "subscribe_desc productID = utf8_text [232, 174, 162, 233, 152, 133] @ '' '' @ productID @ '' '' @ utf8_text [229, 165, 151, 233, 164, 144]"

definition wallet_checkout :: "int \<Rightarrow> string \<Rightarrow> int \<Rightarrow> string \<Rightarrow> response op" where
  "wallet_checkout accountID productID planID paymentMethod =
     or_missing 400 ''plan not found'' (ProductService_GetPlanByID planID) (\<lambda>plan.
     or_text 402
       (if 0 < plan_PriceCNY plan
        then bind (WalletService_Debit accountID (plan_PriceCNY plan) TxTypeSubscription (subscribe_desc productID)
               ''subscription'' '''' productID) (\<lambda>_. ret ())
        else ret ()) (\<lambda>_.
     attempt (SubscriptionService_Activate accountID productID planID paymentMethod '''') (\<lambda>r. case r of
       Inl e \<Rightarrow>
         bind (if 0 < plan_PriceCNY plan
               then ignore (WalletService_Credit accountID (plan_PriceCNY plan) ''subscription_payment_refund''
                 ''Subscription activation failed, auto-refund'' ''subscription'' '''' productID)
               else ret ()) (\<lambda>_.
         err_json 400 (err_text e))
     | Inr sub \<Rightarrow> ok_json 201 [(''subscription'', GSub sub)])))"

definition order_checkout :: "checkouts \<Rightarrow> int \<Rightarrow> string \<Rightarrow> int \<Rightarrow> string \<Rightarrow> string \<Rightarrow> response op" where
  "order_checkout h accountID productID planID paymentMethod returnURL =
     or_missing 400 ''plan not found'' (ProductService_GetPlanByID planID) (\<lambda>plan.
     or_error 500 ''create order failed'' (WalletService_CreateSubscriptionOrder (PaymentOrder0\<lparr>ord_AccountID := accountID,
        ord_OrderType := ''subscription'', ord_ProductID := productID, ord_PlanID := Some planID,
        ord_AmountCNY := plan_PriceCNY plan, ord_Currency := ''CNY'', ord_PaymentMethod := paymentMethod,
        ord_Status := OrderStatusPending\<rparr>)) (\<lambda>order.
     or_text 400 (resolveCheckout h order returnURL) (\<lambda>r. case r of
       Inl pe \<Rightarrow> err_json 400 pe
     | Inr urls \<Rightarrow> answer_checkout order urls)))"

definition SubscriptionHandler_Checkout :: "checkouts \<Rightarrow> handler" where
  "SubscriptionHandler_Checkout h c =
     with_body c checkout_request (\<lambda>(productID, planID, paymentMethod, url).
     if paymentMethod = ''wallet'' then wallet_checkout (mustAccountID c) productID planID paymentMethod
     else order_checkout h (mustAccountID c) productID planID paymentMethod (if url = '''' then ''/subscriptions'' else url))"

definition SubscriptionHandler_CancelSubscription :: handler where
  "SubscriptionHandler_CancelSubscription c =
     or_text 400 (SubscriptionService_Cancel (mustAccountID c) (Param c ''product_id'')) (\<lambda>_.
     ok_json 200 [(''cancelled'', GBool True)])"

section \<open>Refunds\<close>

definition refund_request :: "(string \<times> json) list \<Rightarrow> (string \<times> string) option" where
  "refund_request f = (case (req_str ''order_no'' f, req_str ''reason'' f) of (Some n, Some r) \<Rightarrow> Some (n, r) | _ \<Rightarrow> None)"

definition RefundHandler_RequestRefund :: handler where
  "RefundHandler_RequestRefund c =
     with_body c refund_request (\<lambda>(orderNo, reason).
     or_text 400 (RefundService_RequestRefund (mustAccountID c) orderNo reason) (\<lambda>r. ret (JSON 201 (GRefund r))))"

definition RefundHandler_ListRefunds :: handler where
  "RefundHandler_ListRefunds c = (case mustPageParams c of (page, pageSize) \<Rightarrow>
     or_error 500 ''failed to list refunds'' (RefundService_ListByAccount (mustAccountID c) page pageSize) (page_json GRefund))"

definition RefundHandler_GetRefund :: handler where
  "RefundHandler_GetRefund c =
     or_error 404 ''refund not found'' (RefundService_GetByNo (mustAccountID c) (Param c ''refund_no'')) (\<lambda>r. ret (JSON 200 (GRefund r)))"

definition review_request :: "(string \<times> json) list \<Rightarrow> (string \<times> string) option" where
  "review_request f = (case (req_str ''reviewer_id'' f, str_field ''review_note'' f) of (Some i, Some n) \<Rightarrow> Some (i, n) | _ \<Rightarrow> None)"

definition RefundHandler_AdminApprove :: handler where
  "RefundHandler_AdminApprove c =
     with_body c review_request (\<lambda>(reviewerID, reviewNote).
     or_text 400 (RefundService_Approve (Param c ''refund_no'') reviewerID reviewNote) (\<lambda>_. ok_json 200 [(''approved'', GBool True)]))"

definition RefundHandler_AdminReject :: handler where
  "RefundHandler_AdminReject c =
     with_body c review_request (\<lambda>(reviewerID, reviewNote).
     or_text 400 (RefundService_Reject (Param c ''refund_no'') reviewerID reviewNote) (\<lambda>_. ok_json 200 [(''rejected'', GBool True)]))"

section \<open>Invoices\<close>

definition InvoiceHandler_GenerateInvoice :: handler where
  "InvoiceHandler_GenerateInvoice c =
     with_body c (req_str ''order_no'') (\<lambda>orderNo.
     or_text 400 (InvoiceService_Generate (mustAccountID c) orderNo) (\<lambda>iv. ret (JSON 200 (GInvoice iv))))"

definition InvoiceHandler_ListInvoices :: handler where
  "InvoiceHandler_ListInvoices c = (case mustPageParams c of (page, pageSize) \<Rightarrow>
     or_error 500 ''failed to list invoices'' (InvoiceService_ListByAccount (mustAccountID c) page pageSize) (page_json GInvoice))"

definition InvoiceHandler_GetInvoice :: handler where
  "InvoiceHandler_GetInvoice c =
     or_error 404 ''invoice not found'' (InvoiceService_GetByNo (mustAccountID c) (Param c ''invoice_no'')) (\<lambda>iv. ret (JSON 200 (GInvoice iv)))"

definition InvoiceHandler_AdminList :: handler where
  "InvoiceHandler_AdminList c =
     (let list_for = (\<lambda>i. case mustPageParams c of (page, pageSize) \<Rightarrow>
            or_error 500 ''failed to list invoices'' (InvoiceService_AdminList i page pageSize) (page_json GInvoice)) in
      if Query c ''account_id'' = '''' then list_for 0 else
      case atoi (Query c ''account_id'') of None \<Rightarrow> err_json 400 ''invalid account_id'' | Some i \<Rightarrow> list_for i)"

section \<open>Check-ins\<close>

definition status_json :: "CheckinStatus \<Rightarrow> gval" where
  "status_json s = GObj [(''checked_in_today'', GBool (cst_CheckedInToday s)), (''consecutive_days'', GInt (cst_ConsecutiveDays s)),
     (''month_checkins'', GList (map GCheckin (cst_MonthCheckins s)))]"

definition result_json :: "CheckinResult \<Rightarrow> gval" where
  "result_json r = GObj [(''reward_value'', GNum (crs_RewardValue r)), (''reward_type'', GStr (crs_RewardType r)),
     (''consecutive_days'', GInt (crs_ConsecutiveDays r)), (''wallet_balance'', GNum (crs_WalletBalance r))]"

definition CheckinHandler_GetStatus :: handler where
  "CheckinHandler_GetStatus c =
     or_error 500 ''failed to get checkin status'' (CheckinService_GetStatus (mustAccountID c)) (\<lambda>s. ret (JSON 200 (status_json s)))"

definition CheckinHandler_DoCheckin :: handler where
  "CheckinHandler_DoCheckin c =
     attempt (CheckinService_DoCheckin (mustAccountID c)) (\<lambda>r. case r of
       Inl e \<Rightarrow> if contains (err_text e) ''already checked in'' then err_json 409 ''already checked in today''
                else err_json 500 ''checkin failed''
     | Inr result \<Rightarrow> ret (JSON 200 (result_json result)))"

section \<open>Products\<close>

definition ProductHandler_ListProducts :: handler where
  "ProductHandler_ListProducts c =
     or_error 500 ''failed to list products'' ProductService_ListActive (\<lambda>ps. ok_json 200 [(''products'', GList (map GProduct ps))])"

definition ProductHandler_ListPlans :: handler where
  "ProductHandler_ListPlans c =
     or_error 500 ''failed to list plans'' (ProductService_ListPlans (Param c ''id'')) (\<lambda>ps. ok_json 200 [(''plans'', GList (map GPlan ps))])"

section \<open>Accounts\<close>

text \<open>\<^verbatim>\<open>x, _ := m()\<close> of a call that returns a nil pointer or a nil list with its error.\<close>

definition or_null :: "('a \<Rightarrow> gval) \<Rightarrow> 'a op \<Rightarrow> (gval \<Rightarrow> response op) \<Rightarrow> response op" where
  "or_null g m k = attempt m (\<lambda>r. case r of Inl e \<Rightarrow> k GNull | Inr x \<Rightarrow> k (g x))"

definition AccountHandler_GetMe :: handler where
  "AccountHandler_GetMe c =
     or_missing 404 ''account not found'' (AccountService_GetByID (mustAccountID c)) (\<lambda>a.
     or_null GVIP (VIPService_Get (mustAccountID c)) (\<lambda>vipInfo.
     or_null (\<lambda>subs. GList (map GSub subs)) (SubscriptionService_ListByAccount (mustAccountID c)) (\<lambda>subs.
     ok_json 200 [(''account'', GAccount a), (''vip'', vipInfo), (''subscriptions'', subs)])))"

definition profile_request :: "(string \<times> json) list \<Rightarrow> (string \<times> string \<times> string \<times> string) option" where
  "profile_request f = (case (str_field ''display_name'' f, str_field ''avatar_url'' f, str_field ''username'' f, str_field ''locale'' f) of
     (Some d, Some v, Some u, Some l) \<Rightarrow> Some (d, v, u, l) | _ \<Rightarrow> None)"

definition given :: "string \<Rightarrow> string \<Rightarrow> string" where
  "given new old = (if new \<noteq> '''' then new else old)"

definition AccountHandler_UpdateMe :: handler where
  "AccountHandler_UpdateMe c =
     or_missing 404 ''account not found'' (AccountService_GetByID (mustAccountID c)) (\<lambda>a.
     case ShouldBindJSON c profile_request of
       None \<Rightarrow> err_json 400 (''invalid request: '' @ bind_error)
     | Some (displayName, avatarURL, username, locale) \<Rightarrow>
       let a' = a\<lparr>acc_DisplayName := given displayName (acc_DisplayName a), acc_AvatarURL := given avatarURL (acc_AvatarURL a),
          acc_Username := given username (acc_Username a), acc_Locale := given locale (acc_Locale a)\<rparr> in
       or_error 500 ''update failed'' (AccountService_Update a') (\<lambda>_. ret (JSON 200 (GAccount a'))))"

definition AccountHandler_GetServices :: handler where
  "AccountHandler_GetServices c =
     or_error 500 ''failed to list services'' (SubscriptionService_ListByAccount (mustAccountID c)) (\<lambda>subs.
     ok_json 200 [(''services'', GList (map GSub subs))])"

definition AccountHandler_AdminListAccounts :: handler where
  "AccountHandler_AdminListAccounts c = (case page_params c of (page, pageSize) \<Rightarrow>
     or_error 500 ''list failed'' (AccountService_List (Query c ''q'') page pageSize) (\<lambda>(accounts, total).
     ok_json 200 [(''data'', GList (map GAccount accounts)), (''total'', GInt total), (''page'', GInt page), (''page_size'', GInt pageSize)]))"

definition AccountHandler_AdminGetAccount :: handler where
  "AccountHandler_AdminGetAccount c =
     with_id c ''id'' ''invalid account id'' (\<lambda>i.
     or_missing 404 ''account not found'' (AccountService_GetByID i) (\<lambda>a.
     or_null GVIP (VIPService_Get i) (\<lambda>vipInfo.
     or_null (\<lambda>subs. GList (map GSub subs)) (SubscriptionService_ListByAccount i) (\<lambda>subs.
     ok_json 200 [(''account'', GAccount a), (''vip'', vipInfo), (''subscriptions'', subs)]))))"

definition grant_request :: "(string \<times> json) list \<Rightarrow> (string \<times> string \<times> string) option" where
  "grant_request f = (case (req_str ''product_id'' f, req_str ''key'' f, req_str ''value'' f) of
     (Some p, Some k, Some v) \<Rightarrow> Some (p, k, v) | _ \<Rightarrow> None)"

text \<open>The entitlement is built and dropped.\<close>

definition AccountHandler_AdminGrantEntitlement :: handler where
  "AccountHandler_AdminGrantEntitlement c =
     with_id c ''id'' ''invalid account id'' (\<lambda>i.
     or_missing 404 ''account not found'' (AccountService_GetByID i) (\<lambda>a.
     with_body c grant_request (\<lambda>_. ok_json 200 [(''granted'', GBool True)])))"

definition AccountHandler_GetMeReferral :: handler where
  "AccountHandler_GetMeReferral c =
     or_missing 404 ''account not found'' (AccountService_GetByID (mustAccountID c)) (\<lambda>a.
     attempt (ReferralService_GetStats (mustAccountID c)) (\<lambda>r.
     let (totalReferrals, totalRewardedLB) = (case r of Inl e \<Rightarrow> (0, 0) | Inr s \<Rightarrow> s) in
     ok_json 200 [(''aff_code'', GStr (acc_AffCode a)), (''referral_url'', GStr (''https://lurus.cn/r/'' @ acc_AffCode a)),
       (''stats'', GObj [(''total_referrals'', GInt totalReferrals), (''total_rewarded_lb'', GNum totalRewardedLB)])]))"

definition AccountHandler_GetMeOverview :: handler where
  "AccountHandler_GetMeOverview c =
     or_error 500 ''failed to get overview'' (OverviewService_Get (mustAccountID c) (Query c ''product_id'')) (\<lambda>ov.
     ret (JSON 200 (GOverview ov)))"

end
