(* ===== verification/Organizations.thy ===== *)
theory Organizations
  imports Encoding Tables
begin

text \<open>
  \<^verbatim>\<open>adapter/repo/organization.go\<close> and \<^verbatim>\<open>app/organization_service.go\<close>:
  organizations, their members with roles, API keys of which only the hash is stored, and the
  shared wallet. The lemmas show what a key grants, that removing members never removes the
  last owner, and that adding members can.
\<close>

section \<open>Repository\<close>

definition OrganizationRepo_Create :: "Organization \<Rightarrow> Organization op" where
  "OrganizationRepo_Create org = q_insert orgs_T org"

definition OrganizationRepo_GetByID :: "int \<Rightarrow> Organization option op" where
  "OrganizationRepo_GetByID i = opt_row (q_first orgs_T (\<lambda>o1. org_ID o1 = i))"

definition OrganizationRepo_GetBySlug :: "string \<Rightarrow> Organization option op" where
  "OrganizationRepo_GetBySlug slug = opt_row (q_first orgs_T (\<lambda>o1. org_Slug o1 = slug))"

text \<open>The join with the members table, one row per membership.\<close>

definition OrganizationRepo_ListByAccountID :: "int \<Rightarrow> Organization list op" where
  "OrganizationRepo_ListByAccountID accountID = sql (\<lambda>w. (Inr (rev (sort_key org_ID
     (concat (map (\<lambda>o1. map (\<lambda>_. o1) (filter (\<lambda>m. mem_OrgID m = org_ID o1 \<and> mem_AccountID m = accountID) (members w))) (orgs w))))), w))"

definition OrganizationRepo_UpdateStatus :: "int \<Rightarrow> string \<Rightarrow> unit op" where
  "OrganizationRepo_UpdateStatus i status =
     bind (q_update orgs_T (\<lambda>o1. org_ID o1 = i) (\<lambda>o1. o1\<lparr>org_Status := status\<rparr>)) (\<lambda>_. ret ())"

text \<open>\<^verbatim>\<open>Limit(-1)\<close> means no limit, a negative offset no offset.\<close>

definition OrganizationRepo_ListAll :: "int \<Rightarrow> int \<Rightarrow> Organization list op" where
  "OrganizationRepo_ListAll limit offset = bind (q_find orgs_T (\<lambda>_. True)) (\<lambda>l.
     let xs = drop (nat offset) (rev (sort_key org_ID l)) in ret (if limit < 0 then xs else take (nat limit) xs))"

definition member_key :: "OrgMember \<Rightarrow> int \<times> int" where
  "member_key m = (mem_OrgID m, mem_AccountID m)"

text \<open>GORM drops a zero field of a struct condition and of a struct assignment.\<close>

definition member_cond :: "OrgMember \<Rightarrow> OrgMember \<Rightarrow> bool" where
  "member_cond m x \<longleftrightarrow> (mem_OrgID m = 0 \<or> mem_OrgID x = mem_OrgID m)
     \<and> (mem_AccountID m = 0 \<or> mem_AccountID x = mem_AccountID m)"

definition OrganizationRepo_AddMember :: "OrgMember \<Rightarrow> unit op" where
  "OrganizationRepo_AddMember m = q_assign_or_create members_T (member_cond m) member_key
     (\<lambda>x. if mem_Role m = '''' then x else x\<lparr>mem_Role := mem_Role m\<rparr>) m"

definition OrganizationRepo_RemoveMember :: "int \<Rightarrow> int \<Rightarrow> unit op" where
  "OrganizationRepo_RemoveMember orgID accountID =
     bind (q_delete members_T (\<lambda>m. mem_OrgID m = orgID \<and> mem_AccountID m = accountID)) (\<lambda>_. ret ())"

definition OrganizationRepo_GetMember :: "int \<Rightarrow> int \<Rightarrow> OrgMember option op" where
  "OrganizationRepo_GetMember orgID accountID =
     opt_row (q_first members_T (\<lambda>m. mem_OrgID m = orgID \<and> mem_AccountID m = accountID))"

definition OrganizationRepo_ListMembers :: "int \<Rightarrow> OrgMember list op" where
  "OrganizationRepo_ListMembers orgID = q_find members_T (\<lambda>m. mem_OrgID m = orgID)"

definition OrganizationRepo_CreateAPIKey :: "OrgAPIKey \<Rightarrow> OrgAPIKey op" where
  "OrganizationRepo_CreateAPIKey k = q_insert api_keys_T k"

definition OrganizationRepo_GetAPIKeyByHash :: "string \<Rightarrow> OrgAPIKey option op" where
  "OrganizationRepo_GetAPIKeyByHash h = opt_row (q_first api_keys_T (\<lambda>k. key_KeyHash k = h))"

definition OrganizationRepo_ListAPIKeys :: "int \<Rightarrow> OrgAPIKey list op" where
  "OrganizationRepo_ListAPIKeys orgID =
     bind (q_find api_keys_T (\<lambda>k. key_OrgID k = orgID)) (\<lambda>l. ret (rev (sort_key key_ID l)))"

definition OrganizationRepo_RevokeAPIKey :: "int \<Rightarrow> unit op" where
  "OrganizationRepo_RevokeAPIKey i =
     bind (q_update api_keys_T (\<lambda>k. key_ID k = i) (\<lambda>k. k\<lparr>key_Status := ''revoked''\<rparr>)) (\<lambda>_. ret ())"

definition OrganizationRepo_TouchAPIKey :: "int \<Rightarrow> unit op" where
  "OrganizationRepo_TouchAPIKey i = bind now (\<lambda>n.
     bind (q_update api_keys_T (\<lambda>k. key_ID k = i) (\<lambda>k. k\<lparr>key_LastUsedAt := Some n\<rparr>)) (\<lambda>_. ret ()))"

definition OrganizationRepo_GetOrCreateWallet :: "int \<Rightarrow> OrgWallet op" where
  "OrganizationRepo_GetOrCreateWallet orgID =
     q_first_or_create org_wallets_T (\<lambda>x. orgID = 0 \<or> owl_OrgID x = orgID) (OrgWallet0\<lparr>owl_OrgID := orgID\<rparr>)"

section \<open>Service\<close>

text \<open>\<^verbatim>\<open>^[a-z0-9-]{3,32}$\<close>\<close>

definition slugRegexp :: "string \<Rightarrow> bool" where
  "slugRegexp s \<longleftrightarrow> 3 \<le> length s \<and> length s \<le> 32 \<and> list_all (\<lambda>c. let n = (of_char c :: nat) in
     97 \<le> n \<and> n \<le> 122 \<or> 48 \<le> n \<and> n \<le> 57 \<or> n = 45) s"

definition manages :: "OrgMember option \<Rightarrow> bool" where
  "manages caller = (case caller of None \<Rightarrow> False | Some m \<Rightarrow> mem_Role m = ''owner'' \<or> mem_Role m = ''admin'')"

definition OrganizationService_Create :: "string \<Rightarrow> string \<Rightarrow> int \<Rightarrow> Organization op" where
  "OrganizationService_Create name slug ownerID =
     (if \<not> slugRegexp slug
      then fail (EMsg (''invalid slug: must match ^[a-z0-9-]{3,32}$ (got '' @ go_quote slug @ '')'')) else
      bind (wrap ''create org'' (OrganizationRepo_Create (Organization0\<lparr>org_Name := name, org_Slug := slug,
         org_OwnerAccountID := ownerID, org_Status := ''active'', org_Plan := ''free''\<rparr>))) (\<lambda>org.
      bind (wrap ''add owner member'' (OrganizationRepo_AddMember (OrgMember0\<lparr>mem_OrgID := org_ID org,
         mem_AccountID := ownerID, mem_Role := ''owner''\<rparr>))) (\<lambda>_.
      bind (wrap ''create org wallet'' (OrganizationRepo_GetOrCreateWallet (org_ID org))) (\<lambda>_.
      ret org))))"

definition OrganizationService_Get :: "int \<Rightarrow> int \<Rightarrow> Organization option op" where
  "OrganizationService_Get i callerID =
     bind (wrap ''get membership'' (OrganizationRepo_GetMember i callerID)) (\<lambda>m. case m of
       None \<Rightarrow> fail (EMsg ''permission denied: not a member of this organization'')
     | Some _ \<Rightarrow> OrganizationRepo_GetByID i)"

definition OrganizationService_ListMine :: "int \<Rightarrow> Organization list op" where
  "OrganizationService_ListMine accountID = OrganizationRepo_ListByAccountID accountID"

definition OrganizationService_AddMember :: "int \<Rightarrow> int \<Rightarrow> int \<Rightarrow> string \<Rightarrow> unit op" where
  "OrganizationService_AddMember orgID callerID targetAccountID role =
     bind (wrap ''get caller membership'' (OrganizationRepo_GetMember orgID callerID)) (\<lambda>caller.
     if \<not> manages caller then fail (EMsg ''permission denied: must be owner or admin to add members'') else
     OrganizationRepo_AddMember (OrgMember0\<lparr>mem_OrgID := orgID, mem_AccountID := targetAccountID, mem_Role := role\<rparr>))"

definition OrganizationService_RemoveMember :: "int \<Rightarrow> int \<Rightarrow> int \<Rightarrow> unit op" where
  "OrganizationService_RemoveMember orgID callerID targetAccountID =
     bind (wrap ''get caller membership'' (OrganizationRepo_GetMember orgID callerID)) (\<lambda>caller.
     if \<not> manages caller then fail (EMsg ''permission denied: must be owner or admin to remove members'') else
     bind (wrap ''get target membership'' (OrganizationRepo_GetMember orgID targetAccountID)) (\<lambda>target. case target of
       None \<Rightarrow> fail (EMsg ''member not found'')
     | Some t \<Rightarrow>
       if mem_Role t = ''owner'' then
         bind (wrap ''list members'' (OrganizationRepo_ListMembers orgID)) (\<lambda>ms.
         if length (filter (\<lambda>m. mem_Role m = ''owner'') ms) \<le> 1 then fail (EMsg ''cannot remove the last owner'')
         else OrganizationRepo_RemoveMember orgID targetAccountID)
       else OrganizationRepo_RemoveMember orgID targetAccountID))"

text \<open>32 random bytes; the key is their base64 text, the row stores the hex of its hash.\<close>

definition key_hash :: "string \<Rightarrow> string" where
  "key_hash rawKey = hex_text (sha256 rawKey)"

definition OrganizationService_CreateAPIKey :: "int \<Rightarrow> int \<Rightarrow> string \<Rightarrow> (string \<times> OrgAPIKey) op" where
  "OrganizationService_CreateAPIKey orgID callerID name =
     bind (wrap ''get membership'' (OrganizationRepo_GetMember orgID callerID)) (\<lambda>m. case m of
       None \<Rightarrow> fail (EMsg ''permission denied: not a member of this organization'')
     | Some _ \<Rightarrow>
       bind (wrap ''generate key entropy'' draw) (\<lambda>rawBytes.
       let rawKey = b64_encode rawBytes in
       bind (wrap ''store api key'' (OrganizationRepo_CreateAPIKey (OrgAPIKey0\<lparr>key_OrgID := orgID,
          key_KeyHash := key_hash rawKey, key_KeyPrefix := take 8 rawKey, key_Name := name, key_CreatedBy := callerID,
          key_Status := ''active''\<rparr>))) (\<lambda>key.
       ret (rawKey, key))))"

definition OrganizationService_ListAPIKeys :: "int \<Rightarrow> OrgAPIKey list op" where
  "OrganizationService_ListAPIKeys orgID = OrganizationRepo_ListAPIKeys orgID"

definition OrganizationService_RevokeAPIKey :: "int \<Rightarrow> int \<Rightarrow> int \<Rightarrow> unit op" where
  "OrganizationService_RevokeAPIKey orgID callerID keyID =
     bind (wrap ''get membership'' (OrganizationRepo_GetMember orgID callerID)) (\<lambda>caller.
     if \<not> manages caller then fail (EMsg ''permission denied: must be owner or admin to revoke api keys'') else
     OrganizationRepo_RevokeAPIKey keyID)"

definition OrganizationService_ResolveAPIKey :: "string \<Rightarrow> Organization option op" where
  "OrganizationService_ResolveAPIKey rawKey =
     bind (wrap ''get api key'' (OrganizationRepo_GetAPIKeyByHash (key_hash rawKey))) (\<lambda>k. case k of
       None \<Rightarrow> fail (EMsg ''invalid or revoked api key'')
     | Some key \<Rightarrow>
       if key_Status key \<noteq> ''active'' then fail (EMsg ''invalid or revoked api key'') else
       bind (ignore (OrganizationRepo_TouchAPIKey (key_ID key))) (\<lambda>_.
       OrganizationRepo_GetByID (key_OrgID key)))"

definition OrganizationService_GetWallet :: "int \<Rightarrow> OrgWallet op" where
  "OrganizationService_GetWallet orgID = OrganizationRepo_GetOrCreateWallet orgID"

definition OrganizationService_ListAll :: "int \<Rightarrow> int \<Rightarrow> Organization list op" where
  "OrganizationService_ListAll limit offset = OrganizationRepo_ListAll limit offset"

definition OrganizationService_UpdateStatus :: "int \<Rightarrow> string \<Rightarrow> unit op" where
  "OrganizationService_UpdateStatus i status = OrganizationRepo_UpdateStatus i status"

section \<open>Keys\<close>

lemma org_tables:
  "t_cols members_T = (\<lambda>r. r)" "t_touch members_T = (\<lambda>n r. r)" "t_cols api_keys_T = (\<lambda>r. r)" "t_touch api_keys_T = (\<lambda>n r. r)"
  by (simp_all add: members_T_def api_keys_T_def)

lemma GetMember_ok: "OrganizationRepo_GetMember o1 a w = (Inr m, w') \<longleftrightarrow>
   \<not> faulty w \<and> w' = adv w \<and> m = find (\<lambda>m. mem_OrgID m = o1 \<and> mem_AccountID m = a) (members w)"
  by (auto simp: OrganizationRepo_GetMember_def ok_simps)

lemma GetMember_calm: "faults w = [] \<Longrightarrow> OrganizationRepo_GetMember o1 a w = (Inr (find (\<lambda>m. mem_OrgID m = o1 \<and> mem_AccountID m = a) (members w)), w)"
  by (simp add: OrganizationRepo_GetMember_def calm)


lemma leaves_member_reads [leaves_intros]:
  "stable f \<Longrightarrow> leaves f (OrganizationRepo_GetMember a b)" "stable f \<Longrightarrow> leaves f (OrganizationRepo_ListMembers a)"
  unfolding OrganizationRepo_GetMember_def OrganizationRepo_ListMembers_def by (intro leaves_intros; assumption)+

section \<open>Owners\<close>

definition owners :: "int \<Rightarrow> world \<Rightarrow> OrgMember list" where
  "owners o1 w = filter (\<lambda>m. mem_OrgID m = o1 \<and> mem_Role m = ''owner'') (members w)"

lemma RemoveMember_intact: "intact members (OrganizationService_RemoveMember o1 c a)"
  unfolding OrganizationService_RemoveMember_def OrganizationRepo_RemoveMember_def
  by (intro intact_bind intact_intros leaves_intros stable_tables)

lemma RemoveMember_members:
  assumes "OrganizationService_RemoveMember o1 c a w = (r, w')"
  shows "members w' = members w \<or> (\<exists>t. find (\<lambda>m. mem_OrgID m = o1 \<and> mem_AccountID m = a) (members w) = Some t
     \<and> (mem_Role t = ''owner'' \<longrightarrow> 1 < length (owners o1 w))
     \<and> members w' = filter (\<lambda>m. \<not> (mem_OrgID m = o1 \<and> mem_AccountID m = a)) (members w))"
proof (cases r)
  case (Inr u)
  have l: "length (filter (\<lambda>m. mem_Role m = ''owner'') (filter (\<lambda>m. mem_OrgID m = o1) (members w))) = length (owners o1 w)"
    by (simp add: owners_def conj_commute)
  obtain t where t: "find (\<lambda>m. mem_OrgID m = o1 \<and> mem_AccountID m = a) (members w) = Some t"
    and rest: "(if mem_Role t = ''owner'' then
         bind (wrap ''list members'' (OrganizationRepo_ListMembers o1)) (\<lambda>ms.
         if length (filter (\<lambda>m. mem_Role m = ''owner'') ms) \<le> 1 then fail (EMsg ''cannot remove the last owner'')
         else OrganizationRepo_RemoveMember o1 a)
       else OrganizationRepo_RemoveMember o1 a) (adv (adv w)) = (Inr u, w')"
    using assms unfolding Inr OrganizationService_RemoveMember_def by (simp add: ok_simps GetMember_ok) blast
  have rm: "members v' = filter (\<lambda>m. \<not> (mem_OrgID m = o1 \<and> mem_AccountID m = a)) (members v)"
    if "OrganizationRepo_RemoveMember o1 a v = (Inr x, v')" for v x v'
    using that by (simp add: OrganizationRepo_RemoveMember_def ok_simps)
  show ?thesis
  proof (cases "mem_Role t = ''owner''")
    case True
    then have "OrganizationRepo_RemoveMember o1 a (adv (adv (adv w))) = (Inr u, w')" "1 < length (owners o1 w)"
      using rest l by (simp_all add: ok_simps OrganizationRepo_ListMembers_def)
    then show ?thesis using rm t by auto
  next
    case False
    then show ?thesis using rest rm t by auto
  qed
next
  case (Inl e)
  then show ?thesis using intactD [OF RemoveMember_intact] assms by metis
qed

text \<open>C30: Removing members keeps an owner. In a table with one row per organization and account, if an
  organization has an owner before a removal it has one afterwards, whoever asks, whichever
  statements fail and whether or not the removal succeeds.\<close>

theorem removal_keeps_an_owner:
  assumes "uniq_by member_key (members w)" and "owners o1 w \<noteq> []" and "OrganizationService_RemoveMember o2 c a w = (r, w')"
  shows "owners o1 w' \<noteq> []"
  using RemoveMember_members [OF assms(3)]
proof (elim disjE exE conjE)
  assume "members w' = members w"
  then show ?thesis using assms(2) by (simp add: owners_def)
next
  fix t assume t: "find (\<lambda>m. mem_OrgID m = o2 \<and> mem_AccountID m = a) (members w) = Some t"
    and many: "mem_Role t = ''owner'' \<longrightarrow> 1 < length (owners o2 w)"
    and m: "members w' = filter (\<lambda>m. \<not> (mem_OrgID m = o2 \<and> mem_AccountID m = a)) (members w)"
  have tm: "t \<in> set (members w)" "mem_OrgID t = o2" "mem_AccountID t = a" using find_SomeD [OF t] by auto
  have only: "x = t" if "x \<in> set (members w)" "mem_OrgID x = o2" "mem_AccountID x = a" for x
    using uniq_by_eq [OF assms(1) that(1) tm(1)] that(2,3) tm(2,3) by (simp add: member_key_def)
  have "\<exists>x\<in>set (owners o1 w). x \<noteq> t"
  proof (cases "o1 = o2 \<and> mem_Role t = ''owner''")
    case True
    have "distinct (owners o2 w)" using assms(1) by (simp add: owners_def uniq_by_def distinct_map)
    then have "\<not> set (owners o2 w) \<subseteq> {t}" using many True
      by (metis card_mono distinct_card finite.emptyI finite.insertI is_singletonI is_singleton_altdef not_less)
    then show ?thesis using True by auto
  next
    case False
    then have "t \<notin> set (owners o1 w)" using tm(2) by (auto simp: owners_def)
    then show ?thesis using assms(2) by (metis hd_in_set)
  qed
  then obtain x where "x \<in> set (owners o1 w)" "x \<noteq> t" by blast
  then have "x \<in> set (owners o1 w')" using only m by (auto simp: owners_def)
  then show ?thesis by auto
qed

text \<open>Adding members can take the last owner away. The guard of \<open>RemoveMember\<close> is not repeated
  in \<open>AddMember\<close>, which overwrites the role of a member it finds: an administrator can turn the
  only owner of an organization into a plain member, and the organization has no owner left.\<close>

theorem last_owner_demoted:
  assumes "faults w = []" and "owners o1 w = [t]" and "uniq_by member_key (members w)" and "o1 \<noteq> 0" and "mem_AccountID t \<noteq> 0"
    and "find (\<lambda>m. mem_OrgID m = o1 \<and> mem_AccountID m = c) (members w) = Some boss" and "mem_Role boss = ''admin''"
  shows "\<exists>w'. OrganizationService_AddMember o1 c (mem_AccountID t) ''member'' w = (Inr (), w') \<and> owners o1 w' = []"
proof -
  have t: "t \<in> set (members w)" "mem_OrgID t = o1" "mem_Role t = ''owner''"
    using assms(2) by (auto simp: owners_def filter_eq_Cons_iff)
  let ?m = "OrgMember0\<lparr>mem_OrgID := o1, mem_AccountID := mem_AccountID t, mem_Role := ''member''\<rparr>"
  let ?f = "\<lambda>x. if mem_Role ?m = [] then x else x\<lparr>mem_Role := mem_Role ?m\<rparr>"
  have cond: "member_cond ?m x \<longleftrightarrow> member_key x = member_key t" for x
    using assms(4,5) t(2) by (auto simp: member_cond_def member_key_def)
  have f: "find (member_cond ?m) (members w) = Some t"
    using uniq_by_find [OF assms(3) t(1) refl] unfolding cond [abs_def] .
  let ?w' = "members_update (upd_rows (\<lambda>y. member_cond ?m y \<and> member_key y = member_key t) ?f) w"
  have "OrganizationService_AddMember o1 c (mem_AccountID t) ''member'' w = (Inr (), ?w')"
    using assms(1,6,7) f
    by (simp add: OrganizationService_AddMember_def OrganizationRepo_AddMember_def q_assign_or_create_def calm GetMember_calm
        manages_def org_tables)
  moreover have "x = t" if "x \<in> set (members w)" "mem_OrgID x = o1" "mem_Role x = ''owner''" for x
  proof -
    have "x \<in> set (owners o1 w)" using that by (simp add: owners_def)
    then show ?thesis using assms(2) by simp
  qed
  then have "owners o1 ?w' = []" using cond by (auto simp: owners_def filter_empty_conv set_upd_rows)
  ultimately show ?thesis by blast
qed

definition demo_org :: world where
  "demo_org = world0\<lparr>orgs := [Organization0\<lparr>org_ID := 1, org_Slug := ''acme'', org_OwnerAccountID := 7\<rparr>],
     members := [OrgMember0\<lparr>mem_OrgID := 1, mem_AccountID := 7, mem_Role := ''owner''\<rparr>,
                 OrgMember0\<lparr>mem_OrgID := 1, mem_AccountID := 8, mem_Role := ''admin''\<rparr>],
     entropy := [''0123456789abcdef0123456789abcdef'']\<rparr>"

lemma demo_org_fields:
  "faults demo_org = []" "entropy demo_org = [''0123456789abcdef0123456789abcdef'']" "api_keys demo_org = []"
  "seqs demo_org s = 1" "uniq_by member_key (members demo_org)"
  "find (\<lambda>m. mem_OrgID m = 1 \<and> mem_AccountID m = 7) (members demo_org) = Some (members demo_org ! 0)"
  "find (\<lambda>m. mem_OrgID m = 1 \<and> mem_AccountID m = 8) (members demo_org) = Some (members demo_org ! 1)"
  "find (\<lambda>x. org_ID x = 1) (orgs demo_org) = Some (orgs demo_org ! 0)"
  "mem_Role (members demo_org ! 0) = ''owner''" "mem_Role (members demo_org ! 1) = ''admin''"
  "owners 1 demo_org = [members demo_org ! 0]" "mem_AccountID (members demo_org ! 0) = 7"
  by (simp_all add: demo_org_def world0_def uniq_by_def member_key_def owners_def)


theorem removal_keeps_an_owner_witness:
  "owners 1 demo_org \<noteq> [] \<and> owners 1 (snd (OrganizationService_RemoveMember 1 8 7 demo_org)) \<noteq> []"
  using removal_keeps_an_owner [OF demo_org_fields(5) _ prod.collapse [symmetric], of 1 1 8 7] demo_org_fields(11) by simp

theorem last_owner_demoted_witness:
  "\<exists>w'. OrganizationService_AddMember 1 8 7 ''member'' demo_org = (Inr (), w') \<and> owners 1 w' = []"
  using last_owner_demoted [OF demo_org_fields(1,11,5) _ _ demo_org_fields(7,10)] demo_org_fields(12) by simp

end
