(* ===== verification/OrgHandlers.thy ===== *)
theory OrgHandlers
  imports Handlers Organizations Entitlements
begin

text \<open>
  The handlers of organizations (\<^verbatim>\<open>handler/organization.go\<close>) and of the internal
  service-to-service API (\<^verbatim>\<open>handler/internal_api.go\<close>).
\<close>

section \<open>Organizations\<close>

definition org_request :: "(string \<times> json) list \<Rightarrow> (string \<times> string) option" where
  "org_request f = (case (req_str ''name'' f, req_str ''slug'' f) of (Some n, Some s) \<Rightarrow> Some (n, s) | _ \<Rightarrow> None)"

definition OrganizationHandler_Create :: handler where
  "OrganizationHandler_Create c =
     with_body c org_request (\<lambda>(name, slug).
     or_text 400 (OrganizationService_Create name slug (mustAccountID c)) (\<lambda>org. ret (JSON 201 (GOrg org))))"

definition OrganizationHandler_ListMine :: handler where
  "OrganizationHandler_ListMine c =
     or_error 500 ''failed to list organizations'' (OrganizationService_ListMine (mustAccountID c)) (\<lambda>orgs.
     ok_json 200 [(''data'', GList (map GOrg orgs))])"

definition with_org :: "request \<Rightarrow> (int \<Rightarrow> response op) \<Rightarrow> response op" where
  "with_org c k = with_id c ''id'' ''invalid organization id'' k"

definition OrganizationHandler_Get :: handler where
  "OrganizationHandler_Get c =
     with_org c (\<lambda>i.
     or_text 403 (OrganizationService_Get i (mustAccountID c)) (\<lambda>o1. case o1 of
       None \<Rightarrow> err_json 404 ''organization not found''
     | Some org \<Rightarrow> ret (JSON 200 (GOrg org))))"

definition member_request :: "(string \<times> json) list \<Rightarrow> (int \<times> string) option" where
  "member_request f = (case (req_int ''account_id'' f, str_field ''role'' f) of (Some i, Some r) \<Rightarrow> Some (i, r) | _ \<Rightarrow> None)"

definition OrganizationHandler_AddMember :: handler where
  "OrganizationHandler_AddMember c =
     with_org c (\<lambda>orgID.
     with_body c member_request (\<lambda>(target, r).
     or_text 403 (OrganizationService_AddMember orgID (mustAccountID c) target (if r = '''' then ''member'' else r)) (\<lambda>_.
     ok_json 200 [(''ok'', GBool True)])))"

definition OrganizationHandler_RemoveMember :: handler where
  "OrganizationHandler_RemoveMember c =
     with_org c (\<lambda>orgID.
     with_id c ''uid'' ''invalid account id'' (\<lambda>targetID.
     or_text 400 (OrganizationService_RemoveMember orgID (mustAccountID c) targetID) (\<lambda>_. ret (Status 204))))"

definition OrganizationHandler_ListAPIKeys :: handler where
  "OrganizationHandler_ListAPIKeys c =
     with_org c (\<lambda>orgID.
     or_error 500 ''failed to list api keys'' (OrganizationService_ListAPIKeys orgID) (\<lambda>keys.
     ok_json 200 [(''data'', GList (map GApiKey keys))]))"

definition OrganizationHandler_CreateAPIKey :: handler where
  "OrganizationHandler_CreateAPIKey c =
     with_org c (\<lambda>orgID.
     with_body c (req_str ''name'') (\<lambda>name.
     or_text 400 (OrganizationService_CreateAPIKey orgID (mustAccountID c) name) (\<lambda>(rawKey, key).
     ok_json 201 [(''raw_key'', GStr rawKey), (''key'', GApiKey key)])))"

definition OrganizationHandler_RevokeAPIKey :: handler where
  "OrganizationHandler_RevokeAPIKey c =
     with_org c (\<lambda>orgID.
     with_id c ''kid'' ''invalid key id'' (\<lambda>keyID.
     or_text 400 (OrganizationService_RevokeAPIKey orgID (mustAccountID c) keyID) (\<lambda>_. ret (Status 204))))"

definition OrganizationHandler_GetWallet :: handler where
  "OrganizationHandler_GetWallet c =
     with_org c (\<lambda>orgID.
     or_error 500 ''failed to get wallet'' (OrganizationService_GetWallet orgID) (\<lambda>wallet. ret (JSON 200 (GOrgWallet wallet))))"

text \<open>A key without its organization is answered with the JSON of a nil pointer.\<close>

definition OrganizationHandler_ResolveAPIKey :: handler where
  "OrganizationHandler_ResolveAPIKey c =
     with_body c (req_str ''raw_key'') (\<lambda>rawKey.
     or_error 401 ''invalid or revoked api key'' (OrganizationService_ResolveAPIKey rawKey) (\<lambda>o1.
     ret (JSON 200 (case o1 of None \<Rightarrow> GNull | Some org \<Rightarrow> GOrg org))))"

definition OrganizationHandler_AdminList :: handler where
  "OrganizationHandler_AdminList c =
     (let l = Atoi_or (DefaultQuery c ''limit'' ''20''); k = Atoi_or (DefaultQuery c ''offset'' ''0'') in
      or_error 500 ''failed to list organizations''
        (OrganizationService_ListAll (if l < 1 \<or> 100 < l then 20 else l) (if k < 0 then 0 else k)) (\<lambda>orgs.
      ok_json 200 [(''data'', GList (map GOrg orgs))]))"

definition OrganizationHandler_AdminUpdateStatus :: handler where
  "OrganizationHandler_AdminUpdateStatus c =
     with_org c (\<lambda>i.
     with_body c (req_str ''status'') (\<lambda>status.
     if status \<noteq> ''active'' \<and> status \<noteq> ''suspended'' then err_json 400 ''status must be active or suspended'' else
     or_text 400 (OrganizationService_UpdateStatus i status) (\<lambda>_. ok_json 200 [(''ok'', GBool True)])))"

section \<open>Internal API\<close>

definition found_account :: "Account option op \<Rightarrow> response op" where
  "found_account m =
     or_error 500 ''lookup failed'' m (\<lambda>a1. case a1 of
       None \<Rightarrow> err_json 404 ''account not found''
     | Some a \<Rightarrow> ret (JSON 200 (GAccount a)))"

definition InternalHandler_GetAccountByZitadelSub :: handler where
  "InternalHandler_GetAccountByZitadelSub c = found_account (AccountService_GetByZitadelSub (Param c ''sub''))"

definition InternalHandler_GetAccountByOAuth :: handler where
  "InternalHandler_GetAccountByOAuth c = found_account (AccountService_GetByOAuthBinding (Param c ''provider'') (Param c ''provider_id''))"

definition InternalHandler_GetAccountByEmail :: handler where
  "InternalHandler_GetAccountByEmail c = found_account (AccountService_GetByEmail (Param c ''email''))"

definition InternalHandler_GetAccountByPhone :: handler where
  "InternalHandler_GetAccountByPhone c = found_account (AccountService_GetByPhone (Param c ''phone''))"

definition upsert_request :: "(string \<times> json) list \<Rightarrow> (string \<times> string \<times> string \<times> string \<times> string) option" where
  "upsert_request f = (case (req_str ''zitadel_sub'' f, req_str ''email'' f, str_field ''display_name'' f, str_field ''avatar_url'' f,
      str_field ''referrer_aff_code'' f) of
     (Some s, Some e, Some d, Some v, Some r) \<Rightarrow> Some (s, e, d, v, r) | _ \<Rightarrow> None)"

text \<open>The account is answered as it is in memory, with the referrer even when storing it failed.\<close>

definition link_referrer :: "string \<Rightarrow> Account \<Rightarrow> Account op" where
  "link_referrer code a =
     (if code = '''' \<or> acc_ReferrerID a \<noteq> None then ret a else
      attempt (AccountService_GetByAffCode code) (\<lambda>r. case r of
        Inr (Some referrer) \<Rightarrow>
          if acc_ID referrer = acc_ID a then ret a else
          let a' = a\<lparr>acc_ReferrerID := Some (acc_ID referrer)\<rparr> in
          attempt (AccountService_Update a') (\<lambda>u. case u of
            Inl e \<Rightarrow> ret a'
          | Inr _ \<Rightarrow> bind (ignore (ReferralService_OnSignup (acc_ID a) (acc_ID referrer))) (\<lambda>_. ret a'))
      | _ \<Rightarrow> ret a))"

definition InternalHandler_UpsertAccount :: handler where
  "InternalHandler_UpsertAccount c =
     with_body c upsert_request (\<lambda>(sub, email, displayName, avatarURL, code).
     or_text 500 (AccountService_UpsertByZitadelSub sub email displayName avatarURL) (\<lambda>a.
     bind (link_referrer code a) (\<lambda>a'. ret (JSON 200 (GAccount a')))))"

text \<open>The service never returns a nil map.\<close>

definition InternalHandler_GetEntitlements :: handler where
  "InternalHandler_GetEntitlements c =
     with_id c ''id'' ''invalid account id'' (\<lambda>i.
     or_error 500 ''failed to get entitlements'' (EntitlementService_Get i (Param c ''product_id'')) (\<lambda>em. ret (JSON 200 (GMap em))))"

definition InternalHandler_GetSubscription :: handler where
  "InternalHandler_GetSubscription c =
     with_id c ''id'' ''invalid account id'' (\<lambda>i.
     or_error 500 ''lookup failed'' (SubscriptionService_GetActive i (Param c ''product_id'')) (\<lambda>s. case s of
       None \<Rightarrow> err_json 404 ''no active subscription''
     | Some sub \<Rightarrow> ret (JSON 200 (GSub sub))))"

definition InternalHandler_GetAccountOverview :: handler where
  "InternalHandler_GetAccountOverview c =
     with_id c ''id'' ''invalid account id'' (\<lambda>i.
     or_error 500 ''failed to get overview'' (OverviewService_Get i (Query c ''product_id'')) (\<lambda>ov. ret (JSON 200 (GOverview ov))))"

definition usage_request :: "(string \<times> json) list \<Rightarrow> (int \<times> rat) option" where
  "usage_request f = (case (req_int ''account_id'' f, req_num ''amount_cny'' f) of (Some i, Some a) \<Rightarrow> Some (i, a) | _ \<Rightarrow> None)"

definition InternalHandler_ReportUsage :: handler where
  "InternalHandler_ReportUsage c =
     with_body c usage_request (\<lambda>(i, amount).
     bind (ignore (VIPService_RecalculateFromWallet i)) (\<lambda>_. ok_json 200 [(''accepted'', GBool True)]))"

definition movement_request :: "(string \<times> json) list \<Rightarrow> (rat \<times> string \<times> string \<times> string) option" where
  "movement_request f = (case (req_pos ''amount'' f, req_str ''type'' f, str_field ''product_id'' f, str_field ''description'' f) of
     (Some a, Some t, Some p, Some d) \<Rightarrow> Some (a, t, p, d) | _ \<Rightarrow> None)"

definition InternalHandler_DebitWallet :: handler where
  "InternalHandler_DebitWallet c =
     with_id c ''id'' ''invalid account id'' (\<lambda>i.
     with_body c movement_request (\<lambda>(amount, ty, productID, desc).
     or_error 400 ''insufficient_balance'' (WalletService_Debit i amount ty desc ''internal_debit'' '''' productID) (\<lambda>tx.
     ok_json 200 [(''success'', GBool True), (''balance_after'', GNum (tx_BalanceAfter tx))])))"

definition InternalHandler_CreditWallet :: handler where
  "InternalHandler_CreditWallet c =
     with_id c ''id'' ''invalid account id'' (\<lambda>i.
     with_body c movement_request (\<lambda>(amount, ty, productID, desc).
     or_error 500 ''credit failed'' (WalletService_Credit i amount ty desc ''internal_credit'' '''' productID) (\<lambda>tx.
     ok_json 200 [(''success'', GBool True), (''balance_after'', GNum (tx_BalanceAfter tx))])))"

text \<open>A missing wallet is a nil pointer.\<close>

definition InternalHandler_GetWalletBalance :: handler where
  "InternalHandler_GetWalletBalance c =
     with_id c ''id'' ''invalid account id'' (\<lambda>i.
     or_error 500 ''balance lookup failed'' (WalletService_GetBalance i) (\<lambda>w1. case w1 of
       None \<Rightarrow> recovered
     | Some wal \<Rightarrow> ok_json 200 [(''balance'', GNum (wal_Balance wal)), (''frozen'', GNum (wal_Frozen wal))]))"

definition InternalHandler_ValidateSession :: "string \<Rightarrow> handler" where
  "InternalHandler_ValidateSession sessionSecret c =
     with_body c (req_str ''token'') (\<lambda>token.
     if sessionSecret = '''' then err_json 503 ''session validation not configured'' else
     or_error 401 ''invalid session token'' (ValidateSessionToken token sessionSecret) (\<lambda>accountID.
     or_missing 404 ''account not found'' (AccountService_GetByID accountID) (\<lambda>a. ret (JSON 200 (GAccount a)))))"

end
