(* ===== verification/AdminConfig.thy ===== *)
theory AdminConfig
  imports Tables Calendar
begin

text \<open>
  \<^verbatim>\<open>internal/pkg/config/config.go\<close>, \<^verbatim>\<open>adapter/repo/admin_settings.go\<close> and
  \<^verbatim>\<open>app/admin_config_service.go\<close>: the configuration read from the environment and the
  settings that overlay it at run time. The in-memory \<^verbatim>\<open>sync.Map\<close> of the service is
  \<open>cfg_cache\<close>. The lemmas show what a reader of a setting sees after it was written.
\<close>

section \<open>Environment\<close>

record Settings =
  cfg_Port :: int
  cfg_GRPCPort :: int
  cfg_Env :: string
  cfg_DatabaseDSN :: string
  cfg_RedisAddr :: string
  cfg_RedisPassword :: string
  cfg_RedisDB :: int
  cfg_NATSAddr :: string
  cfg_ZitadelIssuer :: string
  cfg_ZitadelAudience :: string
  cfg_ZitadelJWKSURL :: string
  cfg_ZitadelAdminRole :: string
  cfg_InternalAPIKey :: string
  cfg_RateLimitIPPerMinute :: int
  cfg_RateLimitUserPerMinute :: int
  cfg_GracePeriodDays :: int
  cfg_StripeSecretKey :: string
  cfg_StripeWebhookSecret :: string
  cfg_StripeReturnURL :: string
  cfg_EpayPartnerID :: string
  cfg_EpayKey :: string
  cfg_EpayGatewayURL :: string
  cfg_EpayNotifyURL :: string
  cfg_EpayReturnURL :: string
  cfg_CreemAPIKey :: string
  cfg_CreemWebhookSecret :: string
  cfg_CreemReturnURL :: string
  cfg_EmailSMTPHost :: string
  cfg_EmailSMTPPort :: int
  cfg_EmailSMTPUser :: string
  cfg_EmailSMTPPass :: string
  cfg_EmailFrom :: string
  cfg_WechatServerAddress :: string
  cfg_WechatServerToken :: string
  cfg_ZitadelServiceAccountPAT :: string
  cfg_WechatOAuthClientSecret :: string
  cfg_SessionSecret :: string
  cfg_ShutdownTimeout :: time
  cfg_CacheEntitlementTTL :: time
  cfg_NewAPIInternalURL :: string
  cfg_NewAPIAdminAccessToken :: string
  cfg_NewAPIAdminUserID :: string
  cfg_SMSProvider :: string
  cfg_OtelEndpoint :: string
  cfg_OtelServiceName :: string

text \<open>\<^verbatim>\<open>os.Getenv\<close>: the empty text when a variable is not set. A panic is \<open>None\<close>.\<close>

type_synonym env = "string \<Rightarrow> string"

definition requireEnv :: "env \<Rightarrow> string \<Rightarrow> string option" where
  "requireEnv e key = (if e key = '''' then None else Some (e key))"

definition getEnv :: "env \<Rightarrow> string \<Rightarrow> string \<Rightarrow> string" where
  "getEnv e key defaultVal = (if e key \<noteq> '''' then e key else defaultVal)"

definition parseInt :: "env \<Rightarrow> string \<Rightarrow> int \<Rightarrow> int" where
  "parseInt e key defaultVal = (if e key = '''' then defaultVal else
     case atoi (e key) of None \<Rightarrow> defaultVal | Some v \<Rightarrow> v)"

text \<open>
  \<^verbatim>\<open>time.ParseDuration\<close> on the texts with one unit and no fraction, such as
  \<^verbatim>\<open>30s\<close> or \<^verbatim>\<open>5m\<close>; other texts are errors of the model.
\<close>

definition duration_unit :: "string \<Rightarrow> time option" where
  "duration_unit u = (if u = ''ns'' then Some 1 else if u = ''us'' then Some 1000 else if u = ''ms'' then Some 1000000
     else if u = ''s'' then Some second_ns else if u = ''m'' then Some minute_ns else if u = ''h'' then Some hour_ns else None)"

definition ParseDuration :: "string \<Rightarrow> time option" where
  "ParseDuration s = (let d = takeWhile is_digit s in
     if s = ''0'' then Some 0 else if d = [] then None else
     map_option (\<lambda>u. digits_val d * u) (duration_unit (dropWhile is_digit s)))"

definition parseDuration :: "env \<Rightarrow> string \<Rightarrow> time \<Rightarrow> time" where
  "parseDuration e key defaultVal = (if e key = '''' then defaultVal else
     case ParseDuration (e key) of None \<Rightarrow> defaultVal | Some d \<Rightarrow> d)"

definition Load :: "env \<Rightarrow> Settings option" where
  "Load e = (case (requireEnv e ''DATABASE_DSN'', requireEnv e ''ZITADEL_ISSUER'',
                   requireEnv e ''ZITADEL_JWKS_URL'', requireEnv e ''INTERNAL_API_KEY'') of
     (Some dsn, Some issuer, Some jwks, Some ikey) \<Rightarrow> Some \<lparr>
       cfg_Port = parseInt e ''PORT'' 18104, cfg_GRPCPort = parseInt e ''GRPC_PORT'' 18105,
       cfg_Env = getEnv e ''ENV'' ''production'', cfg_DatabaseDSN = dsn,
       cfg_RedisAddr = getEnv e ''REDIS_ADDR'' ''redis.messaging.svc:6379'',
       cfg_RedisPassword = getEnv e ''REDIS_PASSWORD'' '''', cfg_RedisDB = parseInt e ''REDIS_DB'' 3,
       cfg_NATSAddr = getEnv e ''NATS_ADDR'' ''nats://nats.messaging.svc:4222'',
       cfg_ZitadelIssuer = issuer, cfg_ZitadelAudience = getEnv e ''ZITADEL_AUDIENCE'' '''',
       cfg_ZitadelJWKSURL = jwks, cfg_ZitadelAdminRole = getEnv e ''ZITADEL_ADMIN_ROLE'' ''admin'',
       cfg_InternalAPIKey = ikey,
       cfg_RateLimitIPPerMinute = parseInt e ''RATE_LIMIT_IP_PER_MINUTE'' 120,
       cfg_RateLimitUserPerMinute = parseInt e ''RATE_LIMIT_USER_PER_MINUTE'' 300,
       cfg_GracePeriodDays = parseInt e ''GRACE_PERIOD_DAYS'' 3,
       cfg_StripeSecretKey = getEnv e ''STRIPE_SECRET_KEY'' '''',
       cfg_StripeWebhookSecret = getEnv e ''STRIPE_WEBHOOK_SECRET'' '''',
       cfg_StripeReturnURL = getEnv e ''STRIPE_RETURN_URL'' '''',
       cfg_EpayPartnerID = getEnv e ''EPAY_PARTNER_ID'' '''', cfg_EpayKey = getEnv e ''EPAY_KEY'' '''',
       cfg_EpayGatewayURL = getEnv e ''EPAY_GATEWAY_URL'' '''', cfg_EpayNotifyURL = getEnv e ''EPAY_NOTIFY_URL'' '''',
       cfg_EpayReturnURL = getEnv e ''EPAY_RETURN_URL'' '''',
       cfg_CreemAPIKey = getEnv e ''CREEM_API_KEY'' '''', cfg_CreemWebhookSecret = getEnv e ''CREEM_WEBHOOK_SECRET'' '''',
       cfg_CreemReturnURL = getEnv e ''CREEM_RETURN_URL'' '''',
       cfg_EmailSMTPHost = getEnv e ''EMAIL_SMTP_HOST'' '''', cfg_EmailSMTPPort = parseInt e ''EMAIL_SMTP_PORT'' 587,
       cfg_EmailSMTPUser = getEnv e ''EMAIL_SMTP_USER'' '''', cfg_EmailSMTPPass = getEnv e ''EMAIL_SMTP_PASS'' '''',
       cfg_EmailFrom = getEnv e ''EMAIL_FROM'' '''',
       cfg_WechatServerAddress = getEnv e ''WECHAT_SERVER_ADDRESS'' '''',
       cfg_WechatServerToken = getEnv e ''WECHAT_SERVER_TOKEN'' '''',
       cfg_ZitadelServiceAccountPAT = getEnv e ''ZITADEL_SERVICE_ACCOUNT_PAT'' '''',
       cfg_WechatOAuthClientSecret = getEnv e ''WECHAT_OAUTH_CLIENT_SECRET'' '''',
       cfg_SessionSecret = getEnv e ''SESSION_SECRET'' '''',
       cfg_ShutdownTimeout = parseDuration e ''SHUTDOWN_TIMEOUT'' (30 * second_ns),
       cfg_CacheEntitlementTTL = parseDuration e ''CACHE_ENTITLEMENT_TTL'' (5 * minute_ns),
       cfg_NewAPIInternalURL = getEnv e ''NEWAPI_INTERNAL_URL'' '''',
       cfg_NewAPIAdminAccessToken = getEnv e ''NEWAPI_ADMIN_ACCESS_TOKEN'' '''',
       cfg_NewAPIAdminUserID = getEnv e ''NEWAPI_ADMIN_USER_ID'' '''',
       cfg_SMSProvider = getEnv e ''SMS_PROVIDER'' '''',
       cfg_OtelEndpoint = getEnv e ''OTEL_EXPORTER_OTLP_ENDPOINT'' '''',
       cfg_OtelServiceName = getEnv e ''OTEL_SERVICE_NAME'' ''lurus-identity''\<rparr>
   | _ \<Rightarrow> None)"

section \<open>Stored settings\<close>

definition AdminSettingsRepo_GetAll :: "AdminSetting list op" where
  "AdminSettingsRepo_GetAll = q_find settings_T (\<lambda>_. True)"

definition AdminSettingsRepo_Set :: "string \<Rightarrow> string \<Rightarrow> string \<Rightarrow> unit op" where
  "AdminSettingsRepo_Set key val updatedBy = bind now (\<lambda>n.
     q_upsert settings_T ads_Key
       (\<lambda>st. st\<lparr>ads_Value := val, ads_UpdatedBy := updatedBy, ads_UpdatedAt := n\<rparr>)
       (AdminSetting0\<lparr>ads_Key := key, ads_Value := val, ads_UpdatedBy := updatedBy, ads_UpdatedAt := n\<rparr>))"

section \<open>Service\<close>

text \<open>\<^verbatim>\<open>cache.Load\<close> and \<^verbatim>\<open>cache.Store\<close>\<close>

definition cache_load :: "string \<Rightarrow> AdminSetting option op" where
  "cache_load key w = (Inr (cfg_cache w key), w)"

definition cache_store :: "string \<Rightarrow> AdminSetting \<Rightarrow> unit op" where
  "cache_store key st w = (Inr (), w\<lparr>cfg_cache := (cfg_cache w)(key \<mapsto> st)\<rparr>)"

definition AdminConfigService_Load :: "unit op" where
  "AdminConfigService_Load =
     bind (wrap ''admin config: load'' AdminSettingsRepo_GetAll) (\<lambda>sts.
     for_each (\<lambda>st. cache_store (ads_Key st) st) sts)"

definition AdminConfigService_GetEffective :: "string \<Rightarrow> string \<Rightarrow> string op" where
  "AdminConfigService_GetEffective key envVal =
     bind (cache_load key) (\<lambda>v. case v of
       Some st \<Rightarrow> ret (if ads_Value st \<noteq> '''' then ads_Value st else envVal)
     | None \<Rightarrow> ret envVal)"

definition AdminConfigService_Get :: "string \<Rightarrow> string op" where
  "AdminConfigService_Get key =
     bind (cache_load key) (\<lambda>v. case v of
       Some st \<Rightarrow> ret (ads_Value st)
     | None \<Rightarrow>
       bind (wrap ''admin config: get'' AdminSettingsRepo_GetAll) (\<lambda>sts.
       case find (\<lambda>st. ads_Key st = key) sts of
         Some st \<Rightarrow> bind (cache_store key st) (\<lambda>_. ret (ads_Value st))
       | None \<Rightarrow> ret ''''))"

definition AdminConfigService_Set :: "string \<Rightarrow> string \<Rightarrow> string \<Rightarrow> unit op" where
  "AdminConfigService_Set key val updatedBy =
     bind (wrap (''admin config: set '' @ go_quote key) (AdminSettingsRepo_Set key val updatedBy)) (\<lambda>_.
     bind now (\<lambda>n.
     bind (cache_load key) (\<lambda>v.
     let st = AdminSetting0\<lparr>ads_Key := key, ads_Value := val, ads_UpdatedBy := updatedBy, ads_UpdatedAt := n\<rparr>
     in cache_store key (case v of Some old \<Rightarrow> st\<lparr>ads_IsSecret := ads_IsSecret old\<rparr> | None \<Rightarrow> st))))"

definition AdminConfigService_LoadAll :: "AdminSetting list op" where
  "AdminConfigService_LoadAll = wrap ''admin config: load all'' AdminSettingsRepo_GetAll"

text \<open>\<^verbatim>\<open>if v := s.GetEffective(key, cfg.F); v != "" { cfg.F = v }\<close>\<close>

definition overlay :: "string \<Rightarrow> (Settings \<Rightarrow> string) \<Rightarrow> (string \<Rightarrow> Settings \<Rightarrow> Settings) \<Rightarrow> Settings \<Rightarrow> Settings op" where
  "overlay key get put cfg = bind (AdminConfigService_GetEffective key (get cfg)) (\<lambda>v.
     ret (if v \<noteq> '''' then put v cfg else cfg))"

definition AdminConfigService_ApplyToConfig :: "Settings \<Rightarrow> Settings op" where
  "AdminConfigService_ApplyToConfig cfg =
     bind (overlay ''epay_partner_id'' cfg_EpayPartnerID (\<lambda>v. cfg_EpayPartnerID_update (\<lambda>_. v)) cfg) (\<lambda>cfg.
     bind (overlay ''epay_key'' cfg_EpayKey (\<lambda>v. cfg_EpayKey_update (\<lambda>_. v)) cfg) (\<lambda>cfg.
     bind (overlay ''epay_gateway_url'' cfg_EpayGatewayURL (\<lambda>v. cfg_EpayGatewayURL_update (\<lambda>_. v)) cfg) (\<lambda>cfg.
     bind (overlay ''epay_notify_url'' cfg_EpayNotifyURL (\<lambda>v. cfg_EpayNotifyURL_update (\<lambda>_. v)) cfg) (\<lambda>cfg.
     bind (overlay ''stripe_secret_key'' cfg_StripeSecretKey (\<lambda>v. cfg_StripeSecretKey_update (\<lambda>_. v)) cfg) (\<lambda>cfg.
     bind (overlay ''stripe_webhook_secret'' cfg_StripeWebhookSecret (\<lambda>v. cfg_StripeWebhookSecret_update (\<lambda>_. v)) cfg) (\<lambda>cfg.
     bind (overlay ''creem_api_key'' cfg_CreemAPIKey (\<lambda>v. cfg_CreemAPIKey_update (\<lambda>_. v)) cfg) (\<lambda>cfg.
     overlay ''creem_webhook_secret'' cfg_CreemWebhookSecret (\<lambda>v. cfg_CreemWebhookSecret_update (\<lambda>_. v)) cfg)))))))"

section \<open>The cache agrees with the table\<close>

definition stored_value :: "string \<Rightarrow> world \<Rightarrow> string" where
  "stored_value k w = (case find (\<lambda>st. ads_Key st = k) (settings w) of None \<Rightarrow> '''' | Some st \<Rightarrow> ads_Value st)"

text \<open>Every cached setting has a row under its key with the same value.\<close>

definition coherent :: "world \<Rightarrow> bool" where
  "coherent w \<longleftrightarrow> uniq_by ads_Key (settings w)
     \<and> (\<forall>k st. cfg_cache w k = Some st \<longrightarrow> (\<exists>r\<in>set (settings w). ads_Key r = k \<and> ads_Value r = ads_Value st))"

lemma coherent_adv [simp]: "coherent (adv w) = coherent w"
  by (simp add: coherent_def)

lemma coherent_stored: "coherent w \<Longrightarrow> cfg_cache w k = Some st \<Longrightarrow> stored_value k w = ads_Value st"
  using uniq_by_find by (fastforce simp: coherent_def stored_value_def)

lemma coherent_store: "coherent w \<Longrightarrow> st \<in> set (settings w) \<Longrightarrow> cache_store (ads_Key st) st w = (Inr (), w') \<Longrightarrow>
    coherent w' \<and> settings w' = settings w"
  by (auto simp: coherent_def cache_store_def split: if_splits)

lemma coherent_stores: "coherent w \<Longrightarrow> set sts \<subseteq> set (settings w) \<Longrightarrow> coherent (snd (for_each (\<lambda>st. cache_store (ads_Key st) st) sts w))"
proof (induction sts arbitrary: w)
  case (Cons st sts)
  obtain w1 where w1: "cache_store (ads_Key st) st w = (Inr (), w1)" by (simp add: cache_store_def)
  have "coherent w1 \<and> settings w1 = settings w" by (rule coherent_store [OF Cons.prems(1) _ w1]) (use Cons.prems(2) in simp)
  then have "coherent (snd (for_each (\<lambda>st. cache_store (ads_Key st) st) sts w1))" using Cons by simp
  then show ?case using w1 by (simp add: bind_def)
qed (simp add: ret_def)

lemma GetAll_rows: "AdminSettingsRepo_GetAll w = (Inr sts, w1) \<Longrightarrow> sts = settings w \<and> w1 = adv w"
  by (auto simp: AdminSettingsRepo_GetAll_def ok_simps)

lemma GetAll_failed: "AdminSettingsRepo_GetAll w = (Inl e, w1) \<Longrightarrow> w1 = adv w"
  by (auto simp: AdminSettingsRepo_GetAll_def q_find_def stmt_def split: if_splits)

lemma Load_coherent: "coherent w \<Longrightarrow> coherent (snd (AdminConfigService_Load w))"
proof -
  assume c: "coherent w"
  obtain r w1 where g: "AdminSettingsRepo_GetAll w = (r, w1)" by (cases "AdminSettingsRepo_GetAll w")
  show ?thesis
  proof (cases r)
    case (Inl e)
    then show ?thesis using g GetAll_failed [of w e w1] c by (simp add: AdminConfigService_Load_def bind_def wrap_def)
  next
    case (Inr sts)
    then have "sts = settings w" "w1 = adv w" using g GetAll_rows by blast+
    then show ?thesis using g Inr coherent_stores [of "adv w" "settings w"] c by (simp add: AdminConfigService_Load_def bind_def wrap_def)
  qed
qed

lemma Set_settings: "AdminSettingsRepo_Set k v u w = (Inr (), w1) \<Longrightarrow> cfg_cache w1 = cfg_cache w \<and>
    settings w1 = (if \<exists>x\<in>set (settings w). ads_Key x = k
      then upd_rows (\<lambda>x. ads_Key x = k) (\<lambda>st. st\<lparr>ads_Value := v, ads_UpdatedBy := u, ads_UpdatedAt := clock w\<rparr>) (settings w)
      else settings w @ [AdminSetting0\<lparr>ads_Key := k, ads_Value := v, ads_UpdatedBy := u, ads_UpdatedAt := clock w\<rparr>])"
  by (auto simp: AdminSettingsRepo_Set_def q_upsert_def bind_def now_def stmt_def settings_T_def split: if_splits)

lemma Set_failed: "AdminSettingsRepo_Set k v u w = (Inl e, w1) \<Longrightarrow> w1 = adv w"
  by (auto simp: AdminSettingsRepo_Set_def q_upsert_def bind_def now_def stmt_def split: if_splits)

lemma Set_written:
  assumes "coherent w" and "AdminSettingsRepo_Set k v u w = (Inr (), w1)" and "ads_Value st = v"
  shows "coherent (w1\<lparr>cfg_cache := (cfg_cache w1)(k \<mapsto> st)\<rparr>) \<and> stored_value k w1 = v \<and> (\<forall>j. j \<noteq> k \<longrightarrow> stored_value j w1 = stored_value j w)"
proof -
  let ?P = "\<lambda>x. ads_Key x = k"
  define f where "f = (\<lambda>st :: AdminSetting. st\<lparr>ads_Value := v, ads_UpdatedBy := u, ads_UpdatedAt := clock w\<rparr>)"
  define r where "r = AdminSetting0\<lparr>ads_Key := k, ads_Value := v, ads_UpdatedBy := u, ads_UpdatedAt := clock w\<rparr>"
  have s: "cfg_cache w1 = cfg_cache w"
    "settings w1 = (if \<exists>x\<in>set (settings w). ?P x then upd_rows ?P f (settings w) else settings w @ [r])"
    using Set_settings [OF assms(2)] by (simp_all add: f_def r_def)
  have f: "ads_Key (f x) = ads_Key x \<and> ads_Value (f x) = v" for x by (simp add: f_def)
  have r: "ads_Key r = k" "ads_Value r = v" by (simp_all add: r_def)
  have u: "uniq_by ads_Key (settings w1)" using assms(1) f r s(2)
    by (auto simp: coherent_def uniq_by_upd find_None_iff intro!: uniq_by_snoc)
  have k: "\<exists>x\<in>set (settings w1). ?P x \<and> ads_Value x = v"
  proof (cases "\<exists>x\<in>set (settings w). ?P x")
    case True
    then obtain x where "x \<in> set (settings w)" "?P x" by blast
    then have "f x \<in> set (settings w1)" using s(2) by (force simp: upd_rows_def)
    then show ?thesis using f \<open>?P x\<close> by metis
  qed (use s(2) r in simp)
  have other: "x \<in> set (settings w1)" if "x \<in> set (settings w)" "ads_Key x \<noteq> k" for x
    using that s(2) by (force simp: upd_rows_def)
  have old: "x \<in> set (settings w)" if "x \<in> set (settings w1)" "ads_Key x \<noteq> k" for x
    using that s(2) f r by (auto simp: upd_rows_def split: if_splits)
  have "stored_value j w1 = stored_value j w" if j: "j \<noteq> k" for j
  proof (cases "find (\<lambda>st. ads_Key st = j) (settings w)")
    case None
    then have "find (\<lambda>st. ads_Key st = j) (settings w1) = None" using old j by (auto simp: find_None_iff)
    with None show ?thesis by (simp add: stored_value_def)
  next
    case (Some x)
    then have "find (\<lambda>st. ads_Key st = j) (settings w1) = Some x" using uniq_by_find [OF u other [of x]] j find_SomeD [OF Some] by auto
    with Some show ?thesis by (simp add: stored_value_def)
  qed
  moreover have "stored_value k w1 = v" using k uniq_by_find [OF u] by (auto simp: stored_value_def)
  moreover have "\<exists>r\<in>set (settings w1). ads_Key r = j \<and> ads_Value r = ads_Value st'"
    if "((cfg_cache w1)(k \<mapsto> st)) j = Some st'" for j st'
  proof (cases "j = k")
    case True
    then show ?thesis using k that assms(3) by auto
  next
    case False
    then have "cfg_cache w j = Some st'" using that s(1) by simp
    then obtain x where "x \<in> set (settings w)" "ads_Key x = j" "ads_Value x = ads_Value st'"
      using assms(1) unfolding coherent_def by blast
    then show ?thesis using other False by blast
  qed
  ultimately show ?thesis using u by (simp add: coherent_def)
qed

lemma Set_outcome:
  assumes "coherent w" and "AdminConfigService_Set k v u w = (res, w1)"
  shows "coherent w1 \<and> (\<forall>j. stored_value j w1 = (if res = Inr () \<and> j = k then v else stored_value j w))"
proof (cases "AdminSettingsRepo_Set k v u w")
  case (Pair r0 w0)
  show ?thesis
  proof (cases r0)
    case (Inl e)
    with Pair Set_failed have "w0 = adv w" by blast
    then show ?thesis using assms Pair Inl by (auto simp: AdminConfigService_Set_def bind_def wrap_def stored_value_def)
  next
    case (Inr x)
    let ?st = "AdminSetting0\<lparr>ads_Key := k, ads_Value := v, ads_UpdatedBy := u, ads_UpdatedAt := clock w0\<rparr>"
    let ?c = "case cfg_cache w0 k of Some old \<Rightarrow> ?st\<lparr>ads_IsSecret := ads_IsSecret old\<rparr> | None \<Rightarrow> ?st"
    have "res = Inr ()" "w1 = w0\<lparr>cfg_cache := (cfg_cache w0)(k \<mapsto> ?c)\<rparr>"
      using assms(2) Pair Inr by (auto simp: AdminConfigService_Set_def bind_def wrap_def now_def cache_load_def cache_store_def Let_def)
    moreover have "ads_Value ?c = v" by (simp split: option.split)
    ultimately show ?thesis using Set_written [OF assms(1), of k v u w0 ?c] Pair Inr by (simp add: stored_value_def)
  qed
qed

lemma Get_outcome:
  assumes "coherent w" and "AdminConfigService_Get k w = (res, w1)"
  shows "coherent w1 \<and> settings w1 = settings w \<and> (\<forall>v. res = Inr v \<longrightarrow> v = stored_value k w)"
proof (cases "cfg_cache w k")
  case (Some st)
  then show ?thesis using assms coherent_stored [OF assms(1) Some]
    by (auto simp: AdminConfigService_Get_def bind_def cache_load_def ret_def)
next
  case None
  obtain r0 w0 where g: "AdminSettingsRepo_GetAll w = (r0, w0)" by (cases "AdminSettingsRepo_GetAll w")
  show ?thesis
  proof (cases r0)
    case (Inl e)
    with g GetAll_failed have "w0 = adv w" by blast
    then show ?thesis using assms g Inl None by (auto simp: AdminConfigService_Get_def bind_def cache_load_def wrap_def)
  next
    case (Inr sts)
    with g GetAll_rows have s: "sts = settings w" "w0 = adv w" by blast+
    show ?thesis
    proof (cases "find (\<lambda>st. ads_Key st = k) (settings w)")
      case None': None
      then show ?thesis using assms g Inr None s by (auto simp: AdminConfigService_Get_def bind_def cache_load_def wrap_def ret_def stored_value_def)
    next
      case (Some st)
      have "coherent (snd (cache_store (ads_Key st) st (adv w)))"
        using coherent_store [of "adv w" st] assms(1) find_SomeD [OF Some] by (auto simp: cache_store_def)
      then show ?thesis using assms g Inr None s Some find_SomeD [OF Some]
        by (auto simp: AdminConfigService_Get_def bind_def cache_load_def wrap_def ret_def cache_store_def stored_value_def)
    qed
  qed
qed

section \<open>Any run of the service\<close>

datatype setting_step = LoadSettings | GetSetting string | SetSetting string string string | SettingFaults "bool list"

fun setting_exec :: "setting_step \<Rightarrow> world \<Rightarrow> world" where
  "setting_exec LoadSettings w = snd (AdminConfigService_Load w)"
| "setting_exec (GetSetting k) w = snd (AdminConfigService_Get k w)"
| "setting_exec (SetSetting k v u) w = snd (AdminConfigService_Set k v u w)"
| "setting_exec (SettingFaults fs) w = w\<lparr>faults := fs\<rparr>"

lemma setting_exec_coherent: "coherent w \<Longrightarrow> coherent (setting_exec s w)"
proof (cases s)
  case (GetSetting k)
  then show "coherent w \<Longrightarrow> ?thesis" using Get_outcome [of w k] by (metis setting_exec.simps(2) surjective_pairing)
next
  case (SetSetting k v u)
  then show "coherent w \<Longrightarrow> ?thesis" using Set_outcome [of w k v u] by (metis setting_exec.simps(3) surjective_pairing)
qed (auto simp: Load_coherent, auto simp: coherent_def)

text \<open>C33: The settings cache is never stale. After any run of loads, reads and writes by the service, with
  whatever statements failing, every cached setting has the value of its row; so a read that
  succeeds answers what the table holds, and a write that succeeds is what the next read answers,
  while the other settings keep their values.\<close>

theorem settings_cache_coherent:
  assumes "coherent w0" and "w = fold setting_exec steps w0"
  shows "coherent w
    \<and> (\<forall>k v w1. AdminConfigService_Get k w = (Inr v, w1) \<longrightarrow> v = stored_value k w)
    \<and> (\<forall>k v u w1 j r w2. AdminConfigService_Set k v u w = (Inr (), w1) \<longrightarrow> AdminConfigService_Get j w1 = (Inr r, w2) \<longrightarrow>
         r = (if j = k then v else stored_value j w))"
proof -
  have "coherent (fold setting_exec steps w0)" using assms(1) by (induction steps arbitrary: w0) (auto intro: setting_exec_coherent)
  then have c: "coherent w" using assms(2) by simp
  have "r = (if j = k then v else stored_value j w)"
    if "AdminConfigService_Set k v u w = (Inr (), w1)" "AdminConfigService_Get j w1 = (Inr r, w2)" for k v u w1 j r w2
    using Set_outcome [OF c that(1)] Get_outcome [OF _ that(2)] by auto
  then show ?thesis using c Get_outcome [OF c] by blast
qed

theorem settings_cache_coherent_witness:
  "\<exists>w. coherent w \<and> stored_value ''epay_key'' w = ''k2'' \<and> cfg_cache w ''epay_key'' \<noteq> None"
proof -
  let ?steps = "[SetSetting ''epay_key'' ''k1'' ''admin'', SettingFaults [True], SetSetting ''epay_key'' ''lost'' ''admin'',
     LoadSettings, SetSetting ''epay_key'' ''k2'' ''admin'']"
  let ?w = "fold setting_exec ?steps world0"
  have "coherent ?w" using settings_cache_coherent [of world0 ?w ?steps] by (simp add: coherent_def world0_def)
  moreover have "stored_value ''epay_key'' ?w = ''k2''" by code_simp
  moreover have "cfg_cache ?w ''epay_key'' \<noteq> None" by code_simp
  ultimately show ?thesis by blast
qed

end
