(* ===== verification/Auth.thy ===== *)
theory Auth
  imports Http AdminConfig
begin

text \<open>
  \<^verbatim>\<open>internal/pkg/auth\<close>: the public keys of the identity provider
  (\<^verbatim>\<open>jwks.go\<close>), the validation of its tokens (\<^verbatim>\<open>validator.go\<close>) and the gin
  middleware that lets requests in (\<^verbatim>\<open>middleware.go\<close>), with the account lookup of
  \<^verbatim>\<open>cmd/server/main.go\<close> and the service key of \<^verbatim>\<open>router.go\<close>. Public-key
  cryptography and the HTTP exchange with the provider are parameters. The lemmas show that nobody
  passes without a credential, and that no session token opens the administration.
\<close>

section \<open>Public keys\<close>

text \<open>\<^verbatim>\<open>new(big.Int).SetBytes\<close>\<close>

definition be_nat :: "string \<Rightarrow> nat" where
  "be_nat s = foldl (\<lambda>a c. a * 256 + of_char c) 0 s"

record jwkKey =
  jwk_Kid :: string
  jwk_Kty :: string
  jwk_Alg :: string
  jwk_Use :: string
  jwk_N :: string
  jwk_E :: string
  jwk_Crv :: string
  jwk_X :: string
  jwk_Y :: string

text \<open>\<^verbatim>\<open>int(x.Int64())\<close> keeps the low 64 bits.\<close>

definition int64_of :: "nat \<Rightarrow> int" where
  "int64_of n = (int n + 2 ^ 63) mod 2 ^ 64 - 2 ^ 63"

definition parseRSAKey :: "jwkKey \<Rightarrow> pubkey option" where
  "parseRSAKey k = (if jwk_N k = '''' \<or> jwk_E k = '''' then None else
     case (b64_decode (jwk_N k), b64_decode (jwk_E k)) of
       (Some n, Some e) \<Rightarrow> (if int64_of (be_nat e) \<le> 0 then None else Some (RSAKey (be_nat n) (int64_of (be_nat e))))
     | _ \<Rightarrow> None)"

definition parseECKey :: "jwkKey \<Rightarrow> pubkey option" where
  "parseECKey k = (if jwk_X k = '''' \<or> jwk_Y k = '''' then None else
     if jwk_Crv k \<notin> {''P-256'', ''P-384'', ''P-521''} then None else
     case (b64_decode (jwk_X k), b64_decode (jwk_Y k)) of
       (Some x, Some y) \<Rightarrow> Some (ECKey (jwk_Crv k) (be_nat x) (be_nat y))
     | _ \<Rightarrow> None)"

definition parseJWK :: "jwkKey \<Rightarrow> pubkey option" where
  "parseJWK k = (if jwk_Kty k = ''RSA'' then parseRSAKey k else if jwk_Kty k = ''EC'' then parseECKey k else None)"

text \<open>\<^verbatim>\<open>json.Unmarshal\<close> into a struct: the members with their names in lower case.\<close>

definition members_of :: "json \<Rightarrow> (string \<times> json) list option" where
  "members_of j = (case j of JObj kvs \<Rightarrow> Some (map (\<lambda>(k, v). (ToLower k, v)) kvs) | JNull \<Rightarrow> Some [] | _ \<Rightarrow> None)"

definition jwk_of :: "json \<Rightarrow> jwkKey option" where
  "jwk_of j = (case members_of j of None \<Rightarrow> None | Some f \<Rightarrow>
     (case (str_field ''kid'' f, str_field ''kty'' f, str_field ''alg'' f, str_field ''use'' f, str_field ''n'' f,
            str_field ''e'' f, str_field ''crv'' f, str_field ''x'' f, str_field ''y'' f) of
        (Some kid, Some kty, Some alg, Some u, Some n, Some e, Some crv, Some x, Some y) \<Rightarrow>
          Some \<lparr>jwk_Kid = kid, jwk_Kty = kty, jwk_Alg = alg, jwk_Use = u, jwk_N = n, jwk_E = e, jwk_Crv = crv, jwk_X = x, jwk_Y = y\<rparr>
      | _ \<Rightarrow> None))"

fun all_some :: "'a option list \<Rightarrow> 'a list option" where
  "all_some [] = Some []"
| "all_some (None # xs) = None"
| "all_some (Some x # xs) = map_option ((#) x) (all_some xs)"

definition jwks_document :: "string \<Rightarrow> jwkKey list option" where
  "jwks_document body = (case json_unmarshal body of None \<Rightarrow> None | Some j \<Rightarrow>
     (case members_of j of None \<Rightarrow> None | Some f \<Rightarrow>
       (case map_of f ''keys'' of None \<Rightarrow> Some [] | Some JNull \<Rightarrow> Some []
        | Some (JArr ks) \<Rightarrow> all_some (map jwk_of ks) | _ \<Rightarrow> None)))"

text \<open>The keys for signatures; of two keys with one id the later one is kept.\<close>

definition signing_keys :: "jwkKey list \<Rightarrow> (string \<times> pubkey) list" where
  "signing_keys ks = rev (List.map_filter (\<lambda>k. if jwk_Use k \<noteq> '''' \<and> jwk_Use k \<noteq> ''sig'' then None
     else map_option (Pair (jwk_Kid k)) (parseJWK k)) ks)"

definition store_keys :: "(string \<times> pubkey) list \<Rightarrow> unit op" where
  "store_keys ks w = (Inr (), w\<lparr>jwks_keys := ks, jwks_at := clock w\<rparr>)"

definition read_keys :: "((string \<times> pubkey) list \<times> time) op" where
  "read_keys w = (Inr (jwks_keys w, jwks_at w), w)"

text \<open>\<open>get\<close> is the HTTP exchange: status and body.\<close>

definition JWKSCache_refresh :: "(int \<times> string) op \<Rightarrow> unit op" where
  "JWKSCache_refresh get =
     bind (wrap ''auth: fetch jwks'' get) (\<lambda>(status, body).
     if status \<noteq> 200 then fail (EMsg (''auth: jwks endpoint returned '' @ itoa status)) else
     case jwks_document (take 65536 body) of
       None \<Rightarrow> fail (EMsg ''auth: parse jwks'')
     | Some ks \<Rightarrow> store_keys (signing_keys ks))"

definition defaultJWKSTTL :: time where
  "defaultJWKSTTL = hour_ns"

definition JWKSCache_GetKey :: "(int \<times> string) op \<Rightarrow> time \<Rightarrow> string \<Rightarrow> pubkey op" where
  "JWKSCache_GetKey get ttl kid =
     bind now (\<lambda>n.
     bind read_keys (\<lambda>(ks, since).
     case (if n - since < (if ttl \<le> 0 then defaultJWKSTTL else ttl) then map_of ks kid else None) of
       Some k \<Rightarrow> ret k
     | None \<Rightarrow>
       bind (JWKSCache_refresh get) (\<lambda>_.
       bind read_keys (\<lambda>(ks, _).
       case map_of ks kid of None \<Rightarrow> fail (EMsg (''auth: kid '' @ go_quote kid @ '' not found in JWKS'')) | Some k \<Rightarrow> ret k))))"

section \<open>Tokens of the provider\<close>

record rawClaims =
  raw_Sub :: string
  raw_Iss :: string
  raw_Aud :: "json option"
  raw_Exp :: int
  raw_Iat :: int
  raw_Email :: string
  raw_Name :: string
  raw_ZitadelRoles :: "string list"
  raw_PlainRoles :: "string list"

definition text_of :: "json \<Rightarrow> string option" where
  "text_of j = (case j of JStr s \<Rightarrow> Some s | JNull \<Rightarrow> Some '''' | _ \<Rightarrow> None)"

definition texts_of :: "json \<Rightarrow> string list option" where
  "texts_of j = (case j of JArr js \<Rightarrow> all_some (map text_of js) | JNull \<Rightarrow> Some [] | _ \<Rightarrow> None)"

text \<open>\<^verbatim>\<open>map[string]map[string]string\<close>: only the names of the roles are used.\<close>

definition role_names :: "json \<Rightarrow> string list option" where
  "role_names j = (case j of
     JNull \<Rightarrow> Some []
   | JObj kvs \<Rightarrow> (if list_all (\<lambda>(k, v). case v of JNull \<Rightarrow> True | JObj ms \<Rightarrow> list_all (\<lambda>(_, x). text_of x \<noteq> None) ms | _ \<Rightarrow> False) kvs
       then Some (map fst kvs) else None)
   | _ \<Rightarrow> None)"

definition opt_field :: "(json \<Rightarrow> 'a option) \<Rightarrow> 'a \<Rightarrow> string \<Rightarrow> (string \<times> json) list \<Rightarrow> 'a option" where
  "opt_field f d k kvs = (case map_of kvs k of None \<Rightarrow> Some d | Some j \<Rightarrow> f j)"

definition raw_claims :: "json \<Rightarrow> rawClaims option" where
  "raw_claims j = (case members_of j of None \<Rightarrow> None | Some f \<Rightarrow>
     (case (str_field ''sub'' f, str_field ''iss'' f, int_field ''exp'' f, int_field ''iat'' f, str_field ''email'' f,
            str_field ''name'' f, opt_field role_names [] ''urn:zitadel:iam:org:project:roles'' f, opt_field texts_of [] ''roles'' f) of
        (Some sub, Some iss, Some ex, Some iat, Some email, Some name, Some zr, Some pr) \<Rightarrow>
          Some \<lparr>raw_Sub = sub, raw_Iss = iss, raw_Aud = map_of f ''aud'', raw_Exp = ex, raw_Iat = iat, raw_Email = email,
                raw_Name = name, raw_ZitadelRoles = zr, raw_PlainRoles = pr\<rparr>
      | _ \<Rightarrow> None))"

definition parseAudience :: "json option \<Rightarrow> string list option" where
  "parseAudience raw = (case raw of None \<Rightarrow> Some [] | Some j \<Rightarrow>
     (case texts_of j of Some xs \<Rightarrow> Some xs | None \<Rightarrow> map_option (\<lambda>s. [s]) (text_of j)))"

record ValidatorConfig =
  vc_Issuer :: string
  vc_Audience :: string
  vc_JWKSTTL :: time
  vc_AdminRoles :: "string list"

definition NewValidator :: "ValidatorConfig \<Rightarrow> ValidatorConfig" where
  "NewValidator cfg = (if vc_AdminRoles cfg = [] then cfg\<lparr>vc_AdminRoles := [''admin'']\<rparr> else cfg)"

definition validateStandardClaims :: "ValidatorConfig \<Rightarrow> time \<Rightarrow> rawClaims \<Rightarrow> string option" where
  "validateStandardClaims v t rc = (
     if raw_Exp rc = 0 then Some ''auth: token missing exp claim'' else
     if raw_Exp rc < unix t then Some (''auth: token expired at '' @ itoa (raw_Exp rc) @ '' (now '' @ itoa (unix t) @ '')'') else
     if raw_Iss rc = '''' then Some ''auth: token missing iss claim'' else
     if raw_Iss rc \<noteq> vc_Issuer v then Some (''auth: unexpected issuer '' @ go_quote (raw_Iss rc) @ '', want '' @ go_quote (vc_Issuer v)) else
     if vc_Audience v \<noteq> '''' then (case parseAudience (raw_Aud rc) of
         None \<Rightarrow> Some ''auth: parse aud: aud is neither string nor []string''
       | Some aud \<Rightarrow> if vc_Audience v \<in> set aud then None else Some ''auth: audience mismatch'')
     else None)"

text \<open>The library gives the project roles in no fixed order; here they come in the order of the token.\<close>

definition buildClaims :: "rawClaims \<Rightarrow> Claims" where
  "buildClaims rc = \<lparr>clm_Sub = raw_Sub rc, clm_Iss = raw_Iss rc,
     clm_Aud = (case parseAudience (raw_Aud rc) of Some aud \<Rightarrow> aud | None \<Rightarrow> []),
     clm_Email = raw_Email rc, clm_Name = raw_Name rc,
     clm_Roles = rev (remdups (rev (raw_ZitadelRoles rc @ raw_PlainRoles rc)))\<rparr>"

text \<open>The cryptographic library: RSA and ECDSA verification of a digest, and the digests.\<close>

record crypto =
  cr_digest :: "string \<Rightarrow> string \<Rightarrow> string"
  cr_rsa :: "nat \<Rightarrow> int \<Rightarrow> string \<Rightarrow> string \<Rightarrow> string \<Rightarrow> bool"
  cr_ecdsa :: "string \<Rightarrow> nat \<Rightarrow> nat \<Rightarrow> string \<Rightarrow> nat \<Rightarrow> nat \<Rightarrow> bool"

definition hashNameToCryptoHash :: "string \<Rightarrow> string option" where
  "hashNameToCryptoHash name = (if name \<in> {''sha256'', ''sha384'', ''sha512''} then Some name else None)"

definition verifyRSA :: "crypto \<Rightarrow> pubkey \<Rightarrow> string \<Rightarrow> string \<Rightarrow> string \<Rightarrow> bool" where
  "verifyRSA cr pub signingInput sig hashName = (case pub of
     RSAKey n e \<Rightarrow> (case hashNameToCryptoHash hashName of None \<Rightarrow> False
        | Some h \<Rightarrow> cr_rsa cr n e h (cr_digest cr h signingInput) sig)
   | _ \<Rightarrow> False)"

definition verifyEC :: "crypto \<Rightarrow> pubkey \<Rightarrow> string \<Rightarrow> string \<Rightarrow> string \<Rightarrow> bool" where
  "verifyEC cr pub signingInput sig hashName = (case pub of
     ECKey crv x y \<Rightarrow> length sig mod 2 = 0 \<and>
       (let half = length sig div 2 in
        cr_ecdsa cr crv x y (cr_digest cr hashName signingInput) (be_nat (take half sig)) (be_nat (drop half sig)))
   | _ \<Rightarrow> False)"

definition verifySignature :: "crypto \<Rightarrow> string \<Rightarrow> pubkey \<Rightarrow> string \<Rightarrow> string \<Rightarrow> bool" where
  "verifySignature cr alg pub signingInput sig = (
     if alg = ''RS256'' then verifyRSA cr pub signingInput sig ''sha256'' else
     if alg = ''RS384'' then verifyRSA cr pub signingInput sig ''sha384'' else
     if alg = ''RS512'' then verifyRSA cr pub signingInput sig ''sha512'' else
     if alg = ''ES256'' then verifyEC cr pub signingInput sig ''sha256'' else
     if alg = ''ES384'' then verifyEC cr pub signingInput sig ''sha384'' else
     if alg = ''ES512'' then verifyEC cr pub signingInput sig ''sha512'' else False)"

definition jwt_header :: "json \<Rightarrow> (string \<times> string) option" where
  "jwt_header j = (case members_of j of None \<Rightarrow> None | Some f \<Rightarrow>
     (case (str_field ''alg'' f, str_field ''kid'' f) of (Some alg, Some kid) \<Rightarrow> Some (alg, kid) | _ \<Rightarrow> None))"

definition Validator_Validate :: "ValidatorConfig \<Rightarrow> crypto \<Rightarrow> (int \<times> string) op \<Rightarrow> string \<Rightarrow> Claims op" where
  "Validator_Validate v cr get tokenStr = (case split_on (CHR ''.'') tokenStr of
     [p0, p1, p2] \<Rightarrow>
       (case b64_decode p0 of None \<Rightarrow> fail (EMsg ''auth: decode header'') | Some headerJSON \<Rightarrow>
       (case Option.bind (json_unmarshal headerJSON) jwt_header of None \<Rightarrow> fail (EMsg ''auth: parse header'') | Some (alg, kid) \<Rightarrow>
       (case b64_decode p1 of None \<Rightarrow> fail (EMsg ''auth: decode payload'') | Some payloadJSON \<Rightarrow>
       (case Option.bind (json_unmarshal payloadJSON) raw_claims of None \<Rightarrow> fail (EMsg ''auth: parse claims'') | Some rc \<Rightarrow>
       bind now (\<lambda>n.
       case validateStandardClaims v n rc of Some e \<Rightarrow> fail (EMsg e) | None \<Rightarrow>
       bind (wrap ''auth: resolve signing key'' (JWKSCache_GetKey get (vc_JWKSTTL v) kid)) (\<lambda>pubKey.
       case b64_decode p2 of None \<Rightarrow> fail (EMsg ''auth: decode signature'') | Some sigBytes \<Rightarrow>
       if \<not> verifySignature cr alg pubKey (p0 @ ''.'' @ p1) sigBytes then fail (EMsg ''auth: signature verification failed'') else
       ret (buildClaims rc)))))))
   | _ \<Rightarrow> fail (EMsg ''auth: malformed token: expected 3 parts''))"

definition Validator_HasAdminRole :: "ValidatorConfig \<Rightarrow> Claims \<Rightarrow> bool" where
  "Validator_HasAdminRole v claims = list_ex (\<lambda>r. List.member (vc_AdminRoles v) r) (clm_Roles claims)"

section \<open>Middleware\<close>

text \<open>\<^verbatim>\<open>buildAccountLookup\<close>\<close>

definition sub_key :: "string \<Rightarrow> string" where
  "sub_key sub = ''sub:id:'' @ sub"

definition buildAccountLookup :: "Claims \<Rightarrow> int op" where
  "buildAccountLookup claims =
     attempt (r_get (sub_key (clm_Sub claims))) (\<lambda>v. case (case v of Inr (Some (RStr s)) \<Rightarrow> atoi s | _ \<Rightarrow> None) of
       Some i \<Rightarrow> ret i
     | None \<Rightarrow>
       bind (wrap ''account upsert'' (AccountService_UpsertByZitadelSub (clm_Sub claims) (clm_Email claims) (clm_Name claims) '''')) (\<lambda>account.
       bind (ignore (r_set (sub_key (clm_Sub claims)) (RStr (itoa (acc_ID account))) (10 * minute_ns))) (\<lambda>_.
       ret (acc_ID account))))"

record JWTMiddleware =
  mw_cfg :: ValidatorConfig
  mw_crypto :: crypto
  mw_get :: "(int \<times> string) op"
  mw_sessionSecret :: string

definition extractBearerToken :: "request \<Rightarrow> string + string" where
  "extractBearerToken c = (let header = rq_header c ''Authorization'' in
     if header = '''' then Inl ''missing Authorization header'' else
     if \<not> has_prefix ''Bearer '' header then Inl ''Authorization header must use Bearer scheme'' else
     let token = TrimSpace (drop 7 header) in
     if token = '''' then Inl ''empty bearer token'' else Inr token)"

text \<open>A middleware answers the request (\<open>Inl\<close>) or passes it on with its context (\<open>Inr\<close>).\<close>

definition abort :: "int \<Rightarrow> string \<Rightarrow> (response + request) op" where
  "abort s t = bind (err_json s t) (\<lambda>r. ret (Inl r))"

definition JWTMiddleware_Auth :: "JWTMiddleware \<Rightarrow> request \<Rightarrow> (response + request) op" where
  "JWTMiddleware_Auth m c = (case extractBearerToken c of
     Inl e \<Rightarrow> abort 401 e
   | Inr token \<Rightarrow>
     attempt (if mw_sessionSecret m \<noteq> '''' then ValidateSessionToken token (mw_sessionSecret m) else fail (EMsg '''')) (\<lambda>s. case s of
       Inr accountID \<Rightarrow> ret (Inr (c\<lparr>rq_account := Some accountID\<rparr>))
     | Inl _ \<Rightarrow>
       attempt (Validator_Validate (mw_cfg m) (mw_crypto m) (mw_get m) token) (\<lambda>v. case v of
         Inl _ \<Rightarrow> abort 401 ''invalid token''
       | Inr claims \<Rightarrow>
         attempt (buildAccountLookup claims) (\<lambda>a. case a of
           Inl _ \<Rightarrow> abort 401 ''account lookup failed''
         | Inr accountID \<Rightarrow> ret (Inr (c\<lparr>rq_account := Some accountID, rq_claims := Some claims\<rparr>))))))"

definition JWTMiddleware_AdminAuth :: "JWTMiddleware \<Rightarrow> request \<Rightarrow> (response + request) op" where
  "JWTMiddleware_AdminAuth m c = (case extractBearerToken c of
     Inl e \<Rightarrow> abort 401 e
   | Inr token \<Rightarrow>
     attempt (Validator_Validate (mw_cfg m) (mw_crypto m) (mw_get m) token) (\<lambda>v. case v of
       Inl _ \<Rightarrow> abort 401 ''invalid token''
     | Inr claims \<Rightarrow>
       if \<not> Validator_HasAdminRole (mw_cfg m) claims then abort 403 ''admin role required'' else
       attempt (buildAccountLookup claims) (\<lambda>a. case a of
         Inl _ \<Rightarrow> abort 401 ''account lookup failed''
       | Inr accountID \<Rightarrow> ret (Inr (c\<lparr>rq_account := Some accountID, rq_claims := Some claims\<rparr>)))))"

definition internalKeyAuth :: "string \<Rightarrow> request \<Rightarrow> (response + request) op" where
  "internalKeyAuth key c =
     (if rq_header c ''Authorization'' \<noteq> ''Bearer '' @ key then abort 401 ''invalid internal key'' else ret (Inr c))"

definition GetAccountID :: "request \<Rightarrow> int" where
  "GetAccountID c = (case rq_account c of None \<Rightarrow> 0 | Some i \<Rightarrow> i)"

definition GetClaims :: "request \<Rightarrow> Claims option" where
  "GetClaims c = rq_claims c"

section \<open>Nobody passes without a credential\<close>

text \<open>
  A token of the identity provider that is accepted at time \<open>t\<close> with the keys \<open>ks\<close>: its
  signature over header and claims verifies under the key its header names, it is of the configured
  issuer (and audience, if one is configured), and it has not expired.
\<close>

definition signed_token :: "JWTMiddleware \<Rightarrow> string \<Rightarrow> time \<Rightarrow> (string \<times> pubkey) list \<Rightarrow> rawClaims \<Rightarrow> bool" where
  "signed_token m token t ks rc \<longleftrightarrow> (\<exists>p0 p1 p2 h alg kid body key sig.
     split_on (CHR ''.'') token = [p0, p1, p2] \<and> b64_decode p0 = Some h \<and> Option.bind (json_unmarshal h) jwt_header = Some (alg, kid)
     \<and> b64_decode p1 = Some body \<and> Option.bind (json_unmarshal body) raw_claims = Some rc
     \<and> (kid, key) \<in> set ks \<and> b64_decode p2 = Some sig \<and> verifySignature (mw_crypto m) alg key (p0 @ ''.'' @ p1) sig
     \<and> raw_Iss rc = vc_Issuer (mw_cfg m) \<and> unix t \<le> raw_Exp rc
     \<and> (vc_Audience (mw_cfg m) \<noteq> '''' \<longrightarrow> (\<exists>aud. parseAudience (raw_Aud rc) = Some aud \<and> vc_Audience (mw_cfg m) \<in> set aud)))"

lemma standard_claims: "validateStandardClaims v t rc = None \<Longrightarrow> raw_Iss rc = vc_Issuer v \<and> unix t \<le> raw_Exp rc
    \<and> (vc_Audience v \<noteq> '''' \<longrightarrow> (\<exists>aud. parseAudience (raw_Aud rc) = Some aud \<and> vc_Audience v \<in> set aud))"
  by (auto simp: validateStandardClaims_def split: if_splits option.splits)

lemma GetKey_known:
  assumes "JWKSCache_GetKey get ttl kid w = (Inr k, w')"
  shows "(kid, k) \<in> set (jwks_keys w')"
  using assms by (auto simp: JWKSCache_GetKey_def bind_def now_def read_keys_def ret_def fail_def
      split: option.splits if_splits prod.splits sum.splits dest: map_of_SomeD)

lemma Validate_signed:
  assumes "Validator_Validate (mw_cfg m) (mw_crypto m) get token w = (Inr claims, w')"
  obtains rc where "claims = buildClaims rc" "signed_token m token (clock w) (jwks_keys w') rc"
proof -
  from assms obtain p0 p1 p2 where p: "split_on (CHR ''.'') token = [p0, p1, p2]"
    unfolding Validator_Validate_def by (auto simp: fail_def split: list.splits)
  obtain h where h: "b64_decode p0 = Some h" using assms unfolding Validator_Validate_def p by (cases "b64_decode p0") (auto simp: fail_def)
  obtain alg kid where ak: "Option.bind (json_unmarshal h) jwt_header = Some (alg, kid)"
    using assms unfolding Validator_Validate_def p by (cases "Option.bind (json_unmarshal h) jwt_header") (auto simp: fail_def h)
  obtain body where body: "b64_decode p1 = Some body"
    using assms unfolding Validator_Validate_def p by (cases "b64_decode p1") (auto simp: fail_def h ak)
  obtain rc where rc: "Option.bind (json_unmarshal body) raw_claims = Some rc"
    using assms unfolding Validator_Validate_def p by (cases "Option.bind (json_unmarshal body) raw_claims") (auto simp: fail_def h ak body)
  have std: "validateStandardClaims (mw_cfg m) (clock w) rc = None"
    using assms unfolding Validator_Validate_def p by (cases "validateStandardClaims (mw_cfg m) (clock w) rc") (auto simp: fail_def bind_def now_def h ak body rc)
  obtain key w1 where key: "JWKSCache_GetKey get (vc_JWKSTTL (mw_cfg m)) kid w = (Inr key, w1)"
    and rest: "(case b64_decode p2 of None \<Rightarrow> fail (EMsg ''auth: decode signature'') | Some sigBytes \<Rightarrow>
       if \<not> verifySignature (mw_crypto m) alg key (p0 @ ''.'' @ p1) sigBytes then fail (EMsg ''auth: signature verification failed'') else
       ret (buildClaims rc)) w1 = (Inr claims, w')"
    using assms unfolding Validator_Validate_def p by (auto simp: h ak body rc std ok_simps)
  obtain sig where sig: "b64_decode p2 = Some sig" "verifySignature (mw_crypto m) alg key (p0 @ ''.'' @ p1) sig" "w' = w1" "claims = buildClaims rc"
    using rest by (auto simp: fail_def ret_def split: option.splits if_splits)
  have "signed_token m token (clock w) (jwks_keys w') rc"
    unfolding signed_token_def using p h ak body rc GetKey_known [OF key] sig(1,2) standard_claims [OF std] unfolding sig(3) by blast
  then show thesis using that sig(4) by blast
qed

lemma lookup_jwks: "leaves jwks_keys (buildAccountLookup claims)"
  unfolding buildAccountLookup_def AccountService_UpsertByZitadelSub_def generateAffCode_def AccountRepo_Create_def AccountRepo_Update_def
    AccountRepo_GetByZitadelSub_def AccountRepo_GetByEmail_def WalletRepo_GetOrCreate_def VIPRepo_GetOrCreate_def Let_def
  by (auto intro!: leaves_intros simp: apart_def)

lemma ValidateSessionToken_pure: "snd (ValidateSessionToken token secret w) = w"
  by (simp add: ValidateSessionToken_def bind_def now_def ret_def fail_def Let_def split: list.split option.split sum.split)

lemma abort_out: "abort s t w = (Inr (Inl (JSON s (GObj [(''error'', GStr t)]))), w)"
  by (simp add: abort_def err_json_def bind_def ret_def)

text \<open>The part that both middlewares share: a validated token and its account.\<close>

lemma lookup_signed:
  assumes "Validator_Validate (mw_cfg m) (mw_crypto m) (mw_get m) token w = (Inr claims, w1)" and "buildAccountLookup claims w1 = (Inr i, w2)"
  obtains rc where "claims = buildClaims rc" "signed_token m token (clock w) (jwks_keys w2) rc"
  using Validate_signed [OF assms(1)] leavesD [OF lookup_jwks assms(2)] by metis

text \<open>C34: Nobody passes without a credential. A request that the user middleware lets through carries a
  bearer token that is either a session token the service signed, for the account it then acts
  as, or a token of the identity provider whose signature verifies under a published key, with the
  configured issuer and audience and not expired. The administration is opened only by the latter,
  and only if it names an administrator role; an internal route only by the shared key.\<close>

theorem requests_are_authenticated:
  "(JWTMiddleware_Auth m c w = (Inr (Inr c1), w1) \<longrightarrow> (\<exists>token. extractBearerToken c = Inr token \<and>
      (mw_sessionSecret m \<noteq> '''' \<and> (\<exists>i. ValidateSessionToken token (mw_sessionSecret m) w = (Inr i, w) \<and> c1 = c\<lparr>rq_account := Some i\<rparr>)
       \<or> (\<exists>rc i. signed_token m token (clock w) (jwks_keys w1) rc \<and> c1 = c\<lparr>rq_account := Some i, rq_claims := Some (buildClaims rc)\<rparr>))))
   \<and> (JWTMiddleware_AdminAuth m c w = (Inr (Inr c1), w1) \<longrightarrow> (\<exists>token rc i r. extractBearerToken c = Inr token
       \<and> signed_token m token (clock w) (jwks_keys w1) rc \<and> c1 = c\<lparr>rq_account := Some i, rq_claims := Some (buildClaims rc)\<rparr>
       \<and> r \<in> set (vc_AdminRoles (mw_cfg m)) \<and> r \<in> set (raw_ZitadelRoles rc @ raw_PlainRoles rc)))
   \<and> (internalKeyAuth key c w = (Inr (Inr c1), w1) \<longrightarrow> rq_header c ''Authorization'' = ''Bearer '' @ key)"
proof (intro conjI impI)
  assume a: "JWTMiddleware_Auth m c w = (Inr (Inr c1), w1)"
  then obtain token where tok: "extractBearerToken c = Inr token"
    by (cases "extractBearerToken c") (auto simp: JWTMiddleware_Auth_def abort_out)
  obtain s0 w0 where s: "(if mw_sessionSecret m \<noteq> '''' then ValidateSessionToken token (mw_sessionSecret m) else fail (EMsg '''')) w = (s0, w0)"
    by fastforce
  have w0: "w0 = w" using s ValidateSessionToken_pure [of token "mw_sessionSecret m" w] by (auto simp: fail_def split: if_splits)
  show "\<exists>token. extractBearerToken c = Inr token \<and>
      (mw_sessionSecret m \<noteq> '''' \<and> (\<exists>i. ValidateSessionToken token (mw_sessionSecret m) w = (Inr i, w) \<and> c1 = c\<lparr>rq_account := Some i\<rparr>)
       \<or> (\<exists>rc i. signed_token m token (clock w) (jwks_keys w1) rc \<and> c1 = c\<lparr>rq_account := Some i, rq_claims := Some (buildClaims rc)\<rparr>))"
  proof (cases s0)
    case (Inr i)
    then have "mw_sessionSecret m \<noteq> '''' \<and> ValidateSessionToken token (mw_sessionSecret m) w = (Inr i, w)"
      using s w0 by (auto simp: fail_def split: if_splits)
    moreover have "c1 = c\<lparr>rq_account := Some i\<rparr>" using a s Inr by (simp add: JWTMiddleware_Auth_def tok attempt_def ret_def)
    ultimately show ?thesis using tok by blast
  next
    case (Inl e)
    then have "attempt (Validator_Validate (mw_cfg m) (mw_crypto m) (mw_get m) token) (\<lambda>v. case v of
         Inl _ \<Rightarrow> abort 401 ''invalid token''
       | Inr claims \<Rightarrow>
         attempt (buildAccountLookup claims) (\<lambda>a. case a of
           Inl _ \<Rightarrow> abort 401 ''account lookup failed''
         | Inr accountID \<Rightarrow> ret (Inr (c\<lparr>rq_account := Some accountID, rq_claims := Some claims\<rparr>)))) w = (Inr (Inr c1), w1)"
      using a s w0 by (simp add: JWTMiddleware_Auth_def tok attempt_def)
    then obtain claims v1 i where v: "Validator_Validate (mw_cfg m) (mw_crypto m) (mw_get m) token w = (Inr claims, v1)"
      "buildAccountLookup claims v1 = (Inr i, w1)" "c1 = c\<lparr>rq_account := Some i, rq_claims := Some claims\<rparr>"
      by (auto simp: attempt_def abort_out ret_def split: prod.splits sum.splits)
    show ?thesis using lookup_signed [OF v(1,2)] v(3) tok by metis
  qed
next
  assume a: "JWTMiddleware_AdminAuth m c w = (Inr (Inr c1), w1)"
  then obtain token where tok: "extractBearerToken c = Inr token"
    by (cases "extractBearerToken c") (auto simp: JWTMiddleware_AdminAuth_def abort_out)
  from a obtain claims v1 i where v: "Validator_Validate (mw_cfg m) (mw_crypto m) (mw_get m) token w = (Inr claims, v1)"
      "Validator_HasAdminRole (mw_cfg m) claims"
      "buildAccountLookup claims v1 = (Inr i, w1)" "c1 = c\<lparr>rq_account := Some i, rq_claims := Some claims\<rparr>"
    by (auto simp: JWTMiddleware_AdminAuth_def tok attempt_def abort_out ret_def split: prod.splits sum.splits if_splits)
  obtain rc where rc: "claims = buildClaims rc" "signed_token m token (clock w) (jwks_keys w1) rc" using lookup_signed [OF v(1,3)] .
  obtain r where "r \<in> set (vc_AdminRoles (mw_cfg m))" "r \<in> set (raw_ZitadelRoles rc @ raw_PlainRoles rc)"
    using v(2) unfolding rc(1) by (auto simp: Validator_HasAdminRole_def buildClaims_def list_ex_iff)
  then show "\<exists>token rc i r. extractBearerToken c = Inr token
       \<and> signed_token m token (clock w) (jwks_keys w1) rc \<and> c1 = c\<lparr>rq_account := Some i, rq_claims := Some (buildClaims rc)\<rparr>
       \<and> r \<in> set (vc_AdminRoles (mw_cfg m)) \<and> r \<in> set (raw_ZitadelRoles rc @ raw_PlainRoles rc)"
    using tok rc v(4) by blast
qed (auto simp: internalKeyAuth_def abort_out split: if_splits)

text \<open>A provider with one RSA key whose signatures are the text \<open>ok\<close>, and an administrator's token of it.\<close>

definition demo_mw :: JWTMiddleware where
  "demo_mw = \<lparr>mw_cfg = \<lparr>vc_Issuer = ''i'', vc_Audience = '''', vc_JWKSTTL = 0, vc_AdminRoles = [''a'']\<rparr>,
     mw_crypto = \<lparr>cr_digest = (\<lambda>h s. s), cr_rsa = (\<lambda>n e h d s. s = ''ok''), cr_ecdsa = (\<lambda>c x y d r s. False)\<rparr>,
     mw_get = ret (200, ''''), mw_sessionSecret = ''''\<rparr>"

definition demo_header :: string where
  "demo_header = json_text (JObj [(''alg'', JStr ''RS256'')])"

definition demo_payload :: string where
  "demo_payload = json_text (JObj [(''exp'', JNum 9), (''iss'', JStr ''i''), (''roles'', JArr [JStr ''a''])])"

definition demo_claims :: rawClaims where
  "demo_claims = \<lparr>raw_Sub = '''', raw_Iss = ''i'', raw_Aud = None, raw_Exp = 9, raw_Iat = 0, raw_Email = '''', raw_Name = '''',
     raw_ZitadelRoles = [], raw_PlainRoles = [''a'']\<rparr>"

definition demo_token :: string where
  "demo_token = b64_encode demo_header @ ''.'' @ b64_encode demo_payload @ ''.'' @ b64_encode ''ok''"

definition demo_keys :: world where
  "demo_keys = world0\<lparr>jwks_keys := [('''', RSAKey 5 3)], jwks_at := 0, redis := [sub_key '''' \<mapsto> (RStr ''1'', None)]\<rparr>"

lemma demo_token_split: "split_on (CHR ''.'') demo_token = [b64_encode demo_header, b64_encode demo_payload, b64_encode ''ok'']"
  using split_on_join [OF b64_encode_no_dot [of demo_header], of "b64_encode demo_payload @ CHR ''.'' # b64_encode ''ok''"]
    split_on_join [OF b64_encode_no_dot [of demo_payload], of "b64_encode ''ok''"] split_on_plain [OF b64_encode_no_dot [of "''ok''"]]
  by (simp add: demo_token_def)

lemma demo_parsed: "Option.bind (json_unmarshal demo_header) jwt_header = Some (''RS256'', '''')"
  "Option.bind (json_unmarshal demo_payload) raw_claims = Some demo_claims"
  by code_simp+

lemma demo_validated: "Validator_Validate (mw_cfg demo_mw) (mw_crypto demo_mw) (mw_get demo_mw) demo_token demo_keys = (Inr (buildClaims demo_claims), demo_keys)"
proof -
  have k: "JWKSCache_GetKey (ret (200, '''')) 0 '''' demo_keys = (Inr (RSAKey 5 3), demo_keys)"
    by (simp add: JWKSCache_GetKey_def demo_keys_def bind_def now_def read_keys_def ret_def defaultJWKSTTL_def hour_ns_def world0_def)
  have c: "validateStandardClaims (mw_cfg demo_mw) (clock demo_keys) demo_claims = None"
    by (simp add: validateStandardClaims_def demo_mw_def demo_keys_def demo_claims_def unix_def world0_def second_ns_def)
  have v: "verifySignature (mw_crypto demo_mw) ''RS256'' (RSAKey 5 3) s ''ok''" for s
    by (simp add: verifySignature_def verifyRSA_def hashNameToCryptoHash_def demo_mw_def)
  show ?thesis using k c v by (simp add: Validator_Validate_def demo_token_split b64_decode_encode demo_parsed bind_def now_def wrap_def ret_def)
      (simp add: demo_mw_def ret_def)
qed

theorem requests_are_authenticated_witness:
  "\<exists>c1 token rc r. fst (JWTMiddleware_AdminAuth demo_mw (request0\<lparr>rq_header := (\<lambda>_. ''Bearer '' @ demo_token)\<rparr>) demo_keys) = Inr (Inr c1)
    \<and> signed_token demo_mw token 0 [('''', RSAKey 5 3)] rc \<and> r = ''a'' \<and> r \<in> set (raw_ZitadelRoles rc @ raw_PlainRoles rc)"
proof -
  let ?c = "request0\<lparr>rq_header := (\<lambda>_. ''Bearer '' @ demo_token)\<rparr>"
  have tok: "extractBearerToken ?c = Inr demo_token" by code_simp
  have "atoi ''1'' = Some 1" by code_simp
  then have l: "buildAccountLookup (buildClaims demo_claims) demo_keys = (Inr 1, demo_keys)"
    by (simp add: buildAccountLookup_def attempt_def r_get_def stmt_def faulty_def live_def demo_keys_def demo_claims_def buildClaims_def
        world0_def adv_def ret_def)
  have role: "Validator_HasAdminRole (mw_cfg demo_mw) (buildClaims demo_claims)" by code_simp
  have run: "JWTMiddleware_AdminAuth demo_mw ?c demo_keys = (Inr (Inr (?c\<lparr>rq_account := Some 1, rq_claims := Some (buildClaims demo_claims)\<rparr>)), demo_keys)"
    using tok l role demo_validated by (simp add: JWTMiddleware_AdminAuth_def attempt_def ret_def)
  have k: "jwks_keys demo_keys = [('''', RSAKey 5 3)]" "clock demo_keys = 0" "set (vc_AdminRoles (mw_cfg demo_mw)) = {''a''}"
    by (simp_all add: demo_keys_def world0_def demo_mw_def)
  obtain tk rc i r where s: "signed_token demo_mw tk (clock demo_keys) (jwks_keys demo_keys) rc"
      "r \<in> set (vc_AdminRoles (mw_cfg demo_mw))" "r \<in> set (raw_ZitadelRoles rc @ raw_PlainRoles rc)"
    using mp [OF conjunct1 [OF conjunct2 [OF requests_are_authenticated [where key = "''''"]]] run] by (elim exE conjE) (rule that)
  then have "signed_token demo_mw tk 0 [('''', RSAKey 5 3)] rc" "r = ''a''" using k by simp_all
  then show ?thesis using run s(3) by (metis fst_conv)
qed

end
