(* ===== verification/AdminHandlers.thy ===== *)
theory AdminHandlers
  imports OrgHandlers AdminConfig Auth
begin

text \<open>
  The administrative handlers over settings, redemption codes, reports and products:
  \<^verbatim>\<open>handler/admin_config_handler.go\<close>, \<^verbatim>\<open>handler/admin_ops.go\<close>,
  \<^verbatim>\<open>handler/admin_report.go\<close> and the second half of \<^verbatim>\<open>handler/product.go\<close>.
\<close>

section \<open>Settings\<close>

definition setting_json :: "AdminSetting \<Rightarrow> gval" where
  "setting_json st = GObj [(''key'', GStr (ads_Key st)),
     (''value'', GStr (if ads_IsSecret st \<and> ads_Value st \<noteq> '''' then utf8_text (concat (replicate 8 [226, 128, 162])) else ads_Value st)),
     (''is_secret'', GBool (ads_IsSecret st)), (''updated_by'', GStr (ads_UpdatedBy st)), (''updated_at'', GTime (Some (ads_UpdatedAt st)))]"

definition AdminConfigHandler_ListSettings :: handler where
  "AdminConfigHandler_ListSettings c =
     or_error 500 ''failed to load settings'' AdminConfigService_LoadAll (\<lambda>sts.
     ok_json 200 [(''settings'', GList (map setting_json sts))])"

text \<open>
  The tag \<^verbatim>\<open>required\<close> of the list asks only that the member is there; without
  \<^verbatim>\<open>dive\<close> the tags of its elements are not looked at.
\<close>

definition settings_item :: "json \<Rightarrow> (string \<times> string) option" where
  "settings_item j = (case members_of j of None \<Rightarrow> None | Some f \<Rightarrow>
     (case (str_field ''key'' f, str_field ''value'' f) of (Some k, Some v) \<Rightarrow> Some (k, v) | _ \<Rightarrow> None))"

definition settings_request :: "(string \<times> json) list \<Rightarrow> (string \<times> string) list option" where
  "settings_request f = (case map_of f ''settings'' of Some (JArr js) \<Rightarrow> all_some (map settings_item js) | _ \<Rightarrow> None)"

definition updated_by :: "request \<Rightarrow> string" where
  "updated_by c = (case GetClaims c of None \<Rightarrow> ''admin'' | Some cl \<Rightarrow> if clm_Email cl \<noteq> '''' then clm_Email cl else ''admin'')"

fun set_all :: "string \<Rightarrow> int \<Rightarrow> (string \<times> string) list \<Rightarrow> response op" where
  "set_all by n [] = ok_json 200 [(''updated'', GInt n)]"
| "set_all by n ((k, v) # items) =
     attempt (AdminConfigService_Set k v by) (\<lambda>r. case r of
       Inl e \<Rightarrow> err_json 500 (''save failed for key: '' @ k)
     | Inr _ \<Rightarrow> set_all by n items)"

definition AdminConfigHandler_UpdateSettings :: handler where
  "AdminConfigHandler_UpdateSettings c =
     with_body c settings_request (\<lambda>items. set_all (updated_by c) (int (length items)) items)"

definition qr_key :: "string \<Rightarrow> string option" where
  "qr_key t = (if t = ''alipay'' then Some ''qr_static_alipay'' else if t = ''wechat'' then Some ''qr_static_wechat''
     else if t = ''channel'' then Some ''qr_channel_promo'' else None)"

text \<open>\<^verbatim>\<open>base64.RawStdEncoding\<close> and \<^verbatim>\<open>base64.StdEncoding\<close>, which skip line ends.\<close>

definition std_raw_decode :: "string \<Rightarrow> string option" where
  "std_raw_decode s = (if CHR ''-'' \<in> set s \<or> CHR ''_'' \<in> set s then None
     else b64_decode (map (\<lambda>c. if c = CHR ''+'' then CHR ''-'' else if c = CHR ''/'' then CHR ''_'' else c) s))"

definition std_decode :: "string \<Rightarrow> string option" where
  "std_decode s = (let t = filter (\<lambda>c. of_char c \<noteq> (10 :: nat) \<and> of_char c \<noteq> (13 :: nat)) s;
       pad = (if length t mod 4 \<noteq> 0 then None else if drop (length t - 2) t = ''=='' then Some 2
              else if drop (length t - 1) t = ''='' then Some 1 else Some 0) in
     case pad of None \<Rightarrow> None | Some k \<Rightarrow> std_raw_decode (take (length t - k) t))"

definition image_bytes :: "string \<Rightarrow> string option" where
  "image_bytes s = (case std_decode s of Some b \<Rightarrow> Some b | None \<Rightarrow> std_raw_decode s)"

definition qrcode_request :: "(string \<times> json) list \<Rightarrow> (string \<times> string) option" where
  "qrcode_request f = (case (req_str ''type'' f, req_str ''image_base64'' f) of (Some t, Some i) \<Rightarrow> Some (t, i) | _ \<Rightarrow> None)"

definition AdminConfigHandler_UploadQRCode :: handler where
  "AdminConfigHandler_UploadQRCode c =
     with_body c qrcode_request (\<lambda>(t, image). case qr_key t of
       None \<Rightarrow> err_json 400 ''type must be alipay, wechat, or channel''
     | Some key \<Rightarrow>
       if image_bytes image = None then err_json 400 ''invalid base64 image data'' else
       or_error 500 ''failed to save QR code'' (AdminConfigService_Set key image (updated_by c)) (\<lambda>_.
       ok_json 200 [(''key'', GStr key), (''url'', GStr (''/api/v1/public/qrcode/'' @ t))]))"

definition AdminConfigHandler_GetPublicQRCode :: handler where
  "AdminConfigHandler_GetPublicQRCode c = (case qr_key (Param c ''type'') of
       None \<Rightarrow> err_json 404 ''unknown QR type''
     | Some key \<Rightarrow>
       attempt (AdminConfigService_Get key) (\<lambda>r. case r of
         Inl e \<Rightarrow> ret (Status 204)
       | Inr val \<Rightarrow>
         if val = '''' then ret (Status 204) else
         case image_bytes val of
           None \<Rightarrow> ret (Status 204)
         | Some b \<Rightarrow>
           ret (Data 200 (if 2 \<le> length b \<and> of_char (b ! 0) = (255 :: nat) \<and> of_char (b ! 1) = (216 :: nat)
              then ''image/jpeg'' else ''image/png'') b)))"

section \<open>Redemption codes\<close>

record batchCodeRequest =
  bcr_Count :: int
  bcr_ProductID :: string
  bcr_PlanCode :: string
  bcr_DurationDays :: int
  bcr_Notes :: string
  bcr_ExpiresAt :: "time option"

definition expiry_field :: "string \<Rightarrow> (string \<times> json) list \<Rightarrow> time option option" where
  "expiry_field k f = (case map_of f k of None \<Rightarrow> Some None | Some JNull \<Rightarrow> Some None
     | Some (JStr s) \<Rightarrow> map_option Some (parse_rfc3339 s) | _ \<Rightarrow> None)"

definition batch_request :: "(string \<times> json) list \<Rightarrow> batchCodeRequest option" where
  "batch_request f = (case (int_field ''count'' f, str_field ''product_id'' f, str_field ''plan_code'' f, int_field ''duration_days'' f,
      str_field ''notes'' f, expiry_field ''expires_at'' f) of
     (Some n, Some p, Some pc, Some d, Some nt, Some x) \<Rightarrow> Some \<lparr>bcr_Count = n, bcr_ProductID = p, bcr_PlanCode = pc,
        bcr_DurationDays = d, bcr_Notes = nt, bcr_ExpiresAt = x\<rparr>
   | _ \<Rightarrow> None)"

text \<open>\<^verbatim>\<open>time.RFC3339\<close>: whole seconds.\<close>

definition csv_row :: "batchCodeRequest \<Rightarrow> RedemptionCode \<Rightarrow> string list" where
  "csv_row q rc = [rc_Code rc, rc_ProductID rc, bcr_PlanCode q, itoa (bcr_DurationDays q),
     (case rc_ExpiresAt rc of None \<Rightarrow> '''' | Some t \<Rightarrow> format_rfc3339 (t - t mod second_ns)), bcr_Notes q]"

definition AdminOpsHandler_BatchGenerateCodes :: handler where
  "AdminOpsHandler_BatchGenerateCodes c = (case ShouldBindJSON c batch_request of
       None \<Rightarrow> err_json 400 (''invalid request body: '' @ bind_error)
     | Some q \<Rightarrow>
       if bcr_Count q < 1 \<or> 1000 < bcr_Count q then err_json 400 ''count must be between 1 and 1000'' else
       if bcr_ProductID q = '''' then err_json 400 ''product_id is required'' else
       if bcr_PlanCode q = '''' then err_json 400 ''plan_code is required'' else
       if bcr_DurationDays q \<le> 0 then err_json 400 ''duration_days must be positive'' else
       attempt (ReferralService_BulkGenerateCodes (bcr_ProductID q) (bcr_PlanCode q) (bcr_DurationDays q) (bcr_ExpiresAt q)
          (bcr_Notes q) (bcr_Count q)) (\<lambda>r. case r of
         Inl e \<Rightarrow> err_json 500 (''generate codes: '' @ err_text e)
       | Inr cs \<Rightarrow>
         if rq_header c ''Accept'' = ''text/csv''
         then ret (Csv ([''code'', ''product_id'', ''plan_code'', ''duration_days'', ''expires_at'', ''notes''] # map (csv_row q) cs))
         else ret (JSON 200 (GList (map GCode cs)))))"

section \<open>Financial report\<close>

record FinancialReportRow =
  fr_Date :: string
  fr_ProductID :: string
  fr_PaymentMethod :: string
  fr_Count :: int
  fr_GrossCNY :: rat
  fr_RefundsCNY :: rat
  fr_NetCNY :: rat

definition parseDateParam :: "string \<Rightarrow> time \<Rightarrow> string + time" where
  "parseDateParam s defaultVal = (if s = '''' then Inr defaultVal else
     case parse_date s of None \<Rightarrow> Inl (''expected YYYY-MM-DD, got '' @ go_quote s) | Some t \<Rightarrow> Inr t)"

text \<open>
  The aggregation: the paid and refunded orders created in the range, grouped by the first day of
  their day or month, product and method, in the order of the group. Texts are compared bytewise.
\<close>

definition truncated :: "bool \<Rightarrow> time \<Rightarrow> string" where
  "truncated month t = (if month then format_month t @ ''-01'' else format_date t)"

definition report_key :: "bool \<Rightarrow> PaymentOrder \<Rightarrow> string \<times> string \<times> string" where
  "report_key month o1 = (truncated month (ord_CreatedAt o1), ord_ProductID o1, ord_PaymentMethod o1)"

definition sum_amounts :: "string \<Rightarrow> PaymentOrder list \<Rightarrow> rat" where
  "sum_amounts st os = sum_list (map ord_AmountCNY (filter (\<lambda>o1. ord_Status o1 = st) os))"

definition report_row :: "PaymentOrder list \<Rightarrow> string \<times> string \<times> string \<Rightarrow> FinancialReportRow" where
  "report_row os k = (case k of (d, p, m) \<Rightarrow>
     \<lparr>fr_Date = d, fr_ProductID = p, fr_PaymentMethod = m, fr_Count = int (length (filter (\<lambda>o1. ord_Status o1 = OrderStatusPaid) os)),
      fr_GrossCNY = sum_amounts OrderStatusPaid os, fr_RefundsCNY = sum_amounts OrderStatusRefunded os,
      fr_NetCNY = sum_amounts OrderStatusPaid os - sum_amounts OrderStatusRefunded os\<rparr>)"

definition report_rows :: "bool \<Rightarrow> time \<Rightarrow> time \<Rightarrow> PaymentOrder list \<Rightarrow> FinancialReportRow list" where
  "report_rows month from until os =
     (let sel = filter (\<lambda>o1. from \<le> ord_CreatedAt o1 \<and> ord_CreatedAt o1 < until
            \<and> ord_Status o1 \<in> {OrderStatusPaid, OrderStatusRefunded}) os in
      map (\<lambda>k. report_row (filter (\<lambda>o1. report_key month o1 = k) sel) k)
        (map (\<lambda>l. (l ! 0, l ! 1, l ! 2)) (sort (remdups (map (\<lambda>o1. case report_key month o1 of (d, p, m) \<Rightarrow> [d, p, m]) sel)))))"

definition row_json :: "FinancialReportRow \<Rightarrow> gval" where
  "row_json r = GObj [(''date'', GStr (fr_Date r)), (''product_id'', GStr (fr_ProductID r)), (''payment_method'', GStr (fr_PaymentMethod r)),
     (''count'', GInt (fr_Count r)), (''gross_cny'', GNum (fr_GrossCNY r)), (''refunds_cny'', GNum (fr_RefundsCNY r)),
     (''net_cny'', GNum (fr_NetCNY r))]"

definition row_csv :: "FinancialReportRow \<Rightarrow> string list" where
  "row_csv r = [fr_Date r, fr_ProductID r, fr_PaymentMethod r, itoa (fr_Count r), fixed 2 (fr_GrossCNY r), fixed 2 (fr_RefundsCNY r),
     fixed 2 (fr_NetCNY r)]"

definition ReportHandler_FinancialReport :: handler where
  "ReportHandler_FinancialReport c = bind now (\<lambda>n.
     case date_of n of (y, m, d) \<Rightarrow>
     case parseDateParam (Query c ''from'') (go_date y m 1 0) of
       Inl e \<Rightarrow> err_json 400 (''invalid from date: '' @ e)
     | Inr from \<Rightarrow>
     (case parseDateParam (Query c ''to'') n of
       Inl e \<Rightarrow> err_json 400 (''invalid to date: '' @ e)
     | Inr until \<Rightarrow>
       if until < from then err_json 400 ''to must not be before from'' else
       attempt (q_find orders_T (\<lambda>_. True)) (\<lambda>r. case r of
         Inl e \<Rightarrow> err_json 500 (''query failed: '' @ err_text e)
       | Inr os \<Rightarrow>
         let rows = report_rows (DefaultQuery c ''group_by'' ''day'' = ''month'') from (AddDate until 0 0 1) os in
         if rq_header c ''Accept'' = ''text/csv''
         then ret (Csv ([''date'', ''product_id'', ''payment_method'', ''count'', ''gross_cny'', ''refunds_cny'', ''net_cny''] # map row_csv rows))
         else ret (JSON 200 (GList (map row_json rows))))))"

section \<open>Products\<close>

text \<open>
  \<^verbatim>\<open>c.ShouldBindJSON(p)\<close> into an entity: a member that is absent or null leaves the
  field as it is. A configuration written as null counts as absent.
\<close>

definition field_or :: "(json \<Rightarrow> 'a option) \<Rightarrow> 'a \<Rightarrow> string \<Rightarrow> (string \<times> json) list \<Rightarrow> 'a option" where
  "field_or f d k kvs = (case map_of kvs k of None \<Rightarrow> Some d | Some JNull \<Rightarrow> Some d | Some j \<Rightarrow> f j)"

definition as_int :: "int \<Rightarrow> json \<Rightarrow> int option" where
  "as_int bits j = (case j of JNum x \<Rightarrow> (if is_dec 0 x \<and> - (2 ^ nat (bits - 1)) \<le> \<lfloor>x\<rfloor> \<and> \<lfloor>x\<rfloor> < 2 ^ nat (bits - 1) then Some \<lfloor>x\<rfloor> else None) | _ \<Rightarrow> None)"

definition as_num :: "json \<Rightarrow> rat option" where
  "as_num j = (case j of JNum x \<Rightarrow> Some x | _ \<Rightarrow> None)"

definition as_bool :: "json \<Rightarrow> bool option" where
  "as_bool j = (case j of JBool b \<Rightarrow> Some b | _ \<Rightarrow> None)"

definition as_time :: "json \<Rightarrow> time option" where
  "as_time j = (case j of JStr s \<Rightarrow> parse_rfc3339 s | _ \<Rightarrow> None)"

definition product_into :: "Product \<Rightarrow> (string \<times> json) list \<Rightarrow> Product option" where
  "product_into p f = (case (field_or text_of (prd_ID p) ''id'' f, field_or text_of (prd_Name p) ''name'' f,
      field_or text_of (prd_Description p) ''description'' f, field_or text_of (prd_Category p) ''category'' f,
      field_or text_of (prd_BillingModel p) ''billing_model'' f, field_or (as_int 16) (prd_Status p) ''status'' f,
      field_or (as_int 64) (prd_SortOrder p) ''sort_order'' f, field_or Some (prd_Config p) ''config'' f) of
     (Some i, Some n, Some d, Some ca, Some bm, Some st, Some so, Some cfg) \<Rightarrow> Some \<lparr>prd_ID = i, prd_Name = n, prd_Description = d,
        prd_Category = ca, prd_BillingModel = bm, prd_Status = st, prd_SortOrder = so, prd_Config = cfg\<rparr>
   | _ \<Rightarrow> None)"

definition plan_into :: "ProductPlan \<Rightarrow> (string \<times> json) list \<Rightarrow> ProductPlan option" where
  "plan_into p f = (case (field_or (as_int 64) (plan_ID p) ''id'' f, field_or text_of (plan_ProductID p) ''product_id'' f,
      field_or text_of (plan_Code p) ''code'' f, field_or text_of (plan_Name p) ''name'' f,
      field_or text_of (plan_BillingCycle p) ''billing_cycle'' f, field_or as_num (plan_PriceCNY p) ''price_cny'' f,
      field_or as_num (plan_PriceUSD p) ''price_usd'' f, field_or as_bool (plan_IsDefault p) ''is_default'' f,
      field_or (as_int 64) (plan_SortOrder p) ''sort_order'' f, field_or (as_int 16) (plan_Status p) ''status'' f,
      field_or Some (plan_Features p) ''features'' f, field_or as_time (plan_CreatedAt p) ''created_at'' f,
      field_or as_time (plan_UpdatedAt p) ''updated_at'' f) of
     (Some i, Some pr, Some co, Some n, Some bc, Some cny, Some usd, Some df, Some so, Some st, Some fe, Some ca, Some ua) \<Rightarrow>
       Some \<lparr>plan_ID = i, plan_ProductID = pr, plan_Code = co, plan_Name = n, plan_BillingCycle = bc, plan_PriceCNY = cny,
         plan_PriceUSD = usd, plan_IsDefault = df, plan_SortOrder = so, plan_Status = st, plan_Features = fe,
         plan_CreatedAt = ca, plan_UpdatedAt = ua\<rparr>
   | _ \<Rightarrow> None)"

definition ProductHandler_AdminCreateProduct :: handler where
  "ProductHandler_AdminCreateProduct c =
     with_body c (product_into Product0) (\<lambda>p.
     or_text 500 (ProductService_CreateProduct p) (\<lambda>p1.
     ret (JSON 201 (GProduct p1))))"

definition ProductHandler_AdminUpdateProduct :: handler where
  "ProductHandler_AdminUpdateProduct c =
     or_missing 404 ''product not found'' (ProductService_GetByID (Param c ''id'')) (\<lambda>p.
     with_body c (product_into p) (\<lambda>p1.
     or_text 500 (ProductService_UpdateProduct p1) (\<lambda>p2.
     ret (JSON 200 (GProduct p2)))))"

definition ProductHandler_AdminCreatePlan :: handler where
  "ProductHandler_AdminCreatePlan c =
     with_body c (plan_into ProductPlan0) (\<lambda>plan.
     or_text 500 (ProductService_CreatePlan (plan\<lparr>plan_ProductID := Param c ''id''\<rparr>)) (\<lambda>p1.
     ret (JSON 201 (GPlan p1))))"

definition ProductHandler_AdminUpdatePlan :: handler where
  "ProductHandler_AdminUpdatePlan c =
     with_id c ''id'' ''invalid plan id'' (\<lambda>i.
     or_missing 404 ''plan not found'' (ProductService_GetPlanByID i) (\<lambda>plan.
     with_body c (plan_into plan) (\<lambda>p1.
     or_text 500 (ProductService_UpdatePlan p1) (\<lambda>p2.
     ret (JSON 200 (GPlan p2))))))"

end
