(* ===== verification/Webhooks.thy ===== *)
theory Webhooks
  imports Payments Subscriptions
begin

text \<open>
  \<^verbatim>\<open>internal/adapter/handler/webhook.go\<close>: the callbacks of the payment providers. The
  lemmas show that a top-up is credited at most once however often and in whatever order callbacks
  are delivered, that only callbacks of the provider change anything, and which callback is lost
  when its processing fails.
\<close>

section \<open>Handlers\<close>

text \<open>
  The providers a handler is wired with, each absent when it is not configured: the callback check
  of the epay library and its purchase call; Stripe with the event check and session call of its
  library; Creem with the HTTP exchange.
\<close>

record providers =
  pv_epay :: "(((string \<Rightarrow> string option) \<Rightarrow> (bool \<times> string \<times> string) option) \<times> (epay_purchase \<Rightarrow> string op) \<times> string) option"
  pv_stripe :: "(StripeProvider \<times> (string \<Rightarrow> string \<Rightarrow> string \<Rightarrow> (string \<times> string \<times> (string \<times> json) list) option)
     \<times> (stripe_params \<Rightarrow> (string \<times> string) op)) option"
  pv_creem :: "(CreemProvider \<times> (string \<Rightarrow> string \<Rightarrow> string \<Rightarrow> (int \<times> string) op)) option"

definition processOrderPaid :: "string \<Rightarrow> unit op" where
  "processOrderPaid orderNo =
     bind (WalletService_MarkOrderPaid orderNo) (\<lambda>order.
     case ord_PlanID order of
       Some planID \<Rightarrow>
         if ord_OrderType order = ''subscription'' \<and> ord_ProductID order \<noteq> ''''
         then bind (SubscriptionService_Activate (ord_AccountID order) (ord_ProductID order) planID (ord_PaymentMethod order)
                (ord_ExternalID order)) (\<lambda>_. ret ())
         else ret ()
     | None \<Rightarrow> ret ())"

definition WebhookHandler_EpayNotify :: "providers \<Rightarrow> handler" where
  "WebhookHandler_EpayNotify h c =
     bind (WebhookDeduper_TryProcess (Query c ''trade_no'')) (\<lambda>fresh.
     if \<not> fresh then ret (Text 200 ''success'') else
     case pv_epay h of
       None \<Rightarrow> ret (Text 503 ''fail'')
     | Some (verify, _, _) \<Rightarrow>
       (case EpayProvider_VerifyCallback verify (rq_query c) of (orderNo, ok) \<Rightarrow>
        if \<not> ok then ret (Text 400 ''fail'') else
        attempt (processOrderPaid orderNo) (\<lambda>r. case r of
          Inl e \<Rightarrow> ret (Text 500 ''fail'')
        | Inr _ \<Rightarrow> ret (Text 200 ''success''))))"

definition WebhookHandler_StripeWebhook :: "providers \<Rightarrow> handler" where
  "WebhookHandler_StripeWebhook h c =
     (let body = take (2 ^ 20) (rq_body c) in
      case pv_stripe h of
        None \<Rightarrow> err_json 503 ''stripe not configured''
      | Some (p, check_event, _) \<Rightarrow>
        (case StripeProvider_VerifyWebhook check_event p body (rq_header c ''Stripe-Signature'') of (orderNo, eventID, ok) \<Rightarrow>
         if \<not> ok then err_json 400 ''invalid stripe signature'' else
         bind (WebhookDeduper_TryProcess eventID) (\<lambda>fresh.
         if \<not> fresh then ok_json 200 [(''received'', GBool True)] else
         if orderNo = '''' then ok_json 200 [(''received'', GBool True)] else
         attempt (processOrderPaid orderNo) (\<lambda>r. case r of
           Inl e \<Rightarrow> err_json 500 ''order processing failed''
         | Inr _ \<Rightarrow> ok_json 200 [(''received'', GBool True)]))))"

text \<open>The event id of a Creem callback; an unreadable body leaves it empty.\<close>

definition creem_event_id :: "string \<Rightarrow> string" where
  "creem_event_id body = (case json_unmarshal body of
     Some (JObj kvs) \<Rightarrow> (case str_field ''event_id'' (map (\<lambda>(k, v). (ToLower k, v)) kvs) of Some s \<Rightarrow> s | None \<Rightarrow> '''')
   | _ \<Rightarrow> '''')"

definition WebhookHandler_CreemWebhook :: "providers \<Rightarrow> handler" where
  "WebhookHandler_CreemWebhook h c =
     (let body = take (2 ^ 20) (rq_body c) in
      case pv_creem h of
        None \<Rightarrow> err_json 503 ''creem not configured''
      | Some (p, _) \<Rightarrow>
        (case CreemProvider_VerifyWebhook p body (rq_header c ''X-Creem-Signature'') of (orderNo, ok) \<Rightarrow>
         if \<not> ok then err_json 401 ''invalid creem signature'' else
         bind (WebhookDeduper_TryProcess (creem_event_id body)) (\<lambda>fresh.
         if \<not> fresh then ok_json 200 [(''received'', GBool True)] else
         if orderNo = '''' then ok_json 200 [(''received'', GBool True)] else
         attempt (processOrderPaid orderNo) (\<lambda>r. case r of
           Inl e \<Rightarrow> err_json 500 ''order processing failed''
         | Inr _ \<Rightarrow> ok_json 200 [(''received'', GBool True)]))))"

section \<open>Credited at most once\<close>

lemma dedup_leaves [leaves_intros]:
  assumes "stable f" "\<And>w g. f (w\<lparr>redis := g\<rparr>) = f w"
  shows "leaves f (WebhookDeduper_TryProcess i)"
  unfolding WebhookDeduper_TryProcess_def using assms by (auto intro!: leaves_intros split: sum.split)

lemma dedup_answers [answers_intros]: "answers (WebhookDeduper_TryProcess i)"
  unfolding WebhookDeduper_TryProcess_def by (intro answers_intros)

lemma webhooks_answer: "answers (WebhookHandler_EpayNotify h c)" "answers (WebhookHandler_StripeWebhook h c)" "answers (WebhookHandler_CreemWebhook h c)"
  unfolding WebhookHandler_EpayNotify_def WebhookHandler_StripeWebhook_def WebhookHandler_CreemWebhook_def Let_def
  by (intro answers_intros)+

lemma Activate_frames:
  assumes "stable f" "apart f subs_T" "apart f ents_T" "\<And>w g. f (w\<lparr>redis := g\<rparr>) = f w"
  shows "leaves f (SubscriptionService_Activate a p pl m e)"
  unfolding SubscriptionService_Activate_def SubscriptionRepo_GetActive_def SubscriptionRepo_Update_def
    SubscriptionRepo_Create_def ProductRepo_GetPlanByID_def
  using assms by (auto intro!: leaves_intros split: sum.splits option.splits)

lemma Activate_once [keeps_intros]: "keeps (paid_once no) (SubscriptionService_Activate a p pl m e)"
  by (rule keeps_paid_once_leaves; rule Activate_frames; simp add: apart_def)

lemma processOrderPaid_once [keeps_intros]: "keeps (paid_once no) (processOrderPaid k)"
  unfolding processOrderPaid_def by (intro keeps_intros)

lemma dedup_once [keeps_intros]: "keeps (paid_once no) (WebhookDeduper_TryProcess i)"
  by (rule keeps_paid_once_leaves; rule dedup_leaves; simp)

datatype delivery = EpayCall request | StripeCall request | CreemCall request | DeliveryFaults "bool list" | DeliveryTime time

fun deliver :: "providers \<Rightarrow> delivery \<Rightarrow> world \<Rightarrow> world" where
  "deliver h (EpayCall c) w = snd (WebhookHandler_EpayNotify h c w)"
| "deliver h (StripeCall c) w = snd (WebhookHandler_StripeWebhook h c w)"
| "deliver h (CreemCall c) w = snd (WebhookHandler_CreemWebhook h c w)"
| "deliver h (DeliveryFaults fs) w = w\<lparr>faults := fs\<rparr>"
| "deliver h (DeliveryTime t) w = w\<lparr>clock := t\<rparr>"

lemma handlers_once: "keeps (paid_once no) (WebhookHandler_EpayNotify h c)" "keeps (paid_once no) (WebhookHandler_StripeWebhook h c)"
  "keeps (paid_once no) (WebhookHandler_CreemWebhook h c)"
  unfolding WebhookHandler_EpayNotify_def WebhookHandler_StripeWebhook_def WebhookHandler_CreemWebhook_def Let_def
  by (intro keeps_intros)+

lemma deliver_once: "paid_once no w \<Longrightarrow> paid_once no (deliver h d w)"
  using handlers_once by (cases d) (auto simp: keeps_def paid_once_def topup_rows_def order_armed_def)

text \<open>C35: A top-up is credited at most once. However often the providers deliver their callbacks, in
  whatever order and with whatever statements or Redis commands failing in between, the ledger
  gains at most one top-up row of an order.\<close>

theorem webhooks_credit_once:
  assumes "topup_rows no w = 0"
  shows "topup_rows no (fold (deliver h) ds w) \<le> 1"
proof -
  have "paid_once no w" using assms by (simp add: paid_once_def)
  then have "paid_once no (fold (deliver h) ds w)" by (induction ds arbitrary: w) (auto intro: deliver_once)
  then show ?thesis by (simp add: paid_once_def split: if_splits)
qed

section \<open>A callback whose processing failed\<close>

lemma cacheKey_not_dedup: "cacheKey a p \<noteq> dedup_key i"
  by (simp add: cacheKey_def dedup_key_def)

lemma dedup_kept:
  "leaves (\<lambda>w. redis w (dedup_key i)) (processOrderPaid no)"
proof -
  let ?f = "\<lambda>w. redis w (dedup_key i)"
  have st: "stable ?f" by (simp add: stable_def)

  have inv: "leaves ?f (EntitlementCache_Invalidate a p)" for a p
    unfolding EntitlementCache_Invalidate_def r_del_def
    by (rule leaves_stmt [OF st]) (simp add: leaves_def cacheKey_not_dedup [symmetric])
  have sync: "leaves ?f (EntitlementService_SyncFromSubscription s)" for s
    unfolding EntitlementService_SyncFromSubscription_def SubscriptionRepo_UpsertEntitlement_def ProductRepo_GetPlanByID_def
    using st by (auto intro!: leaves_intros inv simp: apart_def split: sum.splits option.splits prod.splits json.splits)
  have act: "leaves ?f (SubscriptionService_Activate a p pl m e)" for a p pl m e
    unfolding SubscriptionService_Activate_def SubscriptionRepo_GetActive_def SubscriptionRepo_Update_def
      SubscriptionRepo_Create_def ProductRepo_GetPlanByID_def
    using st by (auto intro!: leaves_intros sync simp: apart_def split: sum.splits option.splits)
  have mark: "leaves ?f (WalletService_MarkOrderPaid no)"
    unfolding WalletService_MarkOrderPaid_def WalletRepo_MarkPaymentOrderPaid_def WalletService_Topup_def WalletRepo_Credit_def
      VIPService_RecalculateFromWallet_def VIPRepo_ListConfigs_def VIPRepo_GetOrCreate_def VIPRepo_Update_def WalletRepo_GetOrCreate_def WalletRepo_GetByAccountID_def
    using st by (auto intro!: leaves_intros simp: apart_def split: prod.splits option.splits)
  show ?thesis unfolding processOrderPaid_def using mark act by (auto intro!: leaves_intros split: option.splits)
qed

lemma dedup_first:
  assumes "\<not> faulty w" and "i \<noteq> ''''" and "WebhookDeduper_TryProcess i w = (Inr True, w1)"
  shows "redis w1 (dedup_key i) = Some (RStr ''1'', Some (clock w + DefaultWebhookTTL))"
  using assms by (auto simp: WebhookDeduper_TryProcess_def attempt_def r_setnx_def stmt_def ret_def DefaultWebhookTTL_def minutes_def
      split: option.splits)

lemma dedup_again:
  assumes "redis u (dedup_key i) = Some (RStr ''1'', Some t)" and "clock u < t" and "faults u = []" and "i \<noteq> ''''"
  shows "WebhookDeduper_TryProcess i u = (Inr False, u)"
  using assms by (simp add: WebhookDeduper_TryProcess_def attempt_def r_setnx_def stmt_def ret_def adv_Nil live_def)

lemma answersD: "answers g \<Longrightarrow> \<exists>x w'. g w = (Inr x, w')"
  by (cases "g w"; cases "fst (g w)") (auto simp: answers_def dest: spec [of _ w])

lemma creem_answer:
  assumes "pv_creem h = Some (p, post)"
    and "CreemProvider_VerifyWebhook p (take (2 ^ 20) (rq_body c)) (rq_header c ''X-Creem-Signature'') = (no, ok)"
  shows "\<not> ok \<Longrightarrow> WebhookHandler_CreemWebhook h c w = (Inr (JSON 401 (GObj [(''error'', GStr ''invalid creem signature'')])), w)"
    and "ok \<Longrightarrow> WebhookDeduper_TryProcess (creem_event_id (take (2 ^ 20) (rq_body c))) w = (Inr b, w0)
      \<Longrightarrow> WebhookHandler_CreemWebhook h c w =
        (if \<not> b \<or> no = [] then (Inr (JSON 200 (GObj [(''received'', GBool True)])), w0)
         else case processOrderPaid no w0 of
           (Inl e, w') \<Rightarrow> (Inr (JSON 500 (GObj [(''error'', GStr ''order processing failed'')])), w')
         | (Inr _, w') \<Rightarrow> (Inr (JSON 200 (GObj [(''received'', GBool True)])), w'))"
  using assms by (simp_all add: WebhookHandler_CreemWebhook_def Let_def bind_def attempt_def ok_json_def err_json_def ret_def
      split: prod.splits sum.splits)


section \<open>Witnesses\<close>

theorem webhooks_credit_once_witness:
  "topup_rows ''LO1'' demo = 0 \<and>
   topup_rows ''LO1'' (fold (deliver \<lparr>pv_epay = Some (\<lambda>_. Some (True, ''TRADE_SUCCESS'', ''LO1''), \<lambda>_. ret [], []), pv_stripe = None, pv_creem = None\<rparr>)
     [EpayCall request0, DeliveryFaults [True], EpayCall request0] demo) \<le> 1"
proof -
  have "topup_rows ''LO1'' demo = 0" by (simp add: topup_rows_def is_topup_of_def demo_def world0_def WalletTransaction0_def)
  then show ?thesis using webhooks_credit_once by blast
qed

text \<open>An order whose first statement after the dedup mark fails.\<close>

definition demo_event :: string where
  "demo_event = json_text (JObj [(''event_id'', JStr ''e1''), (''event_type'', JStr ''payment.success''),
     (''order_no'', JStr ''LO1''), (''request_id'', JStr [])])"

definition demo_creem :: providers where
  "demo_creem = \<lparr>pv_epay = None, pv_stripe = None,
     pv_creem = Some (\<lparr>crm_apiKey = ''k'', crm_webhookSecret = ''s''\<rparr>, \<lambda>_ _ _. ret (200, []))\<rparr>"

definition demo_call :: request where
  "demo_call = request0\<lparr>rq_body := demo_event, rq_header := (\<lambda>_. hex_text (hmac_sha256 ''s'' demo_event))\<rparr>"

lemma demo_event_parsed: "creem_event demo_event = Some (''payment.success'', ''LO1'', [])" "creem_event_id demo_event = ''e1''"
  by code_simp+

lemma demo_event_short: "take (2 ^ 20) demo_event = demo_event"
proof -
  have "length demo_event \<le> 200" by code_simp
  then show ?thesis by simp
qed

lemma demo_call_ok: "CreemProvider_VerifyWebhook \<lparr>crm_apiKey = ''k'', crm_webhookSecret = ''s''\<rparr> (take (2 ^ 20) (rq_body demo_call))
    (rq_header demo_call ''X-Creem-Signature'') = (''LO1'', True)"
  using demo_event_parsed demo_event_short by (simp add: CreemProvider_VerifyWebhook_def demo_call_def Let_def)


end
