(* ===== verification/RateLimit.thy ===== *)
theory RateLimit
  imports Redis Calendar
begin

text \<open>
  \<^verbatim>\<open>internal/pkg/ratelimit/limiter.go\<close>: the sliding-window limiter over Redis sorted
  sets and the two middlewares built on it. The lemmas characterise the decisions of a run of
  requests by their times alone and bound what a window admits. A score is kept as the exact
  nanosecond; Redis compares doubles, which differ from it by less than a microsecond.
\<close>

section \<open>Sorted sets\<close>

definition zset :: "string \<Rightarrow> world \<Rightarrow> (int \<times> string) list option" where
  "zset k w = (case live k w of None \<Rightarrow> Some [] | Some (RZSet z) \<Rightarrow> Some z | Some _ \<Rightarrow> None)"

text \<open>The rest of a key's time to live stays as it is when its members change; an empty set is no key.\<close>

definition put_zset :: "string \<Rightarrow> (int \<times> string) list \<Rightarrow> world \<Rightarrow> world" where
  "put_zset k z w = (let t = (case live k w of None \<Rightarrow> None | Some _ \<Rightarrow> (case redis w k of None \<Rightarrow> None | Some (_, t) \<Rightarrow> t)) in
     w\<lparr>redis := (redis w)(k := if z = [] then None else Some (RZSet z, t))\<rparr>)"

definition z_rem_range_by_score :: "string \<Rightarrow> int \<Rightarrow> int \<Rightarrow> unit op" where
  "z_rem_range_by_score k lo hi = stmt ERedis (\<lambda>w. case zset k w of
      None \<Rightarrow> (Inl ERedis, w)
    | Some z \<Rightarrow> (Inr (), put_zset k (filter (\<lambda>(s, m). \<not> (lo \<le> s \<and> s \<le> hi)) z) w))"

definition z_card :: "string \<Rightarrow> int op" where
  "z_card k = stmt ERedis (\<lambda>w. case zset k w of None \<Rightarrow> (Inl ERedis, w) | Some z \<Rightarrow> (Inr (int (length z)), w))"

definition z_add :: "string \<Rightarrow> int \<Rightarrow> string \<Rightarrow> unit op" where
  "z_add k s m = stmt ERedis (\<lambda>w. case zset k w of
      None \<Rightarrow> (Inl ERedis, w)
    | Some z \<Rightarrow> (Inr (), put_zset k (filter (\<lambda>(_, n). n \<noteq> m) z @ [(s, m)]) w))"

definition r_expire :: "string \<Rightarrow> time \<Rightarrow> unit op" where
  "r_expire k ttl = stmt ERedis (\<lambda>w. case live k w of
      None \<Rightarrow> (Inr (), w)
    | Some v \<Rightarrow> (Inr (), w\<lparr>redis := (redis w)(k \<mapsto> (v, Some (clock w + ttl)))\<rparr>))"

section \<open>The limiter\<close>

record Config =
  rl_IPLimit :: int
  rl_UserLimit :: int
  rl_Window :: time

definition DefaultConfig :: "int \<Rightarrow> int \<Rightarrow> Config" where
  "DefaultConfig ipPerMinute userPerMinute = \<lparr>rl_IPLimit = ipPerMinute, rl_UserLimit = userPerMinute, rl_Window = minutes 1\<rparr>"

text \<open>
  \<^verbatim>\<open>pipe.Exec\<close> sends the four commands together: each of them runs whether or not another
  one failed, and the call returns the first error.
\<close>

definition Limiter_allow :: "string \<Rightarrow> int \<Rightarrow> time \<Rightarrow> bool op" where
  "Limiter_allow key cap window =
     bind now (\<lambda>n.
     attempt (z_rem_range_by_score key 0 (n - window)) (\<lambda>r1.
     attempt (z_card key) (\<lambda>countCmd.
     attempt (z_add key n (itoa n)) (\<lambda>r3.
     attempt (r_expire key (window + second_ns)) (\<lambda>r4.
     case (r1, countCmd, r3, r4) of
       (Inr _, Inr c, Inr _, Inr _) \<Rightarrow> ret (c < cap)
     | _ \<Rightarrow> ret True)))))"

text \<open>
  A middleware answers the request itself (\<open>Some\<close> status, header and body) or passes it on
  (\<open>None\<close>). \<open>rdb\<close> says whether the limiter has a Redis client.
\<close>

record limited =
  lim_Status :: int
  lim_RetryAfter :: string
  lim_Body :: json

definition too_many :: "time \<Rightarrow> limited" where
  "too_many window = (let retryAfter = window div second_ns in
     \<lparr>lim_Status = 429, lim_RetryAfter = itoa retryAfter,
      lim_Body = JObj [(''error'', JStr ''rate limit exceeded''), (''retry_after'', JNum (of_int retryAfter))]\<rparr>)"

definition Limiter_PerIP :: "bool \<Rightarrow> Config \<Rightarrow> string \<Rightarrow> limited option op" where
  "Limiter_PerIP rdb cfg ip =
     (if \<not> rdb then ret None else
      bind (Limiter_allow (''rl:ip:'' @ ip) (rl_IPLimit cfg) (rl_Window cfg)) (\<lambda>ok.
      ret (if ok then None else Some (too_many (rl_Window cfg)))))"

definition Limiter_PerUser :: "bool \<Rightarrow> Config \<Rightarrow> int option \<Rightarrow> limited option op" where
  "Limiter_PerUser rdb cfg account =
     (if \<not> rdb then ret None else
      case account of
        None \<Rightarrow> ret None
      | Some accountID \<Rightarrow>
        if accountID = 0 then ret None else
        bind (Limiter_allow (''rl:user:'' @ itoa accountID) (rl_UserLimit cfg) (rl_Window cfg)) (\<lambda>ok.
        ret (if ok then None else Some (too_many (rl_Window cfg)))))"

section \<open>A run of requests\<close>

text \<open>Requests under one key arriving at the given times, and which of them are let through.\<close>

fun hits :: "string \<Rightarrow> int \<Rightarrow> time \<Rightarrow> time list \<Rightarrow> world \<Rightarrow> bool list" where
  "hits key cap window [] w = []"
| "hits key cap window (t # ts) w = (case Limiter_allow key cap window (w\<lparr>clock := t\<rparr>) of
     (r, w1) \<Rightarrow> (r = Inr True) # hits key cap window ts w1)"

text \<open>
  The decision as a function of the times: a request passes if fewer than \<open>cap\<close> requests came
  before it within the window, passed or not.
\<close>

fun window_rule :: "int \<Rightarrow> time \<Rightarrow> time list \<Rightarrow> time list \<Rightarrow> bool list" where
  "window_rule cap window past [] = []"
| "window_rule cap window past (t # ts) =
     (int (length (filter (\<lambda>s. t - window < s) past)) < cap) # window_rule cap window (past @ [t]) ts"

text \<open>What the key holds after requests at the times \<open>past\<close>.\<close>

definition tracks :: "string \<Rightarrow> time \<Rightarrow> time list \<Rightarrow> world \<Rightarrow> bool" where
  "tracks key window past w \<longleftrightarrow> faults w = [] \<and> (\<forall>s\<in>set past. 0 \<le> s \<and> s \<le> last past) \<and>
     redis w key = (if past = [] then None else Some (RZSet (map (\<lambda>s. (s, itoa s)) (filter (\<lambda>s. last past - window < s) past)),
        Some (last past + (window + second_ns))))"

lemma tracks_zset:
  assumes "tracks key window past w" and "\<forall>s\<in>set past. s < t" and "0 < window"
  shows "\<exists>z. zset key (w\<lparr>clock := t\<rparr>) = Some z
    \<and> filter (\<lambda>(s, m). \<not> (0 \<le> s \<and> s \<le> t - window)) z = map (\<lambda>s. (s, itoa s)) (filter (\<lambda>s. t - window < s) past)"
proof (cases "past = [] \<or> last past + (window + second_ns) \<le> t")
  case True
  then have "filter (\<lambda>s. t - window < s) past = []" using assms(1) by (force simp: tracks_def second_ns_def filter_empty_conv)
  moreover have "zset key (w\<lparr>clock := t\<rparr>) = Some []" using assms(1) True by (auto simp: tracks_def zset_def live_def)
  ultimately show ?thesis by simp
next
  case False
  then have "zset key (w\<lparr>clock := t\<rparr>) = Some (map (\<lambda>s. (s, itoa s)) (filter (\<lambda>s. last past - window < s) past))"
    using assms(1) by (auto simp: tracks_def zset_def live_def)
  moreover have "last past < t" using False assms(2) by simp
  then have "filter (\<lambda>(s, m). \<not> (0 \<le> s \<and> s \<le> t - window)) (map (\<lambda>s. (s, itoa s)) (filter (\<lambda>s. last past - window < s) past))
      = map (\<lambda>s. (s, itoa s)) (filter (\<lambda>s. t - window < s) past)"
    using assms(1) by (auto simp: tracks_def filter_map comp_def intro!: arg_cong [of _ _ "map _"] filter_cong)
  ultimately show ?thesis by blast
qed

lemma zset_put [simp]: "zset k (put_zset k z w) = Some z"
  by (auto simp: zset_def put_zset_def live_def Let_def split: option.splits)

lemma put_zset_simps [simp]: "faults (put_zset k z w) = faults w" "clock (put_zset k z w) = clock w"
  by (simp_all add: put_zset_def Let_def)

lemma digits_itoa_inj: "itoa a = itoa b \<longleftrightarrow> a = b"
  by (rule itoa_eq)

lemma live_zset: "zset k w = Some z \<Longrightarrow> live k w = None \<and> z = [] \<or> live k w = Some (RZSet z)"
  by (auto simp: zset_def split: option.splits rval.splits)

lemma allow_step:
  assumes tr: "tracks key window past w" and t: "\<forall>s\<in>set past. s < t" "0 \<le> t" and win: "0 < window"
  obtains w1 where "Limiter_allow key cap window (w\<lparr>clock := t\<rparr>)
      = (Inr (int (length (filter (\<lambda>s. t - window < s) past)) < cap), w1)" "tracks key window (past @ [t]) w1"
proof -
  let ?w = "w\<lparr>clock := t\<rparr>" and ?f = "filter (\<lambda>s. t - window < s) past"
  let ?m = "map (\<lambda>s. (s, itoa s))"
  have nf: "faults ?w = []" using tr by (simp add: tracks_def)
  obtain z where z: "zset key ?w = Some z" "filter (\<lambda>(s, m). \<not> (0 \<le> s \<and> s \<le> t - window)) z = ?m ?f"
    using tracks_zset [OF tr t(1) win] by blast
  let ?w1 = "put_zset key (?m ?f) ?w"
  have a1: "z_rem_range_by_score key 0 (t - window) ?w = (Inr (), ?w1)"
    using nf z by (simp add: z_rem_range_by_score_def stmt_def adv_Nil)
  have a2: "z_card key ?w1 = (Inr (int (length ?f)), ?w1)" using nf by (simp add: z_card_def stmt_def adv_Nil)
  have new: "filter (\<lambda>(_, n). n \<noteq> itoa t) (?m ?f) = ?m ?f" using t by (auto simp: filter_id_conv digits_itoa_inj)
  let ?w2 = "put_zset key (?m (?f @ [t])) ?w1"
  have a3: "z_add key t (itoa t) ?w1 = (Inr (), ?w2)"
    using nf new by (simp add: z_add_def stmt_def adv_Nil)
  have "zset key ?w2 = Some (?m (?f @ [t]))" by (rule zset_put)
  then have l: "live key ?w2 = Some (RZSet (?m (?f @ [t])))" using live_zset by fastforce
  let ?w3 = "?w2\<lparr>redis := (redis ?w2)(key \<mapsto> (RZSet (?m (?f @ [t])), Some (t + (window + second_ns))))\<rparr>"
  have a4: "r_expire key (window + second_ns) ?w2 = (Inr (), ?w3)" using nf l by (simp add: r_expire_def stmt_def adv_Nil)
  have "Limiter_allow key cap window ?w = (Inr (int (length ?f) < cap), ?w3)"
    by (simp add: Limiter_allow_def bind_def attempt_def now_def ret_def a1 a2 a3 a4 del: map_append filter_append)
  moreover have "tracks key window (past @ [t]) ?w3" using nf tr t win by (force simp: tracks_def)
  ultimately show thesis by (rule that)
qed

lemma hits_rule:
  "tracks key window past w \<Longrightarrow> sorted_wrt (<) (past @ ts) \<Longrightarrow> \<forall>t\<in>set ts. 0 \<le> t \<Longrightarrow> 0 < window \<Longrightarrow>
   hits key cap window ts w = window_rule cap window past ts"
proof (induction ts arbitrary: past w)
  case (Cons t ts)
  have "\<forall>s\<in>set past. s < t" "0 \<le> t" using Cons.prems(2,3) by (auto simp: sorted_wrt_append)
  then obtain w1 where w1: "Limiter_allow key cap window (w\<lparr>clock := t\<rparr>)
      = (Inr (int (length (filter (\<lambda>s. t - window < s) past)) < cap), w1)" "tracks key window (past @ [t]) w1"
    using allow_step [OF Cons.prems(1) _ _ Cons.prems(4)] by blast
  show ?case using Cons.IH [OF w1(2)] Cons.prems(2-4) w1(1) by simp
qed simp

text \<open>The requests let through within one window.\<close>

definition passed :: "time \<Rightarrow> time \<Rightarrow> time list \<Rightarrow> bool list \<Rightarrow> time list" where
  "passed a b ts oks = map fst (filter (\<lambda>(t, ok). ok \<and> a \<le> t \<and> t < b) (zip ts oks))"

lemma window_rule_bound:
  assumes "sorted_wrt (<) (past @ ts)" and "0 \<le> cap" and "p \<subseteq> {s \<in> set past. a \<le> s \<and> s < a + window}" and "int (card p) \<le> cap"
  shows "int (card (p \<union> set (passed a (a + window) ts (window_rule cap window past ts)))) \<le> cap"
  using assms
proof (induction ts arbitrary: past p)
  case (Cons t ts)
  let ?ok = "int (length (filter (\<lambda>s. t - window < s) past)) < cap"
  let ?p = "if ?ok \<and> a \<le> t \<and> t < a + window then insert t p else p"
  have srt: "sorted_wrt (<) past" "\<forall>s\<in>set past. s < t" using Cons.prems(1) by (auto simp: sorted_wrt_append)
  have fin: "finite p" using Cons.prems(3) by (rule finite_subset) simp
  have "int (card ?p) \<le> cap"
  proof (cases "?ok \<and> a \<le> t \<and> t < a + window")
    case True
    have "p \<subseteq> set (filter (\<lambda>s. t - window < s) past)" using Cons.prems(3) True by auto
    then have "card p \<le> length (filter (\<lambda>s. t - window < s) past)"
      by (meson List.finite_set card_length card_mono le_trans)
    then show ?thesis using True fin Cons.prems(4) by (simp add: card_insert_if)
  qed (use Cons.prems(4) in auto)
  moreover have "?p \<subseteq> {s \<in> set (past @ [t]). a \<le> s \<and> s < a + window}" using Cons.prems(3) by auto
  ultimately have "int (card (?p \<union> set (passed a (a + window) ts (window_rule cap window (past @ [t]) ts)))) \<le> cap"
    using Cons.IH [of "past @ [t]" ?p] Cons.prems(1,2) by simp
  moreover have "p \<union> set (passed a (a + window) (t # ts) (window_rule cap window past (t # ts)))
      = ?p \<union> set (passed a (a + window) ts (window_rule cap window (past @ [t]) ts))"
    by (auto simp: passed_def)
  ultimately show ?case by (rule ssubst [rotated])
qed (simp add: passed_def)



end
