(* ===== verification/Routes.thy ===== *)
theory Routes
  imports AdminHandlers Webhooks RateLimit
begin

text \<open>
  \<^verbatim>\<open>internal/adapter/handler/router/router.go\<close>: the routes of the service and the
  middlewares in front of them. A request is a method, a path and the rest; the lemmas show what
  the routes of the user API can do to the money of other accounts. Logging, CORS headers and
  redirects of paths with a trailing slash are left out, as are the routes of the login, WeChat
  and registration handlers and of the proxy.
\<close>

section \<open>Routes\<close>

text \<open>A pattern is a list of segments; one that starts with a colon binds a nonempty segment.\<close>

fun match_path :: "string list \<Rightarrow> string list \<Rightarrow> (string \<times> string) list option" where
  "match_path [] [] = Some []"
| "match_path (p # ps) (s # ss) =
     (if p \<noteq> '''' \<and> hd p = CHR '':'' then (if s = '''' then None else map_option ((#) (tl p, s)) (match_path ps ss))
      else if p = s then match_path ps ss else None)"
| "match_path _ _ = None"

type_synonym route = "string \<times> string \<times> handler"

text \<open>Of two matching patterns the one with the earlier fixed segment comes first in the list.\<close>

fun find_route :: "route list \<Rightarrow> string \<Rightarrow> string list \<Rightarrow> (handler \<times> (string \<times> string) list) option" where
  "find_route [] meth path = None"
| "find_route ((m, pat, h) # rs) meth path =
     (case (if m = meth then match_path (split_on (CHR ''/'') pat) path else None) of
        Some ps \<Rightarrow> Some (h, ps)
      | None \<Rightarrow> find_route rs meth path)"

text \<open>
  What the router is built from: the token middleware, the rate limiter with its Redis client,
  the payment providers of checkouts and callbacks, the key of internal calls and the session
  secret.
\<close>

record server =
  sv_jwt :: JWTMiddleware
  sv_limit :: "(bool \<times> Config) option"
  sv_checkouts :: checkouts
  sv_providers :: providers
  sv_key :: string
  sv_session :: string

definition v1_routes :: "server \<Rightarrow> route list" where
  "v1_routes s =
     [(''GET'', ''account/me'', AccountHandler_GetMe),
      (''PUT'', ''account/me'', AccountHandler_UpdateMe),
      (''GET'', ''account/me/services'', AccountHandler_GetServices),
      (''GET'', ''account/me/overview'', AccountHandler_GetMeOverview),
      (''GET'', ''account/me/referral'', AccountHandler_GetMeReferral),
      (''GET'', ''products'', ProductHandler_ListProducts),
      (''GET'', ''products/:id/plans'', ProductHandler_ListPlans),
      (''GET'', ''subscriptions'', SubscriptionHandler_ListSubscriptions),
      (''GET'', ''subscriptions/:product_id'', SubscriptionHandler_GetSubscription),
      (''POST'', ''subscriptions/checkout'', SubscriptionHandler_Checkout (sv_checkouts s)),
      (''POST'', ''subscriptions/:product_id/cancel'', SubscriptionHandler_CancelSubscription),
      (''GET'', ''wallet'', WalletHandler_GetWallet),
      (''GET'', ''wallet/transactions'', WalletHandler_ListTransactions),
      (''POST'', ''wallet/redeem'', WalletHandler_Redeem),
      (''GET'', ''wallet/topup/info'', WalletHandler_TopupInfo (sv_checkouts s)),
      (''POST'', ''wallet/topup'', WalletHandler_CreateTopup (sv_checkouts s)),
      (''GET'', ''wallet/orders'', WalletHandler_ListOrders),
      (''GET'', ''wallet/orders/:order_no'', WalletHandler_GetOrder),
      (''POST'', ''invoices'', InvoiceHandler_GenerateInvoice),
      (''GET'', ''invoices'', InvoiceHandler_ListInvoices),
      (''GET'', ''invoices/:invoice_no'', InvoiceHandler_GetInvoice),
      (''POST'', ''refunds'', RefundHandler_RequestRefund),
      (''GET'', ''refunds'', RefundHandler_ListRefunds),
      (''GET'', ''refunds/:refund_no'', RefundHandler_GetRefund),
      (''GET'', ''checkin/status'', CheckinHandler_GetStatus),
      (''POST'', ''checkin'', CheckinHandler_DoCheckin),
      (''POST'', ''organizations'', OrganizationHandler_Create),
      (''GET'', ''organizations'', OrganizationHandler_ListMine),
      (''GET'', ''organizations/:id'', OrganizationHandler_Get),
      (''POST'', ''organizations/:id/members'', OrganizationHandler_AddMember),
      (''DELETE'', ''organizations/:id/members/:uid'', OrganizationHandler_RemoveMember),
      (''GET'', ''organizations/:id/api-keys'', OrganizationHandler_ListAPIKeys),
      (''POST'', ''organizations/:id/api-keys'', OrganizationHandler_CreateAPIKey),
      (''DELETE'', ''organizations/:id/api-keys/:kid'', OrganizationHandler_RevokeAPIKey),
      (''GET'', ''organizations/:id/wallet'', OrganizationHandler_GetWallet)]"

definition internal_routes :: "server \<Rightarrow> route list" where
  "internal_routes s =
     [(''GET'', ''accounts/by-zitadel-sub/:sub'', InternalHandler_GetAccountByZitadelSub),
      (''POST'', ''accounts/upsert'', InternalHandler_UpsertAccount),
      (''GET'', ''accounts/by-email/:email'', InternalHandler_GetAccountByEmail),
      (''GET'', ''accounts/by-phone/:phone'', InternalHandler_GetAccountByPhone),
      (''GET'', ''accounts/by-oauth/:provider/:provider_id'', InternalHandler_GetAccountByOAuth),
      (''GET'', ''accounts/:id/entitlements/:product_id'', InternalHandler_GetEntitlements),
      (''GET'', ''accounts/:id/subscription/:product_id'', InternalHandler_GetSubscription),
      (''GET'', ''accounts/:id/overview'', InternalHandler_GetAccountOverview),
      (''POST'', ''usage/report'', InternalHandler_ReportUsage),
      (''POST'', ''accounts/:id/wallet/debit'', InternalHandler_DebitWallet),
      (''POST'', ''accounts/:id/wallet/credit'', InternalHandler_CreditWallet),
      (''GET'', ''accounts/:id/wallet/balance'', InternalHandler_GetWalletBalance),
      (''POST'', ''accounts/validate-session'', InternalHandler_ValidateSession (sv_session s)),
      (''POST'', ''orgs/resolve-api-key'', OrganizationHandler_ResolveAPIKey)]"

definition admin_routes :: "route list" where
  "admin_routes =
     [(''GET'', ''accounts'', AccountHandler_AdminListAccounts),
      (''GET'', ''accounts/:id'', AccountHandler_AdminGetAccount),
      (''POST'', ''accounts/:id/grant'', AccountHandler_AdminGrantEntitlement),
      (''POST'', ''accounts/:id/wallet/adjust'', WalletHandler_AdminAdjustWallet),
      (''POST'', ''products'', ProductHandler_AdminCreateProduct),
      (''PUT'', ''products/:id'', ProductHandler_AdminUpdateProduct),
      (''POST'', ''products/:id/plans'', ProductHandler_AdminCreatePlan),
      (''PUT'', ''plans/:id'', ProductHandler_AdminUpdatePlan),
      (''GET'', ''invoices'', InvoiceHandler_AdminList),
      (''POST'', ''refunds/:refund_no/approve'', RefundHandler_AdminApprove),
      (''POST'', ''refunds/:refund_no/reject'', RefundHandler_AdminReject),
      (''POST'', ''redemption-codes/batch'', AdminOpsHandler_BatchGenerateCodes),
      (''GET'', ''reports/financial'', ReportHandler_FinancialReport),
      (''GET'', ''settings'', AdminConfigHandler_ListSettings),
      (''PUT'', ''settings'', AdminConfigHandler_UpdateSettings),
      (''POST'', ''settings/qrcode'', AdminConfigHandler_UploadQRCode),
      (''GET'', ''organizations'', OrganizationHandler_AdminList),
      (''PATCH'', ''organizations/:id'', OrganizationHandler_AdminUpdateStatus)]"

definition webhook_routes :: "server \<Rightarrow> route list" where
  "webhook_routes s =
     [(''GET'', ''epay'', WebhookHandler_EpayNotify (sv_providers s)),
      (''POST'', ''stripe'', WebhookHandler_StripeWebhook (sv_providers s)),
      (''POST'', ''creem'', WebhookHandler_CreemWebhook (sv_providers s))]"

section \<open>Groups\<close>

definition not_found :: "response op" where
  "not_found = ret (Text 404 ''404 page not found'')"

text \<open>A group: the route is looked up, the guard answers or passes the request on, the handler runs.\<close>

definition guarded :: "(request \<Rightarrow> (response + request) op) \<Rightarrow> route list \<Rightarrow> string \<Rightarrow> string list \<Rightarrow> handler" where
  "guarded guard rs meth path c = (case find_route rs meth path of
       None \<Rightarrow> not_found
     | Some (h, ps) \<Rightarrow> bind (guard c) (\<lambda>r. case r of Inl resp \<Rightarrow> ret resp | Inr c1 \<Rightarrow> h (c1\<lparr>rq_params := ps\<rparr>)))"

definition limit_response :: "limited \<Rightarrow> response" where
  "limit_response l = JSON (lim_Status l) (GJson (lim_Body l))"

definition user_limit :: "server \<Rightarrow> request \<Rightarrow> (response + request) op" where
  "user_limit s c = (case sv_limit s of
       None \<Rightarrow> ret (Inr c)
     | Some (rdb, cfg) \<Rightarrow> bind (Limiter_PerUser rdb cfg (rq_account c)) (\<lambda>l. case l of
         None \<Rightarrow> ret (Inr c) | Some x \<Rightarrow> ret (Inl (limit_response x))))"

definition ip_limit :: "server \<Rightarrow> string \<Rightarrow> request \<Rightarrow> (response + request) op" where
  "ip_limit s ip c = (case sv_limit s of
       None \<Rightarrow> ret (Inr c)
     | Some (rdb, cfg) \<Rightarrow> bind (Limiter_PerIP rdb cfg ip) (\<lambda>l. case l of
         None \<Rightarrow> ret (Inr c) | Some x \<Rightarrow> ret (Inl (limit_response x))))"

definition user_guard :: "server \<Rightarrow> request \<Rightarrow> (response + request) op" where
  "user_guard s c = bind (JWTMiddleware_Auth (sv_jwt s) c) (\<lambda>r. case r of Inl resp \<Rightarrow> ret (Inl resp) | Inr c1 \<Rightarrow> user_limit s c1)"

definition serve :: "server \<Rightarrow> string \<Rightarrow> string \<Rightarrow> string \<Rightarrow> handler" where
  "serve s ip meth path c = (case split_on (CHR ''/'') path of
       [] \<Rightarrow> not_found
     | lead # segs \<Rightarrow>
       if lead \<noteq> '''' then not_found
       else if segs = [''health''] \<and> meth = ''GET'' then ok_json 200 [(''status'', GStr ''ok''), (''service'', GStr ''lurus-identity'')]
       else if take 4 segs = [''api'', ''v1'', ''public'', ''qrcode'']
         then guarded (\<lambda>c. ret (Inr c)) [(''GET'', '':type'', AdminConfigHandler_GetPublicQRCode)] meth (drop 4 segs) c
       else if take 2 segs = [''api'', ''v1''] then guarded (user_guard s) (v1_routes s) meth (drop 2 segs) c
       else if take 2 segs = [''internal'', ''v1''] then guarded (internalKeyAuth (sv_key s)) (internal_routes s) meth (drop 2 segs) c
       else if take 2 segs = [''admin'', ''v1''] then guarded (JWTMiddleware_AdminAuth (sv_jwt s)) admin_routes meth (drop 2 segs) c
       else if take 1 segs = [''webhook''] then guarded (ip_limit s ip) (webhook_routes s) meth (drop 1 segs) c
       else not_found)"

section \<open>Money of other accounts\<close>

definition money_of :: "int \<Rightarrow> world \<Rightarrow> Wallet list \<times> WalletTransaction list" where
  "money_of b w = (filter (\<lambda>x. wal_AccountID x = b) (wallets w), ledger_of b w)"

definition others :: "int \<Rightarrow> Wallet list \<times> WalletTransaction list \<Rightarrow> world \<Rightarrow> bool" where
  "others b m w \<longleftrightarrow> uniq_by wal_ID (wallets w) \<and> money_of b w = m"

definition money :: "world \<Rightarrow> Wallet list \<times> WalletTransaction list" where
  "money w = (wallets w, transactions w)"

lemma stable_others [simp, intro]: "stable (others b m)" "stable money"
  by (simp_all add: stable_def others_def money_of_def ledger_of_def money_def)

lemma others_cong: "money w' = money w \<Longrightarrow> others b m w' = others b m w"
  by (simp add: others_def money_of_def ledger_of_def money_def)

lemma keeps_others_leaves: "leaves money m \<Longrightarrow> keeps (others b x) m"
  unfolding keeps_def leaves_def using others_cong by blast

lemma filter_upd_rows_other:
  "(\<And>x. x \<in> set t \<Longrightarrow> P x \<Longrightarrow> \<not> Q x \<and> \<not> Q (f x)) \<Longrightarrow> filter Q (upd_rows P f t) = filter Q t"
  by (induction t) (auto simp: upd_rows_def)

lemma others_moved:
  assumes "moved a x tx w w'" and "a \<noteq> b" and "others b m w"
  shows "others b m w'"
proof -
  obtain y f where y: "find (\<lambda>x. wal_AccountID x = a) (wallets w) = Some y"
    and f: "\<And>z. wal_ID (f z) = wal_ID z" "\<And>z. wal_AccountID (f z) = wal_AccountID z"
    and w': "wallets w' = upd_rows (\<lambda>z. wal_ID z = wal_ID y) f (wallets w)"
      "transactions w' = transactions w @ [t_cols transactions_T tx]" "tx_AccountID tx = a"
    using assms(1) unfolding moved_def by blast
  have u: "uniq_by wal_ID (wallets w)" using assms(3) by (simp add: others_def)
  have own: "wal_AccountID z = a" if "z \<in> set (wallets w)" "wal_ID z = wal_ID y" for z
    using that u find_SomeD [OF y] by (auto dest: uniq_by_eq)
  have "filter (\<lambda>x. wal_AccountID x = b) (wallets w') = filter (\<lambda>x. wal_AccountID x = b) (wallets w)"
    unfolding w'(1) using own assms(2) f by (intro filter_upd_rows_other) auto
  moreover have "ledger_of b w' = ledger_of b w"
    using assms(2) w'(2,3) by (simp add: ledger_of_def transactions_T_def)
  moreover have "uniq_by wal_ID (wallets w')" using u f by (simp add: w'(1) uniq_by_upd)
  ultimately show ?thesis using assms(3) by (simp add: others_def money_of_def)
qed

lemma keeps_othersI:
  assumes "a \<noteq> b" "m = transaction f"
    and "\<And>w x w'. m w = (Inr x, w') \<Longrightarrow> uniq_by wal_ID (wallets w) \<Longrightarrow> \<exists>amount tx. moved a amount tx w w'"
  shows "keeps (others b z) m"
proof (rule keeps_atomic [OF stable_others(1) assms(2)])
  fix w x w1 assume r: "m w = (Inr x, w1)" and I: "others b z w"
  then obtain amount tx where "moved a amount tx w w1" using assms(3) [OF r] by (auto simp: others_def)
  then show "others b z w1" using others_moved assms(1) I by blast
qed

lemma movements_own [keeps_intros]:
  assumes "a \<noteq> b"
  shows "keeps (others b z) (WalletRepo_Credit a x ty d rt ri p)" "keeps (others b z) (WalletRepo_Debit a x ty d rt ri p)"
    "keeps (others b z) (WalletRepo_RedeemCode a code)"
  by (rule keeps_othersI [OF assms WalletRepo_Credit_def], blast dest: Credit_moved)
    (rule keeps_othersI [OF assms WalletRepo_Debit_def], blast dest: Debit_moved(1),
     rule keeps_othersI [OF assms WalletRepo_RedeemCode_def], blast elim: Redeem_moved)

lemma GetOrCreate_own [keeps_intros]: "a \<noteq> b \<Longrightarrow> keeps (others b z) (WalletRepo_GetOrCreate a)"
proof -
  assume ab: "a \<noteq> b"
  have "others b z (wallets_update (\<lambda>t. t @ [t_cols wallets_T r]) (w\<lparr>seqs := g\<rparr>))"
    if "others b z w" and r: "r = t_new wallets_T i n (Wallet0\<lparr>wal_AccountID := a\<rparr>)"
      and c: "t_conflict wallets_T r (wallets w) = None" for w r i n g
  proof -
    have u: "find (\<lambda>x. wal_ID x = wal_ID r) (wallets w) = None" using c by (auto simp: wallets_T_def r find_None_iff)
    have f: "wal_ID (t_cols wallets_T r) = wal_ID r" "wal_AccountID (t_cols wallets_T r) = a"
      by (simp_all add: wallets_T_def r Wallet0_def)
    show ?thesis using that(1) u f ab by (auto simp: others_def money_of_def ledger_of_def uniq_by_snoc)
  qed
  then show ?thesis unfolding WalletRepo_GetOrCreate_def q_first_or_create_def
    by (intro keeps_intros keeps_q_insert) auto
qed

text \<open>Everything else leaves wallets and ledger alone.\<close>

lemma apart_money [simp]:
  "apart money orders_T" "apart money codes_T" "apart money accounts_T" "apart money bindings_T" "apart money subs_T"
  "apart money ents_T" "apart money refunds_T" "apart money invoices_T" "apart money checkins_T" "apart money orgs_T"
  "apart money members_T" "apart money api_keys_T" "apart money org_wallets_T" "apart money outbox_T" "apart money vips_T"
  by (simp_all add: apart_def money_def)

lemma money_redis [simp]: "money (w\<lparr>redis := g\<rparr>) = money w"
  by (simp add: money_def)

lemma zset_money:
  "leaves money (z_rem_range_by_score k lo hi)" "leaves money (z_card k)" "leaves money (z_add k n m)" "leaves money (r_expire k d)"
  unfolding z_rem_range_by_score_def z_card_def z_add_def r_expire_def put_zset_def Let_def
  by (rule leaves_stmt, simp, simp add: leaves_def split: option.split)+

lemma redis_money [leaves_intros]:
  "leaves money (OverviewCache_Get a p)" "leaves money (OverviewCache_Set a p ov)" "leaves money (Limiter_allow k n d)"
  unfolding OverviewCache_Get_def OverviewCache_Set_def Limiter_allow_def
  by (intro leaves_intros zset_money | simp split: sum.split)+

lemma services_money [leaves_intros]:
  "leaves money (AccountService_GetByID i)" "leaves money (AccountService_Update acc)" "leaves money (VIPService_Get i)"
  "leaves money (SubscriptionService_ListByAccount i)" "leaves money (SubscriptionService_GetActive i p)"
  "leaves money (SubscriptionService_Activate i p pl me ex)" "leaves money (SubscriptionService_Cancel i p)"
  "leaves money (ReferralService_GetStats i)" "leaves money ProductService_ListActive" "leaves money (ProductService_ListPlans p)"
  "leaves money (ProductService_GetPlanByID pl)"
  unfolding AccountService_GetByID_def AccountRepo_GetByID_def AccountService_Update_def AccountRepo_Update_def
    SubscriptionService_ListByAccount_def SubscriptionRepo_ListByAccount_def SubscriptionService_GetActive_def SubscriptionRepo_GetActive_def
    SubscriptionService_Cancel_def SubscriptionRepo_Update_def ReferralService_GetStats_def ReferralRepo_GetReferralStats_def
    ProductService_ListActive_def ProductRepo_ListActive_def ProductService_ListPlans_def ProductRepo_ListPlans_def
    ProductService_GetPlanByID_def ProductRepo_GetPlanByID_def
  by (auto intro!: leaves_intros Activate_frames split: option.split)

lemma wallet_services_money [leaves_intros]:
  "leaves money (WalletService_ListTransactions i p s)" "leaves money (WalletService_ListOrders i p s)"
  "leaves money (WalletService_GetOrderByNo i no)" "leaves money (WalletService_CreateTopup i x me)"
  "leaves money (WalletService_CreateSubscriptionOrder o1)" "leaves money (WalletService_UpdatePaymentOrder o1)"
  by (auto intro!: leaves_intros simp: wallet_service_defs repo_defs split: option.split)

lemma document_services_money [leaves_intros]:
  "leaves money (InvoiceService_Generate i no)" "leaves money (InvoiceService_ListByAccount i p s)" "leaves money (InvoiceService_GetByNo i no)"
  "leaves money (RefundService_RequestRefund i no t)" "leaves money (RefundService_ListByAccount i p s)" "leaves money (RefundService_GetByNo i no)"
  "leaves money (CheckinService_GetStatus i)"
  unfolding InvoiceService_Generate_def InvoiceRepo_GetByOrderNo_def WalletRepo_GetPaymentOrderByNo_def generateInvoiceNo_def
    InvoiceRepo_Create_def InvoiceService_ListByAccount_def InvoiceRepo_ListByAccount_def InvoiceService_GetByNo_def InvoiceRepo_GetByInvoiceNo_def
    RefundService_RequestRefund_def RefundRepo_GetPendingByOrderNo_def RefundRepo_Create_def generateRefundNo_def
    RefundService_ListByAccount_def RefundRepo_ListByAccount_def RefundService_GetByNo_def RefundRepo_GetByRefundNo_def
    CheckinService_GetStatus_def CheckinRepo_GetByAccountAndDate_def CheckinRepo_CountConsecutive_def CheckinRepo_ListByAccountAndMonth_def Let_def
  by (auto intro!: leaves_intros split: option.split)

lemma list_orgs_money [leaves_intros]: "leaves money (OrganizationRepo_ListByAccountID i)"
  unfolding OrganizationRepo_ListByAccountID_def by (rule leaves_stmt) (simp_all add: leaves_def)

lemma organization_services_money [leaves_intros]:
  "leaves money (OrganizationService_Create n sl i)" "leaves money (OrganizationService_ListMine i)" "leaves money (OrganizationService_Get o1 i)"
  "leaves money (OrganizationService_AddMember o1 i j ro)" "leaves money (OrganizationService_RemoveMember o1 i j)"
  "leaves money (OrganizationService_ListAPIKeys o1)" "leaves money (OrganizationService_CreateAPIKey o1 i n)"
  "leaves money (OrganizationService_RevokeAPIKey o1 i k)" "leaves money (OrganizationService_GetWallet o1)"
  unfolding OrganizationService_Create_def OrganizationService_ListMine_def OrganizationService_Get_def OrganizationService_AddMember_def
    OrganizationService_RemoveMember_def OrganizationService_ListAPIKeys_def OrganizationService_CreateAPIKey_def
    OrganizationService_RevokeAPIKey_def OrganizationService_GetWallet_def OrganizationRepo_Create_def OrganizationRepo_GetBySlug_def
    OrganizationRepo_GetByID_def OrganizationRepo_GetMember_def OrganizationRepo_AddMember_def
    OrganizationRepo_RemoveMember_def OrganizationRepo_ListMembers_def OrganizationRepo_ListAPIKeys_def OrganizationRepo_CreateAPIKey_def
    OrganizationRepo_RevokeAPIKey_def OrganizationRepo_GetOrCreateWallet_def Let_def
  by (auto intro!: leaves_intros split: option.split)

text \<open>What the providers are asked for happens outside: it changes nothing here.\<close>

definition outside :: "'a op \<Rightarrow> bool" where
  "outside m \<longleftrightarrow> (\<forall>w. snd (m w) = w)"

definition external_calls :: "checkouts \<Rightarrow> bool" where
  "external_calls h \<longleftrightarrow> (\<forall>purchase u x. co_epay h = Some (purchase, u) \<longrightarrow> outside (purchase x))
     \<and> (\<forall>p f x. co_stripe h = Some (p, f) \<longrightarrow> outside (f x))
     \<and> (\<forall>p f u a x. co_creem h = Some (p, f) \<longrightarrow> outside (f u a x))"

lemma outside_leaves: "outside m \<Longrightarrow> leaves f m"
  by (simp add: outside_def leaves_def)

lemma provider_leaves:
  "(\<And>x. leaves f (purchase x)) \<Longrightarrow> leaves f (EpayProvider_CreateCheckout purchase n order u)"
  "(\<And>x. leaves f (g x)) \<Longrightarrow> leaves f (StripeProvider_CreateCheckout g p order u)"
  "(\<And>u a x. leaves f (post u a x)) \<Longrightarrow> leaves f (CreemProvider_CreateCheckout post q order u)"
  unfolding EpayProvider_CreateCheckout_def StripeProvider_CreateCheckout_def CreemProvider_CreateCheckout_def Let_def
  by (auto intro!: leaves_intros split: option.split)

lemma resolveCheckout_leaves: "external_calls h \<Longrightarrow> leaves f (resolveCheckout h order u)"
  unfolding resolveCheckout_def external_calls_def
  by (auto intro!: leaves_intros provider_leaves intro: outside_leaves split: option.split)

lemma keeps_calls [keeps_intros]:
  "keeps I m \<Longrightarrow> (\<And>x. keeps I (k x)) \<Longrightarrow> keeps I (or_error s t m k)"
  "keeps I m \<Longrightarrow> (\<And>x. keeps I (k x)) \<Longrightarrow> keeps I (or_text s m k)"
  unfolding or_error_def or_text_def by (intro keeps_intros; assumption)+

lemma keeps_or_missing [keeps_intros]: "keeps I m \<Longrightarrow> (\<And>x. keeps I (k x)) \<Longrightarrow> keeps I (or_missing s t m k)"
  unfolding or_missing_def by (intro keeps_intros; assumption)

lemma keeps_or_null [keeps_intros]: "keeps I m \<Longrightarrow> (\<And>x. keeps I (k x)) \<Longrightarrow> keeps I (or_null g m k)"
  unfolding or_null_def by (intro keeps_intros; assumption)

lemma keeps_page_json [keeps_intros]: "keeps I (page_json g p)"
  by (simp add: page_json_def keeps_answer)

lemmas own_services [keeps_intros] = services_money [THEN keeps_others_leaves] wallet_services_money [THEN keeps_others_leaves]
  document_services_money [THEN keeps_others_leaves] organization_services_money [THEN keeps_others_leaves]
  redis_money [THEN keeps_others_leaves] resolveCheckout_leaves [THEN keeps_others_leaves]

lemma keeps_rval [keeps_intros]:
  "(\<And>x. keeps f (k1 x)) \<Longrightarrow> (\<And>x. keeps f (k2 x)) \<Longrightarrow> (\<And>x. keeps f (k3 x)) \<Longrightarrow> (\<And>x. keeps f (k4 x)) \<Longrightarrow>
   keeps f (case v of RStr x \<Rightarrow> k1 x | RMap x \<Rightarrow> k2 x | ROv x \<Rightarrow> k3 x | RZSet x \<Rightarrow> k4 x)"
  by (simp split: rval.split)

lemma overview_own [keeps_intros]: "i \<noteq> b \<Longrightarrow> keeps (others b z) (OverviewService_Get i p)"
  unfolding OverviewService_Get_def OverviewService_compute_def AccountRepo_GetByID_def ProductRepo_GetPlanByID_def
  by (intro keeps_intros stable_others | assumption)+

lemma checkin_rows_money: "leaves money (CheckinRepo_Create ck)" "leaves money (CheckinRepo_GetByAccountAndDate i d)"
    "leaves money (CheckinRepo_CountConsecutive i d)"
  unfolding CheckinRepo_Create_def CheckinRepo_GetByAccountAndDate_def CheckinRepo_CountConsecutive_def Let_def
  by (auto intro!: leaves_intros)

lemma checkin_own [keeps_intros]: "i \<noteq> b \<Longrightarrow> keeps (others b z) (CheckinService_DoCheckin i)"
  unfolding CheckinService_DoCheckin_def Let_def
  by (intro keeps_intros checkin_rows_money [THEN keeps_others_leaves] | simp)+

named_theorems own_handlers \<open>a handler touches the money of its own account only\<close>

lemma account_handlers [own_handlers]:
  assumes "mustAccountID c \<noteq> b"
  shows "keeps (others b z) (AccountHandler_GetMe c)" "keeps (others b z) (AccountHandler_UpdateMe c)"
    "keeps (others b z) (AccountHandler_GetServices c)" "keeps (others b z) (AccountHandler_GetMeReferral c)"
    "keeps (others b z) (AccountHandler_GetMeOverview c)"
  unfolding AccountHandler_GetMe_def AccountHandler_UpdateMe_def AccountHandler_GetServices_def AccountHandler_GetMeReferral_def
    AccountHandler_GetMeOverview_def Let_def
  using assms by (auto intro!: keeps_intros keeps_answer split: sum.split option.split)

lemma wallet_handlers [own_handlers]:
  assumes "mustAccountID c \<noteq> b" and "external_calls h"
  shows "keeps (others b z) (WalletHandler_GetWallet c)" "keeps (others b z) (WalletHandler_ListTransactions c)"
    "keeps (others b z) (WalletHandler_Redeem c)" "keeps (others b z) (WalletHandler_TopupInfo h c)"
    "keeps (others b z) (WalletHandler_CreateTopup h c)" "keeps (others b z) (WalletHandler_ListOrders c)"
    "keeps (others b z) (WalletHandler_GetOrder c)"
  unfolding WalletHandler_GetWallet_def WalletHandler_ListTransactions_def WalletHandler_Redeem_def WalletHandler_TopupInfo_def
    WalletHandler_CreateTopup_def WalletHandler_ListOrders_def WalletHandler_GetOrder_def answer_checkout_def
    WalletService_GetWallet_def WalletService_Redeem_def
  using assms by (auto intro!: keeps_intros)

lemma subscription_handlers [own_handlers]:
  assumes "mustAccountID c \<noteq> b" and "external_calls h"
  shows "keeps (others b z) (SubscriptionHandler_ListSubscriptions c)" "keeps (others b z) (SubscriptionHandler_GetSubscription c)"
    "keeps (others b z) (SubscriptionHandler_Checkout h c)" "keeps (others b z) (SubscriptionHandler_CancelSubscription c)"
  unfolding SubscriptionHandler_ListSubscriptions_def SubscriptionHandler_GetSubscription_def SubscriptionHandler_Checkout_def
    SubscriptionHandler_CancelSubscription_def wallet_checkout_def order_checkout_def answer_checkout_def WalletService_Debit_def WalletService_Credit_def
  using assms by (auto intro!: keeps_intros)

lemma document_handlers [own_handlers]:
  assumes "mustAccountID c \<noteq> b"
  shows "keeps (others b z) (InvoiceHandler_GenerateInvoice c)" "keeps (others b z) (InvoiceHandler_ListInvoices c)"
    "keeps (others b z) (InvoiceHandler_GetInvoice c)" "keeps (others b z) (RefundHandler_RequestRefund c)"
    "keeps (others b z) (RefundHandler_ListRefunds c)" "keeps (others b z) (RefundHandler_GetRefund c)"
    "keeps (others b z) (CheckinHandler_GetStatus c)" "keeps (others b z) (CheckinHandler_DoCheckin c)"
    "keeps (others b z) (ProductHandler_ListProducts c)" "keeps (others b z) (ProductHandler_ListPlans c)"
  unfolding InvoiceHandler_GenerateInvoice_def InvoiceHandler_ListInvoices_def InvoiceHandler_GetInvoice_def RefundHandler_RequestRefund_def
    RefundHandler_ListRefunds_def RefundHandler_GetRefund_def CheckinHandler_GetStatus_def CheckinHandler_DoCheckin_def
    ProductHandler_ListProducts_def ProductHandler_ListPlans_def
  using assms by (auto intro!: keeps_intros)

lemma organization_handlers [own_handlers]:
  "keeps (others b z) (OrganizationHandler_Create c)" "keeps (others b z) (OrganizationHandler_ListMine c)"
  "keeps (others b z) (OrganizationHandler_Get c)" "keeps (others b z) (OrganizationHandler_AddMember c)"
  "keeps (others b z) (OrganizationHandler_RemoveMember c)" "keeps (others b z) (OrganizationHandler_ListAPIKeys c)"
  "keeps (others b z) (OrganizationHandler_CreateAPIKey c)" "keeps (others b z) (OrganizationHandler_RevokeAPIKey c)"
  "keeps (others b z) (OrganizationHandler_GetWallet c)"
  unfolding OrganizationHandler_Create_def OrganizationHandler_ListMine_def OrganizationHandler_Get_def OrganizationHandler_AddMember_def
    OrganizationHandler_RemoveMember_def OrganizationHandler_ListAPIKeys_def OrganizationHandler_CreateAPIKey_def
    OrganizationHandler_RevokeAPIKey_def OrganizationHandler_GetWallet_def with_org_def
  by (auto intro!: keeps_intros)

lemma v1_own:
  assumes "(m, pat, h) \<in> set (v1_routes s)" and "external_calls (sv_checkouts s)" and "mustAccountID c \<noteq> b"
  shows "keeps (others b z) (h c)"
proof -
  note own = account_handlers [OF assms(3)] wallet_handlers [OF assms(3,2)] subscription_handlers [OF assms(3,2)]
    document_handlers [OF assms(3)] organization_handlers
  have "list_all (\<lambda>r. keeps (others b z) (snd (snd r) c)) (v1_routes s)"
    unfolding v1_routes_def by (simp add: own)
  then show ?thesis using assms(1) by (auto simp: list_all_iff)
qed

lemma find_route_in: "find_route rs meth path = Some (h, ps) \<Longrightarrow> \<exists>m pat. (m, pat, h) \<in> set rs"
  by (induction rs meth path rule: find_route.induct) (auto split: option.splits if_splits)

lemma user_limit_leaves: "leaves money (user_limit s c)"
  unfolding user_limit_def Limiter_PerUser_def by (auto intro!: leaves_intros split: option.split)

lemma user_limit_passes: "user_limit s c w = (Inr (Inr c1), w1) \<Longrightarrow> c1 = c"
  unfolding user_limit_def Limiter_PerUser_def
  by (auto simp: bind_def ret_def split: option.splits if_splits prod.splits sum.splits)

text \<open>C37: A user's request touches no other account's money. Whatever route of the user API is called
  with whatever body, and whatever fails on the way: once the request has been authenticated as an
  account, the wallet row and the ledger rows of every other account are the same after the answer
  as they were before the handler. The payment providers' own calls are outside; wallet ids are unique.\<close>

theorem user_routes_touch_own_money:
  assumes "JWTMiddleware_Auth (sv_jwt s) c w = (Inr (Inr c1), w1)" and "b \<noteq> mustAccountID c1"
    and "find_route (v1_routes s) meth segs = Some (h, ps)"
    and "guarded (user_guard s) (v1_routes s) meth segs c w = (r, w')"
    and "external_calls (sv_checkouts s)" and "uniq_by wal_ID (wallets w1)"
  shows "money_of b w' = money_of b w1"
proof -
  obtain lr w2 where l: "user_limit s c1 w1 = (lr, w2)" by fastforce
  have m2: "money w2 = money w1" using user_limit_leaves l by (rule leavesD)
  then have I2: "others b (money_of b w1) w2" using assms(6) others_cong [OF m2] by (simp add: others_def)
  have g: "user_guard s c w = (lr, w2)" using assms(1) l by (simp add: user_guard_def bind_def)
  have "others b (money_of b w1) w'"
  proof (cases "lr = Inr (Inr c1)")
    case True
    then have "h (c1\<lparr>rq_params := ps\<rparr>) w2 = (r, w')" using assms(3,4) g by (simp add: guarded_def bind_def)
    moreover obtain m pat where "(m, pat, h) \<in> set (v1_routes s)" using find_route_in [OF assms(3)] by blast
    then have "keeps (others b (money_of b w1)) (h (c1\<lparr>rq_params := ps\<rparr>))"
      using assms(2,5) by (intro v1_own) (auto simp: mustAccountID_def)
    ultimately show ?thesis using I2 by (blast dest: keepsD)
  next
    case False
    then have "w' = w2" using assms(3,4) g user_limit_passes [of s c1 w1] l
      by (auto simp: guarded_def bind_def ret_def split: sum.splits)
    then show ?thesis using I2 by simp
  qed
  then show ?thesis by (simp add: others_def)
qed

definition demo_server :: server where
  "demo_server = \<lparr>sv_jwt = demo_mw, sv_limit = None, sv_checkouts = \<lparr>co_epay = None, co_stripe = None, co_creem = None\<rparr>,
     sv_providers = \<lparr>pv_epay = None, pv_stripe = None, pv_creem = None\<rparr>, sv_key = ''k'', sv_session = ''s''\<rparr>"

definition demo_state :: world where
  "demo_state = demo_keys\<lparr>wallets := [Wallet0\<lparr>wal_ID := 4, wal_AccountID := 2, wal_Balance := 30\<rparr>]\<rparr>"

definition demo_get :: request where
  "demo_get = request0\<lparr>rq_header := (\<lambda>_. ''Bearer '' @ demo_token)\<rparr>"

lemma demo_authenticated: "JWTMiddleware_Auth demo_mw demo_get demo_state
    = (Inr (Inr (demo_get\<lparr>rq_account := Some 1, rq_claims := Some (buildClaims demo_claims)\<rparr>)), demo_state)"
proof -
  have tok: "extractBearerToken demo_get = Inr demo_token" unfolding demo_get_def by code_simp
  have k: "JWKSCache_GetKey (ret (200, '''')) 0 '''' demo_state = (Inr (RSAKey 5 3), demo_state)"
    by (simp add: JWKSCache_GetKey_def demo_state_def demo_keys_def bind_def now_def read_keys_def ret_def defaultJWKSTTL_def hour_ns_def world0_def)
  have c: "validateStandardClaims (mw_cfg demo_mw) (clock demo_state) demo_claims = None"
    by (simp add: validateStandardClaims_def demo_mw_def demo_state_def demo_keys_def demo_claims_def unix_def world0_def second_ns_def)
  have v: "verifySignature (mw_crypto demo_mw) ''RS256'' (RSAKey 5 3) t ''ok''" for t
    by (simp add: verifySignature_def verifyRSA_def hashNameToCryptoHash_def demo_mw_def)
  have val: "Validator_Validate (mw_cfg demo_mw) (mw_crypto demo_mw) (mw_get demo_mw) demo_token demo_state = (Inr (buildClaims demo_claims), demo_state)"
    using k c v by (simp add: Validator_Validate_def demo_token_split b64_decode_encode demo_parsed bind_def now_def wrap_def ret_def)
      (simp add: demo_mw_def ret_def)
  have "atoi ''1'' = Some 1" by code_simp
  then have l: "buildAccountLookup (buildClaims demo_claims) demo_state = (Inr 1, demo_state)"
    by (simp add: buildAccountLookup_def attempt_def r_get_def stmt_def faulty_def live_def demo_state_def demo_keys_def demo_claims_def buildClaims_def
        world0_def adv_def ret_def)
  have ns: "mw_sessionSecret demo_mw = ''''" by (simp add: demo_mw_def)
  show ?thesis using tok val l ns by (simp add: JWTMiddleware_Auth_def attempt_def ret_def fail_def)
qed

theorem user_routes_touch_own_money_witness:
  "\<exists>r w'. guarded (user_guard demo_server) (v1_routes demo_server) ''POST'' [''checkin''] demo_get demo_state = (r, w')
     \<and> money_of 2 w' = ([Wallet0\<lparr>wal_ID := 4, wal_AccountID := 2, wal_Balance := 30\<rparr>], [])"
proof -
  obtain r w' where g: "guarded (user_guard demo_server) (v1_routes demo_server) ''POST'' [''checkin''] demo_get demo_state = (r, w')" by fastforce
  have f: "find_route (v1_routes demo_server) ''POST'' [''checkin''] = Some (CheckinHandler_DoCheckin, [])"
    by (simp add: v1_routes_def split_on.simps)
  have a: "JWTMiddleware_Auth (sv_jwt demo_server) demo_get demo_state
      = (Inr (Inr (demo_get\<lparr>rq_account := Some 1, rq_claims := Some (buildClaims demo_claims)\<rparr>)), demo_state)"
    using demo_authenticated by (simp add: demo_server_def)
  have "money_of 2 w' = money_of 2 demo_state"
    by (rule user_routes_touch_own_money [OF a _ f g])
      (simp_all add: mustAccountID_def external_calls_def demo_server_def demo_state_def uniq_by_def)
  moreover have "money_of 2 demo_state = ([Wallet0\<lparr>wal_ID := 4, wal_AccountID := 2, wal_Balance := 30\<rparr>], [])"
    by (simp add: money_of_def ledger_of_def demo_state_def demo_keys_def world0_def)
  ultimately show ?thesis using g by (intro exI conjI) simp_all
qed

end
