(* ===== verification/Ownership.thy ===== *)
theory Ownership
  imports Routes
begin

text \<open>
  What the routes of the user API show: a calculus for the results of operations, and the rows
  that the answers contain.
\<close>

section \<open>Results of operations\<close>

definition yields :: "('a \<Rightarrow> bool) \<Rightarrow> 'a op \<Rightarrow> bool" where
  "yields P m \<longleftrightarrow> (\<forall>w x w'. m w = (Inr x, w') \<longrightarrow> P x)"

named_theorems yields_intros \<open>what an operation returns\<close>

lemma yieldsD: "yields P m \<Longrightarrow> m w = (Inr x, w') \<Longrightarrow> P x"
  unfolding yields_def by blast

lemma yields_True [yields_intros]: "yields (\<lambda>_. True) m"
  by (simp add: yields_def)

lemma yields_ret: "P x \<Longrightarrow> yields P (ret x)"
  by (simp add: yields_def ret_def)

lemma yields_fail [yields_intros]: "yields P (fail e)"
  by (simp add: yields_def fail_def)

lemma yields_bind: "yields Q m \<Longrightarrow> (\<And>x. Q x \<Longrightarrow> yields P (k x)) \<Longrightarrow> yields P (bind m k)"
  unfolding yields_def by (simp add: bind_def split: prod.splits sum.splits) metis

lemma yields_bind_any [yields_intros]: "(\<And>x. yields P (k x)) \<Longrightarrow> yields P (bind m k)"
  by (rule yields_bind [OF yields_True])

lemma yields_wrap: "yields P m \<Longrightarrow> yields P (wrap s m)"
  unfolding yields_def by (auto simp: wrap_def split: prod.splits sum.splits)

lemma yields_attempt: "yields Q m \<Longrightarrow> (\<And>e. yields P (k (Inl e))) \<Longrightarrow> (\<And>x. Q x \<Longrightarrow> yields P (k (Inr x))) \<Longrightarrow> yields P (attempt m k)"
  unfolding yields_def attempt_def by (auto split: prod.splits) (metis sum.exhaust)

lemma yields_sql: "(\<And>w x w'. g w = (Inr x, w') \<Longrightarrow> P x) \<Longrightarrow> yields P (stmt e g)"
  by (auto simp: yields_def stmt_def split: if_splits)

lemma yields_q_first: "(\<And>x. C x \<Longrightarrow> P x) \<Longrightarrow> yields P (q_first T C)"
  unfolding q_first_def by (rule yields_sql) (auto split: option.splits dest: find_SomeD)

lemma yields_opt_row: "yields P m \<Longrightarrow> yields (\<lambda>o1. \<forall>x. o1 = Some x \<longrightarrow> P x) (opt_row m)"
  unfolding yields_def by (auto simp: opt_row_def split: prod.splits sum.splits if_splits)

lemma yields_q_find: "(\<And>x. C x \<Longrightarrow> P x) \<Longrightarrow> yields (\<lambda>xs. \<forall>x\<in>set xs. P x) (q_find T C)"
  unfolding q_find_def by (rule yields_sql) auto

lemma set_page_of: "set (page_of p l xs) \<subseteq> set xs"
  unfolding page_of_def by (auto simp: Let_def dest!: in_set_takeD in_set_dropD split: if_splits)

lemma yields_q_page: "(\<And>x. C x \<Longrightarrow> P x) \<Longrightarrow> yields (\<lambda>(xs, n). \<forall>x\<in>set xs. P x) (q_page T C key p l)"
  unfolding q_page_def
  by (rule yields_bind_any, rule yields_bind [where Q = "\<lambda>xs. \<forall>x\<in>set xs. P x"], rule yields_sql)
    (use set_page_of in \<open>fastforce intro: yields_ret\<close>)+

lemma yields_q_insert: "(\<And>i n. P (t_new T i n r)) \<Longrightarrow> yields P (q_insert T r)"
  unfolding q_insert_def by (rule yields_sql) (auto simp: Let_def split: option.splits)

lemma yields_q_first_or_create:
  "(\<And>x. C x \<Longrightarrow> P x) \<Longrightarrow> (\<And>i n. P (t_new T i n r)) \<Longrightarrow> yields P (q_first_or_create T C r)"
  unfolding q_first_or_create_def
  by (rule yields_bind [OF yields_opt_row [OF yields_q_first [of C P]]]) (auto intro: yields_ret yields_q_insert split: option.split)

section \<open>Services\<close>

lemma lookup_yields:
  "yields (\<lambda>o1. \<forall>a. o1 = Some a \<longrightarrow> acc_ID a = i) (AccountService_GetByID i)"
  "yields (\<lambda>v. vip_AccountID v = i) (VIPService_Get i)" "yields (\<lambda>v. wal_AccountID v = i) (WalletService_GetWallet i)"
  "yields (\<lambda>o1. \<forall>s. o1 = Some s \<longrightarrow> sub_AccountID s = i) (SubscriptionService_GetActive i p)"
  "yields (\<lambda>ss. \<forall>s\<in>set ss. sub_AccountID s = i) (SubscriptionService_ListByAccount i)"
proof -
  show "yields (\<lambda>o1. \<forall>a. o1 = Some a \<longrightarrow> acc_ID a = i) (AccountService_GetByID i)"
    unfolding AccountService_GetByID_def AccountRepo_GetByID_def by (rule yields_opt_row, rule yields_q_first)
  show "yields (\<lambda>v. vip_AccountID v = i) (VIPService_Get i)"
    unfolding VIPService_Get_def VIPRepo_GetOrCreate_def
    by (rule yields_bind, rule yields_q_first_or_create [where P = "\<lambda>v. vip_AccountID v = i"])
      (simp_all add: vips_T_def AccountVIP0_def yields_ret)
  show "yields (\<lambda>v. wal_AccountID v = i) (WalletService_GetWallet i)"
    unfolding WalletService_GetWallet_def WalletRepo_GetOrCreate_def
    by (rule yields_q_first_or_create) (simp_all add: wallets_T_def Wallet0_def)
  show "yields (\<lambda>o1. \<forall>s. o1 = Some s \<longrightarrow> sub_AccountID s = i) (SubscriptionService_GetActive i p)"
    unfolding SubscriptionService_GetActive_def SubscriptionRepo_GetActive_def
    by (rule yields_opt_row, rule yields_q_first) (simp add: live_for_def)
  show "yields (\<lambda>ss. \<forall>s\<in>set ss. sub_AccountID s = i) (SubscriptionService_ListByAccount i)"
    unfolding SubscriptionService_ListByAccount_def SubscriptionRepo_ListByAccount_def
    by (rule yields_bind [OF yields_q_find [where P = "\<lambda>s. sub_AccountID s = i"]]) (auto intro: yields_ret)
qed

lemma page_yields:
  "yields (\<lambda>(xs, n). \<forall>x\<in>set xs. tx_AccountID x = i) (WalletService_ListTransactions i p l)"
  "yields (\<lambda>(xs, n). \<forall>x\<in>set xs. ord_AccountID x = i) (WalletService_ListOrders i p l)"
  "yields (\<lambda>(xs, n). \<forall>x\<in>set xs. inv_AccountID x = i) (InvoiceService_ListByAccount i p l)"
  "yields (\<lambda>(xs, n). \<forall>x\<in>set xs. rfd_AccountID x = i) (RefundService_ListByAccount i p l)"
  unfolding WalletService_ListTransactions_def WalletRepo_ListTransactions_def WalletService_ListOrders_def WalletRepo_ListOrders_def
    InvoiceService_ListByAccount_def InvoiceRepo_ListByAccount_def RefundService_ListByAccount_def RefundRepo_ListByAccount_def
  by (rule yields_q_page, simp)+

lemma document_yields:
  "yields (\<lambda>x. ord_AccountID x = i) (WalletService_GetOrderByNo i no)" "yields (\<lambda>x. inv_AccountID x = i) (InvoiceService_GetByNo i no)"
  "yields (\<lambda>x. rfd_AccountID x = i) (RefundService_GetByNo i no)" "yields (\<lambda>x. inv_AccountID x = i) (InvoiceService_Generate i no)"
  "yields (\<lambda>x. rfd_AccountID x = i) (RefundService_RequestRefund i no t)"
  unfolding WalletService_GetOrderByNo_def InvoiceService_GetByNo_def RefundService_GetByNo_def InvoiceService_Generate_def
    RefundService_RequestRefund_def InvoiceRepo_Create_def RefundRepo_Create_def
  by (auto intro!: yields_intros yields_ret yields_wrap yields_q_insert simp: invoices_T_def refunds_T_def Invoice0_def Refund0_def
      split: option.split)

lemma activation_yields: "yields (\<lambda>s. sub_AccountID s = i) (SubscriptionService_Activate i p pl me ex)"
proof -
  have c: "sub_AccountID r = i \<Longrightarrow> yields (\<lambda>s. sub_AccountID s = i) (wrap t (SubscriptionRepo_Create r))" for r t
    unfolding SubscriptionRepo_Create_def by (intro yields_wrap yields_q_insert) (simp add: subs_T_def)
  have rest: "yields (\<lambda>s. sub_AccountID s = i) (bind (wrap t (SubscriptionRepo_Create r)) (\<lambda>sub. bind (k sub) (\<lambda>_. ret sub)))"
    if "sub_AccountID r = i" for t r and k :: "Subscription \<Rightarrow> unit op"
    by (rule yields_bind [OF c [OF that]]) (intro yields_bind_any yields_ret)
  show ?thesis unfolding SubscriptionService_Activate_def
    by (rule yields_attempt [OF yields_True])
      (auto intro!: yields_fail yields_bind_any rest split: option.split)
qed

lemma month_yields: "yields (\<lambda>cs. \<forall>c\<in>set cs. chk_AccountID c = i) (CheckinRepo_ListByAccountAndMonth i ym)"
  unfolding CheckinRepo_ListByAccountAndMonth_def
  by (rule yields_bind [OF yields_q_find [where P = "\<lambda>c. chk_AccountID c = i"]]) (auto intro: yields_ret)

lemma checkin_yields: "yields (\<lambda>s. \<forall>c\<in>set (cst_MonthCheckins s). chk_AccountID c = i) (CheckinService_GetStatus i)"
  unfolding CheckinService_GetStatus_def Let_def
  by (rule yields_bind_any, rule yields_bind_any, rule yields_bind_any, rule yields_bind [OF yields_wrap [OF month_yields]])
    (simp add: yields_ret)

section \<open>Answers\<close>

text \<open>
  The accounts whose rows an answer contains. Organizations, catalogue and codes belong to no
  account; an overview comes from the cache and is left out.
\<close>

fun holders :: "gval \<Rightarrow> int set" where
  "holders (GAccount a) = {acc_ID a}"
| "holders (GVIP v) = {vip_AccountID v}"
| "holders (GSub s) = {sub_AccountID s}"
| "holders (GWallet x) = {wal_AccountID x}"
| "holders (GTx t) = {tx_AccountID t}"
| "holders (GOrder x) = {ord_AccountID x}"
| "holders (GRefund r) = {rfd_AccountID r}"
| "holders (GInvoice iv) = {inv_AccountID iv}"
| "holders (GCheckin ck) = {chk_AccountID ck}"
| "holders (GList gs) = (\<Union>g\<in>set gs. holders g)"
| "holders (GObj kvs) = (\<Union>kv\<in>set kvs. holders (snd kv))"
| "holders _ = {}"

fun shown :: "response \<Rightarrow> int set" where
  "shown (JSON st g) = holders g"
| "shown _ = {}"

abbreviation (input) own_answer :: "int \<Rightarrow> response \<Rightarrow> bool" where
  "own_answer i r \<equiv> (\<forall>j\<in>shown r. j = i)"

lemma own_text: "yields (own_answer i) (err_json st t)" "yields (own_answer i) recovered"
  by (simp_all add: err_json_def recovered_def yields_ret)

lemma own_fields: "(\<And>kv. kv \<in> set kvs \<Longrightarrow> \<forall>j\<in>holders (snd kv). j = i) \<Longrightarrow> yields (own_answer i) (ok_json st kvs)"
  by (fastforce simp: ok_json_def intro!: yields_ret)

lemma own_row: "\<forall>j\<in>holders g. j = i \<Longrightarrow> yields (own_answer i) (ret (JSON st g))"
  by (simp add: yields_ret)

lemma own_calls:
  "yields Q m \<Longrightarrow> (\<And>x. Q x \<Longrightarrow> yields (own_answer i) (k x)) \<Longrightarrow> yields (own_answer i) (or_error st t m k)"
  "yields Q m \<Longrightarrow> (\<And>x. Q x \<Longrightarrow> yields (own_answer i) (k x)) \<Longrightarrow> yields (own_answer i) (or_text st m k)"
  unfolding or_error_def or_text_def by (rule yields_attempt, assumption, simp add: own_text, simp)+

lemma own_missing:
  "yields (\<lambda>o1. \<forall>x. o1 = Some x \<longrightarrow> Q x) m \<Longrightarrow> (\<And>x. Q x \<Longrightarrow> yields (own_answer i) (k x)) \<Longrightarrow> yields (own_answer i) (or_missing st t m k)"
  unfolding or_missing_def by (rule yields_attempt, assumption) (auto simp: own_text split: option.split)

lemma own_null:
  "yields Q m \<Longrightarrow> (\<And>v. v = GNull \<or> (\<exists>x. Q x \<and> v = g x) \<Longrightarrow> yields (own_answer i) (k v)) \<Longrightarrow> yields (own_answer i) (or_null g m k)"
  unfolding or_null_def by (rule yields_attempt, assumption) auto

lemma own_body: "(\<And>x. yields (own_answer i) (k x)) \<Longrightarrow> yields (own_answer i) (with_body c f k)"
  "(\<And>n. yields (own_answer i) (kk n)) \<Longrightarrow> yields (own_answer i) (with_id c nm msg kk)"
  unfolding with_body_def with_id_def by (auto simp: own_text split: option.split)

lemma own_page: "(\<And>x. x \<in> set (fst p) \<Longrightarrow> \<forall>j\<in>holders (g x). j = i) \<Longrightarrow> yields (own_answer i) (page_json g p)"
  unfolding page_json_def by (rule own_fields) auto

lemma own_any:
  "(\<And>x. yields (own_answer i) (k x)) \<Longrightarrow> yields (own_answer i) (or_error st t m k)"
  "(\<And>x. yields (own_answer i) (k x)) \<Longrightarrow> yields (own_answer i) (or_text st m k)"
  "(\<And>x. yields (own_answer i) (k x)) \<Longrightarrow> yields (own_answer i) (or_missing st t m2 k2)" if "\<And>x. yields (own_answer i) (k2 x)"
  by (rule own_calls [OF yields_True], assumption)+ (rule own_missing [where Q = "\<lambda>_. True"], simp_all add: yields_True that)

lemma answer_checkout_own: "yields (own_answer i) (answer_checkout order urls)"
  unfolding answer_checkout_def by (auto intro!: yields_bind_any own_fields split: prod.split)

lemma account_answers:
  "yields (own_answer (mustAccountID c)) (AccountHandler_GetMe c)" "yields (own_answer (mustAccountID c)) (AccountHandler_UpdateMe c)"
  "yields (own_answer (mustAccountID c)) (AccountHandler_GetServices c)" "yields (own_answer (mustAccountID c)) (AccountHandler_GetMeReferral c)"
proof -
  show "yields (own_answer (mustAccountID c)) (AccountHandler_GetMe c)" unfolding AccountHandler_GetMe_def
    by (rule own_missing [OF lookup_yields(1)], rule own_null [OF lookup_yields(2)], rule own_null [OF lookup_yields(5)])
      (auto intro!: own_fields split: if_splits)
  show "yields (own_answer (mustAccountID c)) (AccountHandler_UpdateMe c)" unfolding AccountHandler_UpdateMe_def
    by (rule own_missing [OF lookup_yields(1)]) (auto simp: own_text Let_def intro!: own_calls [OF yields_True] own_row split: option.split)
  show "yields (own_answer (mustAccountID c)) (AccountHandler_GetServices c)" unfolding AccountHandler_GetServices_def
    by (rule own_calls [OF lookup_yields(5)]) (auto intro!: own_fields split: if_splits)
  show "yields (own_answer (mustAccountID c)) (AccountHandler_GetMeReferral c)" unfolding AccountHandler_GetMeReferral_def Let_def
    by (rule own_missing [OF lookup_yields(1)], rule yields_attempt [OF yields_True]) (auto intro!: own_fields split: prod.split)
qed

lemma wallet_answers:
  "yields (own_answer (mustAccountID c)) (WalletHandler_GetWallet c)" "yields (own_answer (mustAccountID c)) (WalletHandler_ListTransactions c)"
  "yields (own_answer (mustAccountID c)) (WalletHandler_Redeem c)" "yields (own_answer (mustAccountID c)) (WalletHandler_TopupInfo h c)"
  "yields (own_answer (mustAccountID c)) (WalletHandler_CreateTopup h c)" "yields (own_answer (mustAccountID c)) (WalletHandler_ListOrders c)"
  "yields (own_answer (mustAccountID c)) (WalletHandler_GetOrder c)"
proof -
  show "yields (own_answer (mustAccountID c)) (WalletHandler_GetWallet c)" unfolding WalletHandler_GetWallet_def
    by (rule own_calls [OF lookup_yields(3)]) (auto intro!: own_row)
  show "yields (own_answer (mustAccountID c)) (WalletHandler_ListTransactions c)" unfolding WalletHandler_ListTransactions_def
    by (cases "page_params c") (auto intro!: own_calls [OF page_yields(1)] own_page)
  show "yields (own_answer (mustAccountID c)) (WalletHandler_Redeem c)" unfolding WalletHandler_Redeem_def
    by (rule own_body, rule own_calls [OF yields_True]) (auto intro!: own_fields)
  show "yields (own_answer (mustAccountID c)) (WalletHandler_TopupInfo h c)" unfolding WalletHandler_TopupInfo_def
    by (rule own_fields) (auto simp: method_json_def)
  show "yields (own_answer (mustAccountID c)) (WalletHandler_CreateTopup h c)" unfolding WalletHandler_CreateTopup_def
    by (auto intro!: own_body own_text own_calls [OF yields_True] answer_checkout_own split: sum.split)
  show "yields (own_answer (mustAccountID c)) (WalletHandler_ListOrders c)" unfolding WalletHandler_ListOrders_def
    by (cases "page_params c") (auto intro!: own_calls [OF page_yields(2)] own_page)
  show "yields (own_answer (mustAccountID c)) (WalletHandler_GetOrder c)" unfolding WalletHandler_GetOrder_def
    by (rule own_calls [OF document_yields(1)]) (auto intro!: own_row)
qed

lemma subscription_answers:
  "yields (own_answer (mustAccountID c)) (SubscriptionHandler_ListSubscriptions c)" "yields (own_answer (mustAccountID c)) (SubscriptionHandler_GetSubscription c)"
  "yields (own_answer (mustAccountID c)) (SubscriptionHandler_Checkout h c)" "yields (own_answer (mustAccountID c)) (SubscriptionHandler_CancelSubscription c)"
proof -
  let ?i = "mustAccountID c"
  show "yields (own_answer ?i) (SubscriptionHandler_ListSubscriptions c)" unfolding SubscriptionHandler_ListSubscriptions_def
    by (rule own_calls [OF lookup_yields(5)]) (auto intro!: own_fields split: if_splits)
  show "yields (own_answer ?i) (SubscriptionHandler_GetSubscription c)" unfolding SubscriptionHandler_GetSubscription_def
    by (rule own_calls [OF lookup_yields(4)]) (auto intro!: own_row own_text split: option.split)
  have "yields (own_answer ?i) (wallet_checkout ?i p pl me)" for p pl me unfolding wallet_checkout_def
    by (rule own_missing [where Q = "\<lambda>_. True"], simp add: yields_True, rule own_calls(2) [OF yields_True],
        rule yields_attempt [OF activation_yields]) (auto intro!: own_fields own_text yields_bind_any)
  moreover have "yields (own_answer ?i) (order_checkout h ?i p pl me u)" for p pl me u unfolding order_checkout_def
    by (rule own_missing [where Q = "\<lambda>_. True"], simp add: yields_True)
      (auto intro!: own_calls [OF yields_True] own_text answer_checkout_own split: sum.split)
  ultimately show "yields (own_answer ?i) (SubscriptionHandler_Checkout h c)" unfolding SubscriptionHandler_Checkout_def
    by (auto intro!: own_body)
  show "yields (own_answer ?i) (SubscriptionHandler_CancelSubscription c)" unfolding SubscriptionHandler_CancelSubscription_def
    by (rule own_calls [OF yields_True]) (auto intro!: own_fields)
qed

lemma document_answers:
  "yields (own_answer (mustAccountID c)) (InvoiceHandler_GenerateInvoice c)" "yields (own_answer (mustAccountID c)) (InvoiceHandler_ListInvoices c)"
  "yields (own_answer (mustAccountID c)) (InvoiceHandler_GetInvoice c)" "yields (own_answer (mustAccountID c)) (RefundHandler_RequestRefund c)"
  "yields (own_answer (mustAccountID c)) (RefundHandler_ListRefunds c)" "yields (own_answer (mustAccountID c)) (RefundHandler_GetRefund c)"
  unfolding InvoiceHandler_GenerateInvoice_def InvoiceHandler_ListInvoices_def InvoiceHandler_GetInvoice_def RefundHandler_RequestRefund_def
    RefundHandler_ListRefunds_def RefundHandler_GetRefund_def
  by (auto intro!: own_body own_row own_page own_calls [OF document_yields(2)] own_calls [OF document_yields(3)] own_calls [OF document_yields(4)]
      own_calls [OF document_yields(5)] own_calls [OF page_yields(3)] own_calls [OF page_yields(4)] split: prod.split)

lemma other_answers:
  "yields (own_answer (mustAccountID c)) (CheckinHandler_GetStatus c)" "yields (own_answer (mustAccountID c)) (CheckinHandler_DoCheckin c)"
  "yields (own_answer (mustAccountID c)) (ProductHandler_ListProducts c)" "yields (own_answer (mustAccountID c)) (ProductHandler_ListPlans c)"
proof -
  let ?i = "mustAccountID c"
  show "yields (own_answer ?i) (CheckinHandler_GetStatus c)" unfolding CheckinHandler_GetStatus_def
    by (rule own_calls [OF checkin_yields]) (auto intro!: own_row simp: status_json_def split: if_splits)
  show "yields (own_answer ?i) (CheckinHandler_DoCheckin c)" unfolding CheckinHandler_DoCheckin_def
    by (rule yields_attempt [OF yields_True]) (auto intro!: own_row own_text simp: result_json_def)
  show "yields (own_answer ?i) (ProductHandler_ListProducts c)" unfolding ProductHandler_ListProducts_def
    by (rule own_calls [OF yields_True]) (auto intro!: own_fields split: if_splits)
  show "yields (own_answer ?i) (ProductHandler_ListPlans c)" unfolding ProductHandler_ListPlans_def
    by (rule own_calls [OF yields_True]) (auto intro!: own_fields split: if_splits)
qed

lemma organization_answers:
  "yields (own_answer i) (OrganizationHandler_Create c)" "yields (own_answer i) (OrganizationHandler_ListMine c)"
  "yields (own_answer i) (OrganizationHandler_Get c)" "yields (own_answer i) (OrganizationHandler_AddMember c)"
  "yields (own_answer i) (OrganizationHandler_RemoveMember c)" "yields (own_answer i) (OrganizationHandler_ListAPIKeys c)"
  "yields (own_answer i) (OrganizationHandler_CreateAPIKey c)" "yields (own_answer i) (OrganizationHandler_RevokeAPIKey c)"
  "yields (own_answer i) (OrganizationHandler_GetWallet c)"
  unfolding OrganizationHandler_Create_def OrganizationHandler_ListMine_def OrganizationHandler_Get_def OrganizationHandler_AddMember_def
    OrganizationHandler_RemoveMember_def OrganizationHandler_ListAPIKeys_def OrganizationHandler_CreateAPIKey_def
    OrganizationHandler_RevokeAPIKey_def OrganizationHandler_GetWallet_def with_org_def
  by (auto intro!: own_body own_row own_text own_fields own_calls [OF yields_True] yields_ret split: option.split prod.split if_splits)



end
