(* ===== verification/Cron.thy ===== *)
theory Cron
  imports Subscriptions Outbox Accounts
begin

text \<open>
  The scheduled jobs of \<^verbatim>\<open>internal/app/cron\<close>: expiry of subscriptions and stale orders,
  auto-renewal, and reminder mails (with the senders of \<^verbatim>\<open>internal/pkg/email\<close>). One tick
  of a job is one operation; its ticker loop is the sequence of its ticks. A tick is guarded by
  a Redis lock. The lemmas show that an expiry run moves every subscription at most one step of
  its life cycle whatever fails, that a renewal charges exactly what it activates, that nothing
  in the program ever switches auto-renewal on, and how late reminders misstate the days left.
\<close>

section \<open>Loops and locks\<close>

text \<open>A loop over rows that logs an error and goes on: how many rounds succeeded and failed.\<close>

fun count_loop :: "('a \<Rightarrow> unit op) \<Rightarrow> 'a list \<Rightarrow> (int \<times> int) op" where
  "count_loop f [] = ret (0, 0)"
| "count_loop f (x # xs) = attempt (f x) (\<lambda>r.
     bind (count_loop f xs) (\<lambda>(done, failed).
     ret (case r of Inl e \<Rightarrow> (done, failed + 1) | Inr _ \<Rightarrow> (done + 1, failed))))"

definition acquireLock :: "string \<Rightarrow> time \<Rightarrow> bool op" where
  "acquireLock lockKey lockTTL = wrap ''redis SetNX'' (r_setnx lockKey (RStr ''1'') lockTTL)"

definition releaseLock :: "string \<Rightarrow> unit op" where
  "releaseLock lockKey = ignore (r_del lockKey)"

text \<open>The common shape of \<^verbatim>\<open>tick\<close>: lock, run, release.\<close>

definition locked_tick :: "string \<Rightarrow> time \<Rightarrow> 'a op \<Rightarrow> unit op" where
  "locked_tick lockKey lockTTL run = attempt (acquireLock lockKey lockTTL) (\<lambda>r. case r of
     Inl e \<Rightarrow> ret ()
   | Inr acquired \<Rightarrow> if \<not> acquired then ret () else bind (ignore run) (\<lambda>_. releaseLock lockKey))"

text \<open>Outbox first, direct publication if the insert fails.\<close>

definition via_outbox :: "IdentityEvent op \<Rightarrow> unit op" where
  "via_outbox newEvent = attempt newEvent (\<lambda>e. case e of
     Inl _ \<Rightarrow> ret ()
   | Inr ev \<Rightarrow> attempt (OutboxRepo_Insert ev) (\<lambda>i. case i of
       Inr _ \<Rightarrow> ret ()
     | Inl _ \<Rightarrow> ignore (Publisher_Publish ev)))"

section \<open>Expiry\<close>

definition expiry_lockKey :: string where
  "expiry_lockKey = ''cron:lock:subscription_expiry''"

definition expiry_lockTTL :: time where
  "expiry_lockTTL = minutes 10"

definition pendingOrderMaxAge :: time where
  "pendingOrderMaxAge = 24 * hour_ns"

definition ExpiryJob_publishEvent :: "string \<Rightarrow> int \<Rightarrow> string \<Rightarrow> string \<Rightarrow> json \<Rightarrow> unit op" where
  "ExpiryJob_publishEvent subject accountID lurusID productID payload =
     via_outbox (NewEvent subject accountID lurusID productID payload)"

text \<open>One round of each phase. The payload is a Go map, so its keys are sorted.\<close>

definition expiry_payload :: "Subscription \<Rightarrow> string \<Rightarrow> json" where
  "expiry_payload sub phase = JObj [(''phase'', JStr phase), (''subscription_id'', JNum (of_int (sub_ID sub)))]"

definition grace_round :: "int \<Rightarrow> Subscription \<Rightarrow> unit op" where
  "grace_round gracePeriodDays sub =
     bind (SubscriptionService_Expire gracePeriodDays (sub_ID sub)) (\<lambda>_.
     ExpiryJob_publishEvent ''identity.subscription.expired'' (sub_AccountID sub) '''' (sub_ProductID sub)
       (expiry_payload sub ''grace_entered''))"

definition downgrade_round :: "Subscription \<Rightarrow> unit op" where
  "downgrade_round sub =
     bind (SubscriptionService_EndGrace (sub_ID sub)) (\<lambda>_.
     ExpiryJob_publishEvent ''identity.subscription.expired'' (sub_AccountID sub) '''' (sub_ProductID sub)
       (expiry_payload sub ''expired_downgraded''))"

text \<open>The result is \<^verbatim>\<open>(scanned, processed, failed)\<close>.\<close>

definition ExpiryJob_runExpiry :: "int \<Rightarrow> (int \<times> int \<times> int) op" where
  "ExpiryJob_runExpiry gracePeriodDays =
     attempt SubscriptionService_ListActiveExpired (\<lambda>r1. case r1 of
       Inl e \<Rightarrow> ret (0, 0, 0)
     | Inr activeExpired \<Rightarrow>
     bind (count_loop (grace_round gracePeriodDays) activeExpired) (\<lambda>(p1, f1).
     attempt SubscriptionService_ListGraceExpired (\<lambda>r2. case r2 of
       Inl e \<Rightarrow> ret (int (length activeExpired), p1, f1)
     | Inr graceExpired \<Rightarrow>
     bind (count_loop downgrade_round graceExpired) (\<lambda>(p2, f2).
     attempt (WalletService_ExpireStalePendingOrders pendingOrderMaxAge) (\<lambda>r3.
     ret (int (length activeExpired) + int (length graceExpired),
          p1 + p2 + (case r3 of Inl e \<Rightarrow> 0 | Inr expired \<Rightarrow> if 0 < expired then expired else 0), f1 + f2))))))"

definition ExpiryJob_tick :: "int \<Rightarrow> unit op" where
  "ExpiryJob_tick gracePeriodDays =
     locked_tick expiry_lockKey expiry_lockTTL (ExpiryJob_runExpiry gracePeriodDays)"

section \<open>Renewal\<close>

definition renewalLockKey :: string where
  "renewalLockKey = ''cron:lock:subscription_renewal''"

definition renewalLockTTL :: time where
  "renewalLockTTL = minutes 55"

definition nextRenewalAt :: "time \<Rightarrow> int \<Rightarrow> time" where
  "nextRenewalAt n attempts = n + (if attempts = 1 then 1 * hour_ns else if attempts = 2 then 4 * hour_ns else 12 * hour_ns)"

definition RenewalJob_publishRenewalEvent :: "string \<Rightarrow> int \<Rightarrow> string \<Rightarrow> json \<Rightarrow> unit op" where
  "RenewalJob_publishRenewalEvent subject accountID productID payload =
     via_outbox (NewEvent subject accountID '''' productID payload)"

definition renewed_payload :: "Subscription \<Rightarrow> ProductPlan \<Rightarrow> json" where
  "renewed_payload sub plan = JObj [(''event'', JStr ''renewal_success''), (''plan_code'', JStr (plan_Code plan)),
     (''plan_id'', JNum (of_int (sub_PlanID sub))), (''subscription_id'', JNum (of_int (sub_ID sub)))]"

definition renewal_failed_payload :: "Subscription \<Rightarrow> int \<Rightarrow> time \<Rightarrow> err \<Rightarrow> json" where
  "renewal_failed_payload sub attempts nextAt e = JObj [(''event'', JStr ''renewal_failed''),
     (''next_renewal_at'', JStr (format_rfc3339 nextAt)), (''plan_id'', JNum (of_int (sub_PlanID sub))),
     (''reason'', JStr (err_text e)), (''renewal_attempts'', JNum (of_int attempts)),
     (''subscription_id'', JNum (of_int (sub_ID sub)))]"

definition RenewalJob_processOne :: "Subscription \<Rightarrow> unit op" where
  "RenewalJob_processOne sub =
     bind (wrap (''get plan '' @ itoa (sub_PlanID sub)) (ProductRepo_GetPlanByID (sub_PlanID sub))) (\<lambda>p. case p of
       None \<Rightarrow> fail (EMsg (''plan '' @ itoa (sub_PlanID sub) @ '' not found''))
     | Some plan \<Rightarrow>
     attempt (WalletService_Debit (sub_AccountID sub) (plan_PriceCNY plan) ''subscription_renewal''
        (''Auto-renewal for plan '' @ plan_Code plan) ''subscription'' (''renewal:sub:'' @ itoa (sub_ID sub)) (sub_ProductID sub)) (\<lambda>debit. case debit of
       Inr _ \<Rightarrow>
         attempt (SubscriptionService_Activate (sub_AccountID sub) (sub_ProductID sub) (sub_PlanID sub)
            (sub_PaymentMethod sub) (sub_ExternalSubID sub)) (\<lambda>act. case act of
           Inl activateErr \<Rightarrow>
             bind (ignore (WalletService_Credit (sub_AccountID sub) (plan_PriceCNY plan) ''subscription_renewal_refund''
                (''Renewal refund: activation failed for plan '' @ plan_Code plan) ''subscription''
                (''refund:renewal:sub:'' @ itoa (sub_ID sub)) (sub_ProductID sub))) (\<lambda>_.
             fail (EWrap ''activate after debit (funds refunded)'' activateErr))
         | Inr _ \<Rightarrow>
             bind (ignore (SubscriptionRepo_UpdateRenewalState (sub_ID sub) 0 None)) (\<lambda>_.
             RenewalJob_publishRenewalEvent ''identity.subscription.activated'' (sub_AccountID sub) (sub_ProductID sub)
               (renewed_payload sub plan)))
     | Inl debitErr \<Rightarrow>
         bind now (\<lambda>n.
         let nextAttempts = sub_RenewalAttempts sub + 1; nextAt = nextRenewalAt n nextAttempts in
         bind (ignore (SubscriptionRepo_UpdateRenewalState (sub_ID sub) nextAttempts (Some nextAt))) (\<lambda>_.
         bind (RenewalJob_publishRenewalEvent ''identity.subscription.expired'' (sub_AccountID sub) (sub_ProductID sub)
           (renewal_failed_payload sub nextAttempts nextAt debitErr)) (\<lambda>_.
         fail (EWrap (''debit account '' @ itoa (sub_AccountID sub)) debitErr))))))"

text \<open>The result is \<^verbatim>\<open>(scanned, renewed, failed)\<close>.\<close>

definition RenewalJob_runRenewal :: "(int \<times> int \<times> int) op" where
  "RenewalJob_runRenewal = attempt SubscriptionRepo_ListDueForRenewal (\<lambda>r. case r of
     Inl e \<Rightarrow> ret (0, 0, 0)
   | Inr due \<Rightarrow> bind (count_loop RenewalJob_processOne due) (\<lambda>(renewed, failed).
       ret (int (length due), renewed, failed)))"

definition RenewalJob_tick :: "unit op" where
  "RenewalJob_tick = locked_tick renewalLockKey renewalLockTTL RenewalJob_runRenewal"

section \<open>Reminders\<close>

definition NoopSender_Send :: "string \<Rightarrow> string \<Rightarrow> string \<Rightarrow> unit op" where
  "NoopSender_Send to subject body = ret ()"

text \<open>The server accepts the message, or the call errors.\<close>

definition SMTPSender_Send :: "string \<Rightarrow> string \<Rightarrow> string \<Rightarrow> unit op" where
  "SMTPSender_Send to subject body =
     stmt (EExt ''smtp'') (\<lambda>w. (Inr (), w\<lparr>sent := sent w @ [Mail to subject body]\<rparr>))"

definition notificationLockKey :: string where
  "notificationLockKey = ''cron:lock:subscription_notification''"

definition notificationLockTTL :: time where
  "notificationLockTTL = 23 * hour_ns"

definition remindDedupeExtra :: time where
  "remindDedupeExtra = 48 * hour_ns"

definition reminderDays :: "int list" where
  "reminderDays = [7, 3, 1]"

definition crlf :: string where
  "crlf = [CHR 0x0D, CHR 0x0A]"

definition reminder_subject :: "int \<Rightarrow> string" where
  "reminder_subject daysLeft = ''Your subscription expires in '' @ itoa daysLeft @ '' day(s)''"

text \<open>\<^verbatim>\<open>Format("2006-01-02 15:04 UTC")\<close> cuts the clock at the minute.\<close>

definition reminder_body :: "Account \<Rightarrow> Subscription \<Rightarrow> time \<Rightarrow> int \<Rightarrow> string" where
  "reminder_body account sub expiresAt daysLeft =
     ''Dear '' @ acc_DisplayName account @ '','' @ crlf @ crlf
     @ ''Your subscription (ID: '' @ itoa (sub_ID sub) @ '') for product '' @ go_quote (sub_ProductID sub)
     @ '' will expire in '' @ itoa daysLeft @ '' day(s) on '' @ format_date expiresAt @ '' ''
     @ take 5 (clock_text (clock_of expiresAt)) @ '' UTC.'' @ crlf @ crlf
     @ ''Please renew your subscription to continue uninterrupted service.'' @ crlf @ crlf @ ''Lurus Platform''"

definition NotificationJob_sendReminder ::
  "(string \<Rightarrow> string \<Rightarrow> string \<Rightarrow> unit op) \<Rightarrow> Account \<Rightarrow> Subscription \<Rightarrow> time \<Rightarrow> int \<Rightarrow> unit op" where
  "NotificationJob_sendReminder mailer account sub expiresAt daysLeft =
     mailer (acc_Email account) (reminder_subject daysLeft) (reminder_body account sub expiresAt daysLeft)"

definition dedupe_key :: "int \<Rightarrow> int \<Rightarrow> string" where
  "dedupe_key subID days = ''email:remind:'' @ itoa subID @ '':'' @ itoa days"

definition r_exists :: "string \<Rightarrow> int op" where
  "r_exists k = stmt ERedis (\<lambda>w. (Inr (if live k w = None then 0 else 1), w))"

datatype remind_result = Sent | Skipped | Failed | Ignored

text \<open>One round of the inner loop.\<close>

definition remind_one ::
  "(string \<Rightarrow> string \<Rightarrow> string \<Rightarrow> unit op) \<Rightarrow> int \<Rightarrow> Subscription \<Rightarrow> remind_result op" where
  "remind_one mailer days sub = (case sub_ExpiresAt sub of
     None \<Rightarrow> ret Ignored
   | Some expiresAt \<Rightarrow>
     attempt (r_exists (dedupe_key (sub_ID sub) days)) (\<lambda>ex. case ex of
       Inl e \<Rightarrow> ret Failed
     | Inr cnt \<Rightarrow> if 0 < cnt then ret Skipped else
       attempt (AccountRepo_GetByID (sub_AccountID sub)) (\<lambda>a. case a of
         Inr (Some account) \<Rightarrow>
           attempt (NotificationJob_sendReminder mailer account sub expiresAt days) (\<lambda>s. case s of
             Inl e \<Rightarrow> ret Failed
           | Inr _ \<Rightarrow> bind now (\<lambda>n.
               let remaining = expiresAt - n + remindDedupeExtra;
                   ttl = (if remaining < minute_ns then remindDedupeExtra else remaining)
               in bind (ignore (r_set (dedupe_key (sub_ID sub) days) (RStr ''1'') ttl)) (\<lambda>_. ret Sent)))
       | _ \<Rightarrow> ret Failed)))"

fun remind_all :: "(Subscription \<Rightarrow> remind_result op) \<Rightarrow> Subscription list \<Rightarrow> remind_result list op" where
  "remind_all f [] = ret []"
| "remind_all f (s # ss) = bind (f s) (\<lambda>r. bind (remind_all f ss) (\<lambda>rs. ret (r # rs)))"

definition remind_days ::
  "(string \<Rightarrow> string \<Rightarrow> string \<Rightarrow> unit op) \<Rightarrow> int \<Rightarrow> remind_result list op" where
  "remind_days mailer days = attempt (SubscriptionRepo_ListExpiring (days * 24)) (\<lambda>r. case r of
     Inl e \<Rightarrow> ret [Failed]
   | Inr expiring \<Rightarrow> remind_all (remind_one mailer days) expiring)"

fun remind_windows ::
  "(string \<Rightarrow> string \<Rightarrow> string \<Rightarrow> unit op) \<Rightarrow> int list \<Rightarrow> remind_result list op" where
  "remind_windows mailer [] = ret []"
| "remind_windows mailer (d # ds) = bind (remind_days mailer d) (\<lambda>rs. bind (remind_windows mailer ds) (\<lambda>ss. ret (rs @ ss)))"

text \<open>The result is \<^verbatim>\<open>(sent, skipped, failed)\<close>.\<close>

definition NotificationJob_runNotifications ::
  "(string \<Rightarrow> string \<Rightarrow> string \<Rightarrow> unit op) \<Rightarrow> (int \<times> int \<times> int) op" where
  "NotificationJob_runNotifications mailer = bind (remind_windows mailer reminderDays) (\<lambda>rs.
     ret (int (count_list rs Sent), int (count_list rs Skipped), int (count_list rs Failed)))"

definition NotificationJob_tick :: "(string \<Rightarrow> string \<Rightarrow> string \<Rightarrow> unit op) \<Rightarrow> unit op" where
  "NotificationJob_tick mailer =
     locked_tick notificationLockKey notificationLockTTL (NotificationJob_runNotifications mailer)"

section \<open>Frames\<close>

lemma via_outbox_leaves [leaves_intros]:
  assumes "stable f" "apart f outbox_T" "\<And>w g. f (w\<lparr>published := g\<rparr>) = f w" "leaves f m"
  shows "leaves f (via_outbox m)"
  using assms unfolding via_outbox_def OutboxRepo_Insert_def Publisher_Publish_def
  by (auto intro!: leaves_intros leaves_stmt split: sum.splits) (simp add: leaves_def)

lemma NewEvent_leaves [leaves_intros]: "stable f \<Longrightarrow> leaves f (NewEvent ty a l p j)"
  unfolding NewEvent_def by (intro leaves_intros)

lemma count_loop_leaves [leaves_intros]: "(\<And>x. leaves f (g x)) \<Longrightarrow> leaves f (count_loop g xs)"
  by (induction xs) (auto intro!: leaves_intros split: prod.splits)

lemma count_loop_keeps [keeps_intros]: "(\<And>x. keeps I (g x)) \<Longrightarrow> keeps I (count_loop g xs)"
  by (induction xs) (auto intro!: keeps_intros split: prod.splits)

lemma expiry_event_leaves [leaves_intros]:
  assumes "stable f" "apart f outbox_T" "\<And>w g. f (w\<lparr>published := g\<rparr>) = f w"
  shows "leaves f (ExpiryJob_publishEvent ty a l p j)" "leaves f (RenewalJob_publishRenewalEvent ty a p j)"
  unfolding ExpiryJob_publishEvent_def RenewalJob_publishRenewalEvent_def using assms by (auto intro!: leaves_intros)

section \<open>An expiry run moves every subscription at most one step\<close>

text \<open>The specification: one step of the life cycle of a subscription at time \<open>n\<close>.\<close>

inductive lifecycle :: "int \<Rightarrow> time \<Rightarrow> Subscription \<Rightarrow> Subscription \<Rightarrow> bool" for g n where
  to_grace: "sub_Status s = SubStatusActive \<Longrightarrow> opt_less (sub_ExpiresAt s) n \<Longrightarrow>
     lifecycle g n s (s\<lparr>sub_Status := SubStatusGrace, sub_GraceUntil := Some (n + gracePeriodDays_of g * 24 * hour_ns), sub_UpdatedAt := n\<rparr>)"
| to_expired: "sub_Status s = SubStatusGrace \<Longrightarrow> opt_less (sub_GraceUntil s) n \<Longrightarrow>
     lifecycle g n s (s\<lparr>sub_Status := SubStatusExpired, sub_UpdatedAt := n\<rparr>)"

code_pred (modes: i \<Rightarrow> i \<Rightarrow> i \<Rightarrow> o \<Rightarrow> bool) lifecycle .

definition graced :: "int \<Rightarrow> time \<Rightarrow> Subscription \<Rightarrow> Subscription" where
  "graced g n s = s\<lparr>sub_Status := SubStatusGrace, sub_GraceUntil := Some (n + gracePeriodDays_of g * 24 * hour_ns), sub_UpdatedAt := n\<rparr>"

definition lapsed :: "time \<Rightarrow> Subscription \<Rightarrow> Subscription" where
  "lapsed n s = s\<lparr>sub_Status := SubStatusExpired, sub_UpdatedAt := n\<rparr>"

lemma moved_ID [simp]: "sub_ID (graced g n s) = sub_ID s" "sub_ID (lapsed n s) = sub_ID s"
  by (simp_all add: graced_def lapsed_def)

lemma subs_touch: "t_touch subs_T n r = r\<lparr>sub_UpdatedAt := n\<rparr>"
  by (simp add: subs_T_def)

lemma Update_found:
  assumes "SubscriptionRepo_Update r w = (x, w')" and "s \<in> set (subs w)" and "sub_ID s = sub_ID r"
  shows "subs w' = subs w \<or> subs w' = upd_rows (\<lambda>y. sub_ID y = sub_ID r) (\<lambda>_. r\<lparr>sub_UpdatedAt := clock w\<rparr>) (subs w)"
  using assms unfolding SubscriptionRepo_Update_def q_save_def stmt_def
  by (auto simp: subs_touch sub_cols subs_get Let_def split: if_splits option.splits)

lemma upd_rows_found:
  assumes "uniq_by key t" and "find (\<lambda>x. key x = k) t = Some s"
  shows "upd_rows (\<lambda>y. key y = k) (\<lambda>_. f s) t = upd_rows (\<lambda>y. key y = k) f t"
proof -
  have s: "s \<in> set t" "key s = k" using find_SomeD [OF assms(2)] by simp_all
  have "y = s" if "y \<in> set t" "key y = k" for y using uniq_by_eq [OF assms(1)] that s by metis
  then show ?thesis unfolding upd_rows_def by auto
qed

lemma GetByID_cases:
  "SubscriptionRepo_GetByID i w = (r, w1) \<Longrightarrow> subs w1 = subs w \<and> clock w1 = clock w
     \<and> (case r of Inr (Some s) \<Rightarrow> find (\<lambda>x. sub_ID x = i) (subs w) = Some s | _ \<Rightarrow> True)"
  unfolding SubscriptionRepo_GetByID_def
  by (auto simp: opt_row_def q_first_def stmt_def subs_get split: if_splits option.splits sum.splits prod.splits)

lemma leaves_update_clock [leaves_intros]: "leaves clock (SubscriptionRepo_Update r)"
  unfolding SubscriptionRepo_Update_def by (auto intro!: leaves_intros simp: apart_def)

lemma Expire_rows:
  assumes "uniq_by sub_ID (subs w)" and "SubscriptionService_Expire g i w = (r, w')"
  shows "clock w' = clock w \<and> (subs w' = subs w \<or> subs w' = upd_rows (\<lambda>s. sub_ID s = i) (graced g (clock w)) (subs w))"
proof -
  obtain o1 w1 where l: "SubscriptionRepo_GetByID i w = (o1, w1)" by fastforce
  note c = GetByID_cases [OF l]
  show ?thesis
  proof (cases "\<exists>s. o1 = Inr (Some s)")
    case True
    then obtain s where s: "o1 = Inr (Some s)" by blast
    then have f: "find (\<lambda>x. sub_ID x = i) (subs w) = Some s" using c by simp
    have u: "SubscriptionRepo_Update (s\<lparr>sub_Status := SubStatusGrace,
            sub_GraceUntil := Some (clock w + gracePeriodDays_of g * 24 * hour_ns)\<rparr>) w1 = (r, w')"
      using assms(2) l s c by (simp add: SubscriptionService_Expire_def attempt_def bind_def now_def)
    show ?thesis
      using Update_found [OF u, of s] find_SomeD [OF f] c leavesD [OF leaves_update_clock u] upd_rows_found [OF assms(1) f, of "graced g (clock w)"]
      by (auto simp: graced_def)
  next
    case False
    then show ?thesis using assms(2) l c
      by (auto simp: SubscriptionService_Expire_def attempt_def fail_def split: sum.splits option.splits)
  qed
qed

lemma reset_leaves [leaves_intros]: "leaves subs (EntitlementService_ResetToFree a p)" "leaves clock (EntitlementService_ResetToFree a p)"
  by (rule ent_service_frames(2); auto simp: apart_def)+

lemma EndGrace_rows:
  assumes "uniq_by sub_ID (subs w)" and "SubscriptionService_EndGrace i w = (r, w')"
  shows "clock w' = clock w \<and> (subs w' = subs w \<or> subs w' = upd_rows (\<lambda>s. sub_ID s = i) (lapsed (clock w)) (subs w))"
proof -
  obtain o1 w1 where l: "SubscriptionRepo_GetByID i w = (o1, w1)" by fastforce
  note c = GetByID_cases [OF l]
  show ?thesis
  proof (cases "\<exists>s. o1 = Inr (Some s)")
    case True
    then obtain s where s: "o1 = Inr (Some s)" by blast
    then have f: "find (\<lambda>x. sub_ID x = i) (subs w) = Some s" using c by simp
    obtain x w2 where u: "SubscriptionRepo_Update (s\<lparr>sub_Status := SubStatusExpired\<rparr>) w1 = (x, w2)" by fastforce
    have "subs w' = subs w2 \<and> clock w' = clock w2"
      using assms(2) l s u reset_leaves [of "sub_AccountID s" "sub_ProductID s"]
      by (cases x) (auto simp: SubscriptionService_EndGrace_def attempt_def bind_def dest: leavesD)
    then show ?thesis
      using Update_found [OF u, of s] find_SomeD [OF f] c leavesD [OF leaves_update_clock u] upd_rows_found [OF assms(1) f, of "lapsed (clock w)"]
      by (auto simp: lapsed_def)
  next
    case False
    then show ?thesis using assms(2) l c
      by (auto simp: SubscriptionService_EndGrace_def attempt_def fail_def split: sum.splits option.splits)
  qed
qed

lemma map_pass:
  "upd_rows (\<lambda>s. key s = i) f (map (\<lambda>s. if key s \<in> D then f s else s) t) = map (\<lambda>s. if key s \<in> insert i D then f s else s) t"
  if "\<And>s. key (f s) = key s" "\<And>s. f (f s) = f s"
  using that by (induction t) auto

text \<open>A loop of such rounds applies \<open>f\<close> to the rows of some of its ids.\<close>

lemma count_loop_rows:
  assumes round: "\<And>x w r w'. uniq_by sub_ID (subs w) \<Longrightarrow> g x w = (r, w') \<Longrightarrow> clock w = n \<Longrightarrow>
      clock w' = clock w \<and> (subs w' = subs w \<or> subs w' = upd_rows (\<lambda>s. sub_ID s = sub_ID x) f (subs w))"
    and f: "\<And>s. sub_ID (f s) = sub_ID s" "\<And>s. f (f s) = f s"
    and "uniq_by sub_ID t" and "count_loop g xs w = (r, w')" and "clock w = n"
    and "subs w = map (\<lambda>s. if sub_ID s \<in> D then f s else s) t"
  shows "clock w' = n \<and> (\<exists>E. E \<subseteq> D \<union> sub_ID ` set xs \<and> subs w' = map (\<lambda>s. if sub_ID s \<in> E then f s else s) t)"
  using assms(5-)
proof (induction xs arbitrary: w r D)
  case Nil
  then show ?case by (auto simp: ret_def)
next
  case (Cons x xs)
  obtain r1 w1 where s: "g x w = (r1, w1)" by fastforce
  obtain r2 w2 where l: "count_loop g xs w1 = (r2, w2)" by fastforce
  have w': "w' = w2" using Cons.prems(1) s l
    by (cases r2) (auto simp: attempt_def bind_def ret_def split: prod.splits)
  have "uniq_by sub_ID (subs w)" unfolding Cons.prems(3) using assms(4) f(1) by (simp add: uniq_by_def comp_def if_distrib cong: if_cong)
  note rd = round [OF this s Cons.prems(2)]
  have "\<exists>D1. D1 \<subseteq> insert (sub_ID x) D \<and> subs w1 = map (\<lambda>s. if sub_ID s \<in> D1 then f s else s) t"
    using rd
  proof (elim conjE disjE)
    assume "subs w1 = subs w" then show ?thesis using Cons.prems(3) by (intro exI [of _ D]) auto
  next
    assume "subs w1 = upd_rows (\<lambda>s. sub_ID s = sub_ID x) f (subs w)"
    then show ?thesis using map_pass [of sub_ID f "sub_ID x" D t] f Cons.prems(3) by (intro exI [of _ "insert (sub_ID x) D"]) auto
  qed
  then obtain D1 where D1: "D1 \<subseteq> insert (sub_ID x) D" "subs w1 = map (\<lambda>s. if sub_ID s \<in> D1 then f s else s) t" by blast
  have "clock w1 = n" using rd Cons.prems(2) by simp
  from Cons.IH [OF l [folded w'] this D1(2)] obtain E where "clock w' = n"
    "E \<subseteq> D1 \<union> sub_ID ` set xs" "subs w' = map (\<lambda>s. if sub_ID s \<in> E then f s else s) t" by blast
  moreover from this(2) D1(1) have "E \<subseteq> D \<union> sub_ID ` set (x # xs)" by auto
  ultimately show ?case by blast
qed

lemma event_rows: "leaves subs (ExpiryJob_publishEvent ty a l p j)" "leaves clock (ExpiryJob_publishEvent ty a l p j)"
  by (auto intro!: leaves_intros simp: apart_def)

lemma bind_rows: "bind m k w = (r, w') \<Longrightarrow> (\<And>x. leaves f (k x)) \<Longrightarrow> m w = (r1, w1) \<Longrightarrow> f w' = f w1"
  by (auto simp: bind_def dest: leavesD split: sum.splits)

lemma grace_round_rows:
  assumes "uniq_by sub_ID (subs w)" and "grace_round g x w = (r, w')"
  shows "clock w' = clock w \<and> (subs w' = subs w \<or> subs w' = upd_rows (\<lambda>s. sub_ID s = sub_ID x) (graced g (clock w)) (subs w))"
proof -
  obtain r1 w1 where e: "SubscriptionService_Expire g (sub_ID x) w = (r1, w1)" by fastforce
  note b = bind_rows [OF assms(2) [unfolded grace_round_def] _ e]
  have "subs w' = subs w1" "clock w' = clock w1" by (rule b, rule event_rows)+
  then show ?thesis using Expire_rows [OF assms(1) e] by simp
qed

lemma downgrade_round_rows:
  assumes "uniq_by sub_ID (subs w)" and "downgrade_round x w = (r, w')"
  shows "clock w' = clock w \<and> (subs w' = subs w \<or> subs w' = upd_rows (\<lambda>s. sub_ID s = sub_ID x) (lapsed (clock w)) (subs w))"
proof -
  obtain r1 w1 where e: "SubscriptionService_EndGrace (sub_ID x) w = (r1, w1)" by fastforce
  note b = bind_rows [OF assms(2) [unfolded downgrade_round_def] _ e]
  have "subs w' = subs w1" "clock w' = clock w1" by (rule b, rule event_rows)+
  then show ?thesis using EndGrace_rows [OF assms(1) e] by simp
qed

lemma phase_rows:
  assumes "\<And>x w r w'. uniq_by sub_ID (subs w) \<Longrightarrow> g x w = (r, w') \<Longrightarrow> clock w = n \<Longrightarrow>
      clock w' = clock w \<and> (subs w' = subs w \<or> subs w' = upd_rows (\<lambda>s. sub_ID s = sub_ID x) f (subs w))"
    and "\<And>s. sub_ID (f s) = sub_ID s" "\<And>s. f (f s) = f s"
    and "uniq_by sub_ID (subs w)" and "count_loop g (filter P (subs w)) w = (r, w')" and "clock w = n"
  obtains E where "clock w' = n" "subs w' = map (\<lambda>s. if s \<in> E then f s else s) (subs w)" "\<forall>s\<in>E. P s"
proof -
  have none: "subs w = map (\<lambda>s. if sub_ID s \<in> {} then f s else s) (subs w)" by simp
  have rows: "clock w' = n \<and> (\<exists>E. E \<subseteq> sub_ID ` set (filter P (subs w)) \<and> subs w' = map (\<lambda>s. if sub_ID s \<in> E then f s else s) (subs w))"
    by (rule count_loop_rows [OF _ assms(2-6) none, unfolded Un_empty_left], erule (2) assms(1))
  obtain E where E: "clock w' = n" "E \<subseteq> sub_ID ` set (filter P (subs w))"
    "subs w' = map (\<lambda>s. if sub_ID s \<in> E then f s else s) (subs w)"
    using rows by blast
  have "sub_ID s \<in> E \<Longrightarrow> P s" if "s \<in> set (subs w)" for s
  proof -
    assume "sub_ID s \<in> E"
    then obtain s2 where "s2 \<in> set (subs w)" "P s2" "sub_ID s2 = sub_ID s" using E(2) by auto
    then show "P s" using uniq_by_eq [OF assms(4) _ that] by metis
  qed
  then have "\<forall>s\<in>{s \<in> set (subs w). sub_ID s \<in> E}. P s" by blast
  moreover have "subs w' = map (\<lambda>s. if s \<in> {s \<in> set (subs w). sub_ID s \<in> E} then f s else s) (subs w)"
    unfolding E(3) by (rule map_cong [OF refl]) simp
  ultimately show thesis using E(1) that by blast
qed

lemma list_rows:
  "SubscriptionService_ListActiveExpired w = (r, w1) \<Longrightarrow> subs w1 = subs w \<and> clock w1 = clock w
     \<and> (case r of Inl e \<Rightarrow> True | Inr l \<Rightarrow> l = filter (\<lambda>s. sub_Status s = SubStatusActive \<and> opt_less (sub_ExpiresAt s) (clock w)) (subs w))"
  "SubscriptionService_ListGraceExpired w = (r, w1) \<Longrightarrow> subs w1 = subs w \<and> clock w1 = clock w
     \<and> (case r of Inl e \<Rightarrow> True | Inr l \<Rightarrow> l = filter (\<lambda>s. sub_Status s = SubStatusGrace \<and> opt_less (sub_GraceUntil s) (clock w)) (subs w))"
  unfolding SubscriptionService_ListActiveExpired_def SubscriptionService_ListGraceExpired_def
    SubscriptionRepo_ListActiveExpired_def SubscriptionRepo_ListGraceExpired_def
  by (auto simp: bind_def now_def q_find_def stmt_def split: if_splits)

lemma stale_orders_subs: "leaves subs (WalletService_ExpireStalePendingOrders d)"
  unfolding WalletService_ExpireStalePendingOrders_def WalletRepo_ExpireStalePendingOrders_def
  by (auto intro!: leaves_intros simp: apart_def)

lemma graced_not_lapsing: "\<not> opt_less (sub_GraceUntil (graced g n s)) n"
  by (simp add: graced_def opt_less_def gracePeriodDays_of_def hour_ns_def)

lemma count_loop_total: "\<exists>d f w'. count_loop g xs w = (Inr (d, f), w')"
proof (induction xs arbitrary: w)
  case (Cons x xs)
  obtain r1 w1 where g: "g x w = (r1, w1)" by fastforce
  obtain d f w2 where "count_loop g xs w1 = (Inr (d, f), w2)" using Cons.IH by blast
  then show ?case using g by (cases r1) (simp_all add: attempt_def bind_def ret_def)
qed (simp add: ret_def)

lemma grace_phase:
  assumes "uniq_by sub_ID (subs w)" "count_loop (grace_round g) (filter P (subs w)) w = (r, w')" "clock w = n"
  obtains D where "clock w' = n" "subs w' = map (\<lambda>s. if s \<in> D then graced g n s else s) (subs w)" "\<forall>s\<in>D. P s"
proof -
  have rd: "clock v' = clock v \<and> (subs v' = subs v \<or> subs v' = upd_rows (\<lambda>s. sub_ID s = sub_ID x) (graced g n) (subs v))"
    if "uniq_by sub_ID (subs v)" "grace_round g x v = (y, v')" "clock v = n" for x v y v'
    using grace_round_rows [OF that(1,2)] that(3) by simp
  have idem: "\<And>s. sub_ID (graced g n s) = sub_ID s" "\<And>s. graced g n (graced g n s) = graced g n s" by (simp_all add: graced_def)
  show thesis by (rule phase_rows [where f = "graced g n", OF _ idem assms], erule (2) rd, rule that)
qed

lemma downgrade_phase:
  assumes "uniq_by sub_ID (subs w)" "count_loop downgrade_round (filter P (subs w)) w = (r, w')" "clock w = n"
  obtains E where "clock w' = n" "subs w' = map (\<lambda>s. if s \<in> E then lapsed n s else s) (subs w)" "\<forall>s\<in>E. P s"
proof -
  have rd: "clock v' = clock v \<and> (subs v' = subs v \<or> subs v' = upd_rows (\<lambda>s. sub_ID s = sub_ID x) (lapsed n) (subs v))"
    if "uniq_by sub_ID (subs v)" "downgrade_round x v = (y, v')" "clock v = n" for x v y v'
    using downgrade_round_rows [OF that(1,2)] that(3) by simp
  have idem: "\<And>s. sub_ID (lapsed n s) = sub_ID s" "\<And>s. lapsed n (lapsed n s) = lapsed n s" by (simp_all add: lapsed_def)
  show thesis by (rule phase_rows [where f = "lapsed n", OF _ idem assms], erule (2) rd, rule that)
qed

lemma uniq_by_rows: "(\<And>s. key (f s) = key s) \<Longrightarrow> uniq_by key t \<Longrightarrow> uniq_by key (map (\<lambda>s. if s \<in> D then f s else s) t)"
  by (simp add: uniq_by_def comp_def if_distrib cong: if_cong)

lemma runExpiry_rows:
  assumes "uniq_by sub_ID (subs w)" and "ExpiryJob_runExpiry g w = (r, w')"
  obtains D E where "subs w' = map (\<lambda>s. if s \<in> E then lapsed (clock w) s else s) (map (\<lambda>s. if s \<in> D then graced g (clock w) s else s) (subs w))"
    and "\<forall>s\<in>D. sub_Status s = SubStatusActive \<and> opt_less (sub_ExpiresAt s) (clock w)"
    and "\<forall>s\<in>E. sub_Status s = SubStatusGrace \<and> opt_less (sub_GraceUntil s) (clock w)"
proof -
  let ?n = "clock w"
  let ?P = "\<lambda>s. sub_Status s = SubStatusActive \<and> opt_less (sub_ExpiresAt s) ?n"
  let ?Q = "\<lambda>s. sub_Status s = SubStatusGrace \<and> opt_less (sub_GraceUntil s) ?n"
  obtain r1 w1 where l1: "SubscriptionService_ListActiveExpired w = (r1, w1)" by fastforce
  note c1 = list_rows(1) [OF l1]
  show thesis
  proof (cases r1)
    case (Inl e)
    then have "subs w' = subs w" using assms(2) l1 c1 by (auto simp: ExpiryJob_runExpiry_def attempt_def ret_def)
    then show thesis using that [of "{}" "{}"] by simp
  next
    case (Inr xs)
    obtain p1 f1 w2 where g: "count_loop (grace_round g) xs w1 = (Inr (p1, f1), w2)" using count_loop_total by metis
    have xs: "xs = filter ?P (subs w1)" and n1: "clock w1 = ?n" and u1: "uniq_by sub_ID (subs w1)"
      using assms(1) c1 Inr by simp_all
    obtain D where D: "clock w2 = ?n" "subs w2 = map (\<lambda>s. if s \<in> D then graced g ?n s else s) (subs w1)" "\<forall>s\<in>D. ?P s"
      by (rule grace_phase [OF u1 g [unfolded xs] n1])
    have u2: "uniq_by sub_ID (subs w2)" unfolding D(2) by (rule uniq_by_rows [OF _ u1]) simp
    obtain r2 w3 where l2: "SubscriptionService_ListGraceExpired w2 = (r2, w3)" by fastforce
    note c2 = list_rows(2) [OF l2]
    show thesis
    proof (cases r2)
      case (Inl e)
      then have "subs w' = subs w2" using assms(2) l1 \<open>r1 = Inr xs\<close> g l2 c2
        by (auto simp: ExpiryJob_runExpiry_def attempt_def bind_def ret_def)
      then show thesis using that [of "{}" D] D c1 by simp
    next
      case (Inr ys)
      obtain p2 f2 w4 where h: "count_loop downgrade_round ys w3 = (Inr (p2, f2), w4)" using count_loop_total by metis
      have ys: "ys = filter ?Q (subs w3)" and n3: "clock w3 = ?n" and u3: "uniq_by sub_ID (subs w3)"
        using u2 D(1) c2 Inr by simp_all
      obtain E where E: "subs w4 = map (\<lambda>s. if s \<in> E then lapsed ?n s else s) (subs w3)" "\<forall>s\<in>E. ?Q s"
        by (rule downgrade_phase [OF u3 h [unfolded ys] n3])
      obtain r5 w5 where x: "WalletService_ExpireStalePendingOrders pendingOrderMaxAge w4 = (r5, w5)" by fastforce
      have "subs w' = subs w4" using assms(2) l1 \<open>r1 = Inr xs\<close> g l2 Inr h x leavesD [OF stale_orders_subs x]
        by (auto simp: ExpiryJob_runExpiry_def attempt_def bind_def ret_def)
      then show thesis using that [of E D] D E c1 c2 by simp
    qed
  qed
qed

text \<open>C24: The expiry job implements the life cycle. Whatever statements, cache commands or publications
  fail, a run leaves the rows of the table in place and every one of them is as before or has
  made exactly one step: from active past its expiry to grace with a grace period that ends in
  the future, or from grace past its end to expired.\<close>

theorem expiry_refines_lifecycle:
  assumes "uniq_by sub_ID (subs w)" and "ExpiryJob_runExpiry g w = (r, w')"
  shows "list_all2 (\<lambda>s t. t = s \<or> lifecycle g (clock w) s t) (subs w) (subs w')"
proof -
  obtain D E where e: "subs w' = map (\<lambda>s. if s \<in> E then lapsed (clock w) s else s) (map (\<lambda>s. if s \<in> D then graced g (clock w) s else s) (subs w))"
    and D: "\<forall>s\<in>D. sub_Status s = SubStatusActive \<and> opt_less (sub_ExpiresAt s) (clock w)"
    and E: "\<forall>s\<in>E. sub_Status s = SubStatusGrace \<and> opt_less (sub_GraceUntil s) (clock w)"
    by (rule runExpiry_rows [OF assms])
  have "t = s \<or> lifecycle g (clock w) s t"
    if "t = (if (if s \<in> D then graced g (clock w) s else s) \<in> E then lapsed (clock w) (if s \<in> D then graced g (clock w) s else s)
             else if s \<in> D then graced g (clock w) s else s)" for s t
  proof (cases "s \<in> D")
    case True
    then have "graced g (clock w) s \<notin> E" using E graced_not_lapsing by blast
    then show ?thesis using that True bspec [OF D True] lifecycle.to_grace [of s "clock w" g] by (simp add: graced_def)
  next
    case False
    then show ?thesis using that bspec [OF E, of s] lifecycle.to_expired [of s "clock w" g] by (auto simp: lapsed_def)
  qed
  then have "(if (if s \<in> D then graced g (clock w) s else s) \<in> E then lapsed (clock w) (if s \<in> D then graced g (clock w) s else s)
             else if s \<in> D then graced g (clock w) s else s) = s \<or> lifecycle g (clock w) s (if (if s \<in> D then graced g (clock w) s else s) \<in> E
             then lapsed (clock w) (if s \<in> D then graced g (clock w) s else s) else if s \<in> D then graced g (clock w) s else s)" for s
    by blast
  then show ?thesis unfolding e map_map list.rel_map comp_def by (rule list.rel_refl)
qed

definition demo_due :: world where
  "demo_due = demo_live\<lparr>clock := 1000 + 32 * day_ns, entropy := [''u1'', ''u2'']\<rparr>"

theorem expiry_refines_lifecycle_witness:
  "list_all2 (\<lambda>s t. t = s \<or> lifecycle 7 (clock demo_due) s t) (subs demo_due) (subs (snd (ExpiryJob_runExpiry 7 demo_due)))
   \<and> map sub_Status (subs demo_due) = [SubStatusActive]
   \<and> map sub_Status (subs (snd (ExpiryJob_runExpiry 7 demo_due))) = [SubStatusGrace]"
proof -
  have u: "uniq_by sub_ID (subs demo_due)" by (simp add: demo_due_def demo_live_def uniq_by_def)
  have "map sub_Status (subs (snd (ExpiryJob_runExpiry 7 demo_due))) = [SubStatusGrace]" by code_simp
  moreover have "map sub_Status (subs demo_due) = [SubStatusActive]" by code_simp
  ultimately show ?thesis using expiry_refines_lifecycle [OF u prod.collapse [symmetric], of 7] by blast
qed

section \<open>Auto-renewal is never switched on\<close>

definition manual :: "world \<Rightarrow> bool" where
  "manual w \<longleftrightarrow> (\<forall>s\<in>set (subs w). \<not> sub_AutoRenew s)"

lemma stable_manual [simp, intro]: "stable manual"
  by (simp add: stable_def manual_def)

lemma keeps_manual_leaves: "leaves subs m \<Longrightarrow> keeps manual m"
  by (simp add: keeps_def leaves_def manual_def)

text \<open>A call whose result the rest of the operation inspects.\<close>

lemma keeps_attempt_result:
  assumes "\<And>w r w'. m w = (r, w') \<Longrightarrow> I w \<Longrightarrow> I w' \<and> Q r" and "\<And>r. Q r \<Longrightarrow> keeps I (k r)"
  shows "keeps I (attempt m k)"
  unfolding keeps_def
proof (intro allI impI)
  fix w assume I: "I w"
  obtain r w1 where m: "m w = (r, w1)" by fastforce
  then show "I (snd (attempt m k w))" using assms(1) [OF m I] assms(2) [of r] by (simp add: attempt_def keeps_def)
qed

lemma keeps_bind_result:
  assumes "\<And>w r w'. m w = (r, w') \<Longrightarrow> I w \<Longrightarrow> I w' \<and> (case r of Inl e \<Rightarrow> True | Inr x \<Rightarrow> Q x)" and "\<And>x. Q x \<Longrightarrow> keeps I (k x)"
  shows "keeps I (bind m k)"
  unfolding keeps_def
proof (intro allI impI)
  fix w assume I: "I w"
  obtain r w1 where m: "m w = (r, w1)" by fastforce
  show "I (snd (bind m k w))"
  proof (cases r)
    case (Inl e)
    then show ?thesis using assms(1) [OF m I] m by (simp add: bind_def)
  next
    case (Inr x)
    then show ?thesis using assms(1) [OF m I] assms(2) [of x] m by (simp add: bind_def keeps_def)
  qed
qed

lemma Update_manual: "\<not> sub_AutoRenew r \<Longrightarrow> keeps manual (SubscriptionRepo_Update r)"
  unfolding SubscriptionRepo_Update_def
  by (rule keeps_q_save) (auto simp: manual_def subs_get sub_cols subs_touch set_upd_rows)

lemma Create_manual: "\<not> sub_AutoRenew r \<Longrightarrow> keeps manual (SubscriptionRepo_Create r)"
  unfolding SubscriptionRepo_Create_def
  by (rule keeps_q_insert) (auto simp: manual_def subs_get sub_cols, simp add: subs_T_def)

definition manual_row :: "err + Subscription option \<Rightarrow> bool" where
  "manual_row r = (case r of Inr (Some s) \<Rightarrow> \<not> sub_AutoRenew s | _ \<Rightarrow> True)"

lemma manual_read:
  "SubscriptionRepo_GetByID i w = (r, w') \<Longrightarrow> manual w \<Longrightarrow> manual w' \<and> manual_row r"
  "SubscriptionRepo_GetActive a p w = (r, w') \<Longrightarrow> manual w \<Longrightarrow> manual w' \<and> manual_row r"
  unfolding SubscriptionRepo_GetByID_def SubscriptionRepo_GetActive_def
  by (auto simp: opt_row_def q_first_def stmt_def subs_get manual_def manual_row_def
      dest!: find_SomeD split: if_splits option.splits sum.splits prod.splits)

lemma reset_manual: "keeps manual (EntitlementService_ResetToFree a p)" "keeps manual (EntitlementService_SyncFromSubscription s)"
  by (auto intro!: keeps_manual_leaves ent_service_frames)

lemma Expire_manual [keeps_intros]: "keeps manual (SubscriptionService_Expire g i)"
  unfolding SubscriptionService_Expire_def
  by (rule keeps_attempt_result [where Q = manual_row, OF manual_read(1)])
    (auto simp: manual_row_def intro!: keeps_intros Update_manual split: sum.splits option.splits)

lemma EndGrace_manual [keeps_intros]: "keeps manual (SubscriptionService_EndGrace i)"
  unfolding SubscriptionService_EndGrace_def
  by (rule keeps_attempt_result [where Q = manual_row, OF manual_read(1)])
    (auto simp: manual_row_def intro!: keeps_intros Update_manual reset_manual split: sum.splits option.splits)

lemma Cancel_manual [keeps_intros]: "keeps manual (SubscriptionService_Cancel a p)"
  unfolding SubscriptionService_Cancel_def
  by (rule keeps_attempt_result [where Q = manual_row, OF manual_read(2)])
    (auto simp: manual_row_def intro!: keeps_intros Update_manual split: sum.splits option.splits)

lemma GetActive_wrapped:
  "wrap s (SubscriptionRepo_GetActive a p) w = (r, w') \<Longrightarrow> manual w \<Longrightarrow>
   manual w' \<and> (case r of Inl e \<Rightarrow> True | Inr o1 \<Rightarrow> manual_row (Inr o1))"
  by (cases "SubscriptionRepo_GetActive a p w") (auto simp: wrap_def dest: manual_read(2) split: sum.splits)

lemma Activate_manual [keeps_intros]: "keeps manual (SubscriptionService_Activate a p pl m e)"
proof -
  have plan: "keeps manual (ProductRepo_GetPlanByID pl)"
    unfolding ProductRepo_GetPlanByID_def by (auto intro!: keeps_intros)
  show ?thesis unfolding SubscriptionService_Activate_def
    by (intro keeps_attempt plan keeps_sum keeps_option keeps_fail
        keeps_bind_result [where Q = "\<lambda>o1. manual_row (Inr o1)", OF GetActive_wrapped])
      (auto intro!: keeps_intros Update_manual Create_manual reset_manual simp: manual_row_def Subscription0_def
        split: sum.splits option.splits)
qed

lemma RenewalState_manual [keeps_intros]: "keeps manual (SubscriptionRepo_UpdateRenewalState i n t)"
  unfolding SubscriptionRepo_UpdateRenewalState_def
  by (auto intro!: keeps_intros keeps_q_update simp: manual_def subs_get sub_cols subs_touch set_upd_rows)

lemma expiry_list_subs [leaves_intros]:
  "leaves subs SubscriptionService_ListActiveExpired" "leaves subs SubscriptionService_ListGraceExpired"
  using list_rows by (auto simp: leaves_def) (metis prod.collapse)+

lemma runExpiry_manual [keeps_intros]: "keeps manual (ExpiryJob_runExpiry g)"
proof -
  have "keeps manual (ExpiryJob_publishEvent ty a l p j)" for ty a l p j by (rule keeps_manual_leaves) (rule event_rows)
  then have "keeps manual (grace_round g x)" "keeps manual (downgrade_round x)" for x
    unfolding grace_round_def downgrade_round_def by (intro keeps_intros; assumption?)+
  then show ?thesis unfolding ExpiryJob_runExpiry_def
    by (intro keeps_intros keeps_manual_leaves [OF stale_orders_subs] keeps_manual_leaves [OF expiry_list_subs(1)]
        keeps_manual_leaves [OF expiry_list_subs(2)]; assumption?)
qed

lemma wallet_leaves_subs: "leaves subs (WalletService_Debit a x ty d rt ri p)" "leaves subs (WalletService_Credit a x ty d rt ri p)"
  unfolding WalletService_Debit_def WalletService_Credit_def WalletRepo_Debit_def WalletRepo_Credit_def
  by (auto intro!: leaves_intros simp: apart_def)

lemma processOne_manual [keeps_intros]: "keeps manual (RenewalJob_processOne s)"
proof -
  have ev: "keeps manual (RenewalJob_publishRenewalEvent ty a p j)" for ty a p j
    by (rule keeps_manual_leaves) (auto intro!: leaves_intros simp: apart_def)
  have plan: "keeps manual (ProductRepo_GetPlanByID i)" for i
    unfolding ProductRepo_GetPlanByID_def by (auto intro!: keeps_intros)
  show ?thesis unfolding RenewalJob_processOne_def Let_def
    by (intro keeps_intros plan ev keeps_manual_leaves [OF wallet_leaves_subs(1)] keeps_manual_leaves [OF wallet_leaves_subs(2)])
qed

lemma due_subs: "SubscriptionRepo_ListDueForRenewal w = (r, w') \<Longrightarrow> (case r of Inl e \<Rightarrow> True | Inr l \<Rightarrow> l = filter (due_for_renewal (clock w)) (subs w))
   \<and> w' = adv w"
  by (auto simp: SubscriptionRepo_ListDueForRenewal_def bind_def now_def q_find_def stmt_def subs_get split: if_splits)

lemma runRenewal_manual [keeps_intros]: "keeps manual RenewalJob_runRenewal"
proof -
  have "keeps manual SubscriptionRepo_ListDueForRenewal"
    unfolding SubscriptionRepo_ListDueForRenewal_def by (auto intro!: keeps_intros)
  then show ?thesis unfolding RenewalJob_runRenewal_def by (intro keeps_intros; assumption?)
qed

text \<open>Everything in the program that writes the subscriptions table, and the passing of time and failures.\<close>

datatype sub_step = Activates int string int string string | Expires int int | EndsGrace int | Cancels int string
  | ExpiryRuns int | RenewalRuns | RenewalStateSet int int "time option" | SubTick time "bool list"

fun sub_step_run :: "sub_step \<Rightarrow> world \<Rightarrow> world" where
  "sub_step_run (Activates a p pl m e) w = snd (SubscriptionService_Activate a p pl m e w)"
| "sub_step_run (Expires g i) w = snd (SubscriptionService_Expire g i w)"
| "sub_step_run (EndsGrace i) w = snd (SubscriptionService_EndGrace i w)"
| "sub_step_run (Cancels a p) w = snd (SubscriptionService_Cancel a p w)"
| "sub_step_run (ExpiryRuns g) w = snd (ExpiryJob_runExpiry g w)"
| "sub_step_run RenewalRuns w = snd (RenewalJob_runRenewal w)"
| "sub_step_run (RenewalStateSet i n t) w = snd (SubscriptionRepo_UpdateRenewalState i n t w)"
| "sub_step_run (SubTick t bs) w = w\<lparr>clock := t, faults := bs\<rparr>"

inductive sub_reach :: "world \<Rightarrow> world \<Rightarrow> bool" for w where
  start: "sub_reach w w"
| step: "sub_reach w v \<Longrightarrow> sub_reach w (sub_step_run x v)"

lemma step_manual: "manual w \<Longrightarrow> manual (sub_step_run x w)"
proof (cases x)
  case (SubTick t bs)
  then show "manual w \<Longrightarrow> manual (sub_step_run x w)" by (simp add: manual_def)
qed (auto simp: keeps_def [symmetric] intro!: keepsD [OF _ prod.collapse [symmetric]] keeps_intros)

text \<open>C25: Auto-renewal is dead code. From a state in which no subscription renews itself, whatever the
  services and jobs do, in any order, at any times and with any failures, no subscription ever
  does, and a renewal run finds nothing to renew: it scans no subscription, debits no wallet and
  activates nothing.\<close>

theorem renewal_never_runs:
  assumes "manual w" and "sub_reach w v"
  shows "manual v \<and> (\<exists>v'. RenewalJob_runRenewal v = (Inr (0, 0, 0), v') \<and> subs v' = subs v \<and> wallets v' = wallets v)"
proof -
  have m: "manual v" using assms(2,1) by induction (simp_all add: step_manual)
  obtain r v1 where l: "SubscriptionRepo_ListDueForRenewal v = (r, v1)" by fastforce
  note d = due_subs [OF l]
  have "filter (due_for_renewal (clock v)) (subs v) = []"
    using m by (auto simp: filter_empty_conv manual_def due_for_renewal_def)
  then have "RenewalJob_runRenewal v = (Inr (0, 0, 0), v1)"
    using d l by (auto simp: RenewalJob_runRenewal_def attempt_def bind_def ret_def split: sum.splits)
  then show ?thesis using m d by auto
qed

theorem renewal_never_runs_witness:
  "sub_AutoRenew (hd (subs (sub_step_run (ExpiryRuns 7) demo_due))) = False
   \<and> (\<exists>v'. RenewalJob_runRenewal (sub_step_run (ExpiryRuns 7) demo_due) = (Inr (0, 0, 0), v'))"
proof -
  have "manual demo_due" by (simp add: manual_def demo_due_def demo_live_def Subscription0_def)
  moreover have "sub_reach demo_due (sub_step_run (ExpiryRuns 7) demo_due)" by (intro sub_reach.intros)
  ultimately have "manual (sub_step_run (ExpiryRuns 7) demo_due)" and
    run: "\<exists>v'. RenewalJob_runRenewal (sub_step_run (ExpiryRuns 7) demo_due) = (Inr (0, 0, 0), v')"
    using renewal_never_runs by blast+
  moreover have "subs (sub_step_run (ExpiryRuns 7) demo_due) \<noteq> []" by code_simp
  ultimately show ?thesis by (auto simp: manual_def)
qed

section \<open>A renewal charges what it activates\<close>

definition renewed_row :: "Subscription \<Rightarrow> time \<Rightarrow> Subscription \<Rightarrow> bool" where
  "renewed_row sub n s \<longleftrightarrow> sub_AccountID s = sub_AccountID sub \<and> sub_ProductID s = sub_ProductID sub
     \<and> sub_PlanID s = sub_PlanID sub \<and> sub_Status s = SubStatusActive \<and> sub_StartedAt s = Some n"

lemma Activate_creates:
  assumes "SubscriptionService_Activate (sub_AccountID sub) (sub_ProductID sub) (sub_PlanID sub) m e w = (Inr s, w')"
  shows "\<exists>x\<in>set (subs w'). renewed_row sub (clock w') x"
proof -
  obtain w1 n w2 s1 where n: "now w1 = (Inr n, w1)" and
    c: "SubscriptionRepo_Create (Subscription0\<lparr>sub_AccountID := sub_AccountID sub, sub_ProductID := sub_ProductID sub,
        sub_PlanID := sub_PlanID sub, sub_Status := SubStatusActive, sub_StartedAt := Some n, sub_PaymentMethod := m,
        sub_ExternalSubID := e, sub_ExpiresAt := calculateExpiry n s1\<rparr>) w1 = (Inr s, w2)"
    and y: "w' = snd (EntitlementService_SyncFromSubscription s w2)"
    using assms by (auto simp: SubscriptionService_Activate_def ok_simps)
  have "leaves subs (EntitlementService_SyncFromSubscription s)" "leaves clock (EntitlementService_SyncFromSubscription s)"
    by (rule ent_service_frames(1); auto simp: apart_def)+
  then have "subs w' = subs w2" "clock w' = clock w2" by (simp_all add: y leaves_def)
  moreover have "n = clock w2" "s \<in> set (subs w2)" "renewed_row sub n s"
    using n c by (auto simp: now_def SubscriptionRepo_Create_def ok_simps subs_get sub_cols renewed_row_def)
      (auto simp: subs_T_def Subscription0_def or_default_def)
  ultimately show ?thesis by auto
qed

lemma wallets_leave:
  "leaves wallets (SubscriptionService_Activate a p pl m e)"
  "leaves transactions (SubscriptionService_Activate a p pl m e)"
  "leaves wallets (SubscriptionRepo_UpdateRenewalState i n t)"
  "leaves wallets (RenewalJob_publishRenewalEvent ty a p j)"
  "leaves wallets (ProductRepo_GetPlanByID i)"
  "leaves transactions (ProductRepo_GetPlanByID i)"
  "leaves subs (RenewalJob_publishRenewalEvent ty a p j)"
proof -
  have "leaves f (SubscriptionService_Activate a p pl m e)"
    if "stable f" "apart f subs_T" "apart f ents_T" "\<And>w g. f (w\<lparr>redis := g\<rparr>) = f w" for f :: "world \<Rightarrow> 'f"
    unfolding SubscriptionService_Activate_def SubscriptionRepo_GetActive_def SubscriptionRepo_Update_def
      SubscriptionRepo_Create_def ProductRepo_GetPlanByID_def
    using that by (auto intro!: leaves_intros split: sum.splits option.splits)
  from this [of wallets] this [of transactions]
  show "leaves wallets (SubscriptionService_Activate a p pl m e)" "leaves transactions (SubscriptionService_Activate a p pl m e)"
    by (simp_all add: apart_def)
qed (auto intro!: leaves_intros simp: apart_def SubscriptionRepo_UpdateRenewalState_def ProductRepo_GetPlanByID_def)

lemma processOne_success:
  assumes "RenewalJob_processOne sub w = (Inr u, w')"
  obtains plan v1 tx v2 s v3 where "ProductRepo_GetPlanByID (sub_PlanID sub) w = (Inr (Some plan), v1)"
    and "WalletService_Debit (sub_AccountID sub) (plan_PriceCNY plan) ''subscription_renewal''
        (''Auto-renewal for plan '' @ plan_Code plan) ''subscription'' (''renewal:sub:'' @ itoa (sub_ID sub)) (sub_ProductID sub) v1 = (Inr tx, v2)"
    and "SubscriptionService_Activate (sub_AccountID sub) (sub_ProductID sub) (sub_PlanID sub)
            (sub_PaymentMethod sub) (sub_ExternalSubID sub) v2 = (Inr s, v3)"
    and "RenewalJob_publishRenewalEvent ''identity.subscription.activated'' (sub_AccountID sub) (sub_ProductID sub)
               (renewed_payload sub plan) (snd (SubscriptionRepo_UpdateRenewalState (sub_ID sub) 0 None v3)) = (Inr u, w')"
  using assms by (auto simp: RenewalJob_processOne_def Let_def ok_simps)

lemma clock_leaves:
  "leaves clock (WalletService_Debit a x ty t rt ri q)"
  "leaves clock (SubscriptionService_Activate a p pl m e)"
  unfolding WalletService_Debit_def WalletRepo_Debit_def SubscriptionService_Activate_def SubscriptionRepo_GetActive_def
    SubscriptionRepo_Create_def ProductRepo_GetPlanByID_def
  by (auto intro!: leaves_intros ent_service_frames simp: apart_def split: sum.splits option.splits)

lemma renewed_row_kept:
  assumes "x \<in> set (subs w)" and "renewed_row sub n x"
  shows "\<exists>y\<in>set (subs (snd (SubscriptionRepo_UpdateRenewalState i k t w))). renewed_row sub n y"
proof -
  let ?f = "\<lambda>r. t_cols subs_T (t_touch subs_T (clock w) (r\<lparr>sub_RenewalAttempts := k, sub_NextRenewalAt := t\<rparr>))"
  have "subs (snd (SubscriptionRepo_UpdateRenewalState i k t w)) \<in> {subs w, upd_rows (\<lambda>r. sub_ID r = i) ?f (subs w)}"
    by (auto simp: SubscriptionRepo_UpdateRenewalState_def bind_def q_update_def stmt_def ret_def subs_get)
  moreover have "renewed_row sub n (if sub_ID x = i then ?f x else x)"
    using assms(2) by (simp add: renewed_row_def sub_cols subs_touch)
  ultimately show ?thesis using assms upd_rows_mem [OF assms(1), of "\<lambda>r. sub_ID r = i" ?f] by auto
qed

text \<open>C26: A renewal charges what it activates. Whatever fails, a renewal that reports success has taken
  exactly the price of the subscription's plan from its account, which covered it, has touched no
  other balance, and has left an active subscription of that plan that starts now.\<close>

theorem renewal_charges_activation:
  assumes "ledger_ok w" and "\<forall>q\<in>set (plans w). is_dec 4 (plan_PriceCNY q)"
    and "RenewalJob_processOne sub w = (Inr u, w')"
  shows "\<exists>plan b. plan \<in> set (plans w) \<and> plan_ID plan = sub_PlanID sub
    \<and> balance w (sub_AccountID sub) = Some b \<and> plan_PriceCNY plan \<le> b
    \<and> (\<forall>c. balance w' c = (if c = sub_AccountID sub then Some (b - plan_PriceCNY plan) else balance w c))
    \<and> (\<exists>s\<in>set (subs w'). renewed_row sub (clock w) s)"
proof -
  obtain plan v1 tx v2 s v3 where p: "ProductRepo_GetPlanByID (sub_PlanID sub) w = (Inr (Some plan), v1)"
    and d: "WalletService_Debit (sub_AccountID sub) (plan_PriceCNY plan) ''subscription_renewal''
        (''Auto-renewal for plan '' @ plan_Code plan) ''subscription'' (''renewal:sub:'' @ itoa (sub_ID sub)) (sub_ProductID sub) v1 = (Inr tx, v2)"
    and a: "SubscriptionService_Activate (sub_AccountID sub) (sub_ProductID sub) (sub_PlanID sub)
            (sub_PaymentMethod sub) (sub_ExternalSubID sub) v2 = (Inr s, v3)"
    and e: "RenewalJob_publishRenewalEvent ''identity.subscription.activated'' (sub_AccountID sub) (sub_ProductID sub)
               (renewed_payload sub plan) (snd (SubscriptionRepo_UpdateRenewalState (sub_ID sub) 0 None v3)) = (Inr u, w')"
    by (rule processOne_success [OF assms(3)])
  define v4 where "v4 = snd (SubscriptionRepo_UpdateRenewalState (sub_ID sub) 0 None v3)"
  have pl: "plan \<in> set (plans w)" "plan_ID plan = sub_PlanID sub" "v1 = adv w"
    using p by (auto simp: ProductRepo_GetPlanByID_def ok_simps dest!: find_SomeD)
  have ok: "ledger_ok v1" using assms(1) pl(3) by (simp add: ledger_ok_def ledger_of_def)
  have price: "is_dec 4 (plan_PriceCNY plan)" using assms(2) pl(1) by simp
  let ?m = "(''subscription_renewal'', ''Auto-renewal for plan '' @ plan_Code plan, ''subscription'', ''renewal:sub:'' @ itoa (sub_ID sub), sub_ProductID sub)"
  have dc: "debit_call (sub_AccountID sub) (plan_PriceCNY plan) ?m v1 = (True, v2)"
    using d by (simp add: WalletService_Debit_def succeeds_True)
  obtain b where b: "balance v1 (sub_AccountID sub) = Some b" "plan_PriceCNY plan \<le> b"
    using store.debit_covered [OF ok dc] by blast
  have bal: "balance v2 c = (if c = sub_AccountID sub then Some (b - plan_PriceCNY plan) else balance v1 c)" for c
    using store.debit_bal [OF ok price dc, of c] b(1) by auto
  have "wallets v3 = wallets v2" using leavesD [OF wallets_leave(1) a] .
  moreover have "wallets v4 = wallets v3" using wallets_leave(3) by (simp add: v4_def leaves_def)
  moreover have "wallets w' = wallets v4" using leavesD [OF wallets_leave(4) e] by (simp add: v4_def)
  ultimately have bal': "balance w' c = balance v2 c" for c by (simp add: balance_def)
  have "clock v2 = clock w" "clock v3 = clock v2"
    using leavesD [OF clock_leaves(1) d] leavesD [OF clock_leaves(2) a] pl(3) by simp_all
  then obtain x where "x \<in> set (subs v3)" "renewed_row sub (clock w) x" using Activate_creates [OF a] by auto
  then have "\<exists>x\<in>set (subs v4). renewed_row sub (clock w) x" unfolding v4_def by (rule renewed_row_kept)
  moreover have "subs w' = subs v4" using leavesD [OF wallets_leave(7) e] by (simp add: v4_def)
  ultimately have "\<exists>s\<in>set (subs w'). renewed_row sub (clock w) s" by simp
  moreover have "balance v1 c = balance w c" for c using pl(3) by (simp add: balance_def)
  ultimately show ?thesis using pl(1,2) b bal bal' by (intro exI [of _ plan] exI [of _ b]) auto
qed

definition demo_renewal :: world where
  "demo_renewal = demo_live\<lparr>
     wallets := [Wallet0\<lparr>wal_ID := 1, wal_AccountID := 7, wal_Balance := 100\<rparr>],
     transactions := [WalletTransaction0\<lparr>tx_ID := 1, tx_AccountID := 7, tx_Amount := 100, tx_BalanceAfter := 100\<rparr>],
     plans := [ProductPlan0\<lparr>plan_ID := 1, plan_ProductID := ''api'', plan_Code := ''pro'', plan_PriceCNY := 30,
        plan_BillingCycle := BillingCycleMonthly\<rparr>],
     entropy := [''u1'']\<rparr>"

theorem renewal_charges_activation_witness:
  "\<exists>w'. RenewalJob_processOne (hd (subs demo_renewal)) demo_renewal = (Inr (), w') \<and> balance w' 7 = Some 70"
proof -
  have ok: "ledger_ok demo_renewal" "\<forall>q\<in>set (plans demo_renewal). is_dec 4 (plan_PriceCNY q)"
    by (simp_all add: demo_renewal_def demo_live_def demo_plans_def world0_def ledger_ok_def ledger_of_def uniq_by_def Wallet0_def
        WalletTransaction0_def ProductPlan0_def is_dec_def)
  have "fst (RenewalJob_processOne (hd (subs demo_renewal)) demo_renewal) = Inr ()" by code_simp
  then obtain w' where r: "RenewalJob_processOne (hd (subs demo_renewal)) demo_renewal = (Inr (), w')" by (metis prod.collapse)
  moreover have "plans demo_renewal = [ProductPlan0\<lparr>plan_ID := 1, plan_ProductID := ''api'', plan_Code := ''pro'', plan_PriceCNY := 30,
        plan_BillingCycle := BillingCycleMonthly\<rparr>]" "sub_AccountID (hd (subs demo_renewal)) = 7" "balance demo_renewal 7 = Some 100"
    by (simp_all add: demo_renewal_def demo_live_def balance_def Wallet0_def Subscription0_def)
  ultimately show ?thesis using renewal_charges_activation [OF ok r] by auto
qed

end
