(* ===== verification/Checkout.thy ===== *)
theory Checkout
  imports Ownership Cron
begin

text \<open>
  Buying a plan with the balance of the wallet: what a checkout has done to balances and
  subscriptions when it answers, whatever fails on the way.
\<close>

lemma wallet_checkout_cases:
  assumes "wallet_checkout a p pid me w = (Inr r, w')"
  obtains (missing) "r = JSON 400 (GObj [(''error'', GStr ''plan not found'')])" "w' = snd (ProductService_GetPlanByID pid w)"
  | (unpaid) plan e v1 where "ProductService_GetPlanByID pid w = (Inr (Some plan), v1)" "0 < plan_PriceCNY plan"
      "WalletService_Debit a (plan_PriceCNY plan) TxTypeSubscription (subscribe_desc p) ''subscription'' '''' p v1 = (Inl e, w')"
      "r = JSON 402 (GObj [(''error'', GStr (err_text e))])"
  | (undone) "rs_status r = 400"
  | (paid) plan v1 v2 sub where "ProductService_GetPlanByID pid w = (Inr (Some plan), v1)"
      "if 0 < plan_PriceCNY plan
       then (\<exists>tx. WalletService_Debit a (plan_PriceCNY plan) TxTypeSubscription (subscribe_desc p) ''subscription'' '''' p v1 = (Inr tx, v2))
       else v2 = v1"
      "SubscriptionService_Activate a p pid me '''' v2 = (Inr sub, w')" "r = JSON 201 (GObj [(''subscription'', GSub sub)])"
proof -
  obtain x v1 where x: "ProductService_GetPlanByID pid w = (x, v1)" by fastforce
  show ?thesis
  proof (cases "\<exists>plan. x = Inr (Some plan)")
    case False
    then show ?thesis using assms x missing
      by (auto simp: wallet_checkout_def or_missing_def attempt_def err_json_def ret_def split: sum.splits option.splits)
  next
    case True
    then obtain plan where plan: "ProductService_GetPlanByID pid w = (Inr (Some plan), v1)" using x by blast
    let ?pay = "if 0 < plan_PriceCNY plan
        then bind (WalletService_Debit a (plan_PriceCNY plan) TxTypeSubscription (subscribe_desc p) ''subscription'' '''' p) (\<lambda>_. ret ())
        else ret ()"
    obtain y v2 where y: "?pay v1 = (y, v2)" by fastforce
    show ?thesis
    proof (cases y)
      case (Inl e)
      then have "0 < plan_PriceCNY plan"
        "WalletService_Debit a (plan_PriceCNY plan) TxTypeSubscription (subscribe_desc p) ''subscription'' '''' p v1 = (Inl e, v2)"
        using y by (auto simp: bind_def ret_def split: if_splits sum.splits prod.splits)
      moreover have "r = JSON 402 (GObj [(''error'', GStr (err_text e))])" "w' = v2"
        using assms plan y Inl by (simp_all add: wallet_checkout_def or_missing_def or_text_def attempt_def err_json_def ret_def)
      ultimately show ?thesis using unpaid plan by blast
    next
      case (Inr u)
      obtain z v3 where z: "SubscriptionService_Activate a p pid me '''' v2 = (z, v3)" by fastforce
      have run: "(case z of Inl e \<Rightarrow> bind (if 0 < plan_PriceCNY plan
               then ignore (WalletService_Credit a (plan_PriceCNY plan) ''subscription_payment_refund''
                 ''Subscription activation failed, auto-refund'' ''subscription'' '''' p)
               else ret ()) (\<lambda>_. err_json 400 (err_text e))
          | Inr sub \<Rightarrow> ok_json 201 [(''subscription'', GSub sub)]) v3 = (Inr r, w')"
        using assms plan y Inr z by (simp add: wallet_checkout_def or_missing_def or_text_def attempt_def)
      show ?thesis
      proof (cases z)
        case (Inl e)
        then have "rs_status r = 400" using run by (auto simp: bind_def err_json_def ret_def split: sum.splits prod.splits)
        then show ?thesis by (rule undone)
      next
        case z': (Inr sub)
        then have "r = JSON 201 (GObj [(''subscription'', GSub sub)])" "w' = v3" using run by (auto simp: ok_json_def ret_def)
        moreover have "if 0 < plan_PriceCNY plan
           then (\<exists>tx. WalletService_Debit a (plan_PriceCNY plan) TxTypeSubscription (subscribe_desc p) ''subscription'' '''' p v1 = (Inr tx, v2))
           else v2 = v1"
          using y Inr by (auto simp: bind_def ret_def split: if_splits sum.splits prod.splits)
        ultimately show ?thesis using paid [OF plan] z z' by blast
      qed
    qed
  qed
qed

text \<open>C39: A plan bought with the wallet is paid for. Whatever fails, a wallet checkout that answers 201
  has taken exactly the price of a plan with the requested id, which the balance covered, from the
  caller's account and nothing from any other, and has left an active subscription of the caller for
  the requested product that starts now, whichever product the plan belongs to; one that answers 402 has
  changed no balance and no subscription; there is no other answer but 400.\<close>

theorem wallet_checkout_settles:
  assumes "ledger_ok w" and "\<forall>q\<in>set (plans w). is_dec 4 (plan_PriceCNY q) \<and> 0 \<le> plan_PriceCNY q"
    and "wallet_checkout a p pid me w = (Inr r, w')"
  shows "rs_status r \<in> {201, 400, 402}
    \<and> (rs_status r = 201 \<longrightarrow> (\<exists>plan \<in> set (plans w). plan_ID plan = pid
        \<and> (0 < plan_PriceCNY plan \<longrightarrow> (\<exists>b. balance w a = Some b \<and> plan_PriceCNY plan \<le> b))
        \<and> (\<forall>c. balance w' c = (if c = a then map_option (\<lambda>b. b - plan_PriceCNY plan) (balance w a) else balance w c))
        \<and> (\<exists>s\<in>set (subs w'). live_for a p s \<and> sub_PlanID s = pid \<and> sub_StartedAt s = Some (clock w))))
    \<and> (rs_status r = 402 \<longrightarrow> (\<forall>c. balance w' c = balance w c) \<and> subs w' = subs w)"
  using assms(3)
proof (cases rule: wallet_checkout_cases)
  case missing
  then show ?thesis by simp
next
  case undone
  then show ?thesis by simp
next
  case (unpaid plan e v1)
  have v1: "v1 = adv w" using unpaid(1) by (auto simp: ProductService_GetPlanByID_def ProductRepo_GetPlanByID_def ok_simps)
  obtain u where "w' = rollback v1 u"
    using transaction_rollback [OF unpaid(3) [unfolded WalletService_Debit_def WalletRepo_Debit_def]] by blast
  then have "wallets w' = wallets v1" "subs w' = subs v1" by simp_all
  then show ?thesis using v1 unpaid(4) by (simp add: balance_def)
next
  case (paid plan v1 v2 sub)
  have pl: "plan \<in> set (plans w)" "plan_ID plan = pid" "v1 = adv w"
    using paid(1) by (auto simp: ProductService_GetPlanByID_def ProductRepo_GetPlanByID_def ok_simps dest!: find_SomeD)
  have ok: "ledger_ok v1" using assms(1) pl(3) by (simp add: ledger_ok_def ledger_of_def)
  have price: "is_dec 4 (plan_PriceCNY plan)" "0 \<le> plan_PriceCNY plan" using assms(2) pl(1) by simp_all
  have b1: "balance v1 c = balance w c" for c using pl(3) by (simp add: balance_def)
  have bal: "balance v2 c = (if c = a then map_option (\<lambda>b. b - plan_PriceCNY plan) (balance w a) else balance w c)
      \<and> (0 < plan_PriceCNY plan \<longrightarrow> (\<exists>b. balance w a = Some b \<and> plan_PriceCNY plan \<le> b)) \<and> clock v2 = clock w" for c
  proof (cases "0 < plan_PriceCNY plan")
    case True
    then obtain tx where d: "WalletService_Debit a (plan_PriceCNY plan) TxTypeSubscription (subscribe_desc p) ''subscription'' '''' p v1 = (Inr tx, v2)"
      using paid(2) by auto
    let ?m = "(TxTypeSubscription, subscribe_desc p, ''subscription'', [], p)"
    have dc: "debit_call a (plan_PriceCNY plan) ?m v1 = (True, v2)" using d by (simp add: WalletService_Debit_def succeeds_True)
    show ?thesis using store.debit_covered [OF ok dc] store.debit_bal [OF ok price(1) dc, of c] b1 leavesD [OF clock_leaves(1) d] pl(3) by auto
  next
    case False
    then show ?thesis using paid(2) price(2) pl(3) b1 by (auto simp: option.map_ident)
  qed
  have "wallets w' = wallets v2" "clock w' = clock v2"
    using leavesD [OF wallets_leave(1) paid(3)] leavesD [OF clock_leaves(2) paid(3)] by simp_all
  moreover have "\<exists>x\<in>set (subs w'). live_for a p x \<and> sub_PlanID x = pid \<and> sub_StartedAt x = Some (clock w')"
    using Activate_creates [of "Subscription0\<lparr>sub_AccountID := a, sub_ProductID := p, sub_PlanID := pid\<rparr>" me "''''" v2 sub w'] paid(3)
    by (auto simp: renewed_row_def live_for_def Subscription0_def)
  ultimately show ?thesis using pl(1,2) bal paid(4) by (auto simp: balance_def intro!: bexI [of _ plan])
qed

text \<open>The plan of a cheap product buys the product that was asked for.\<close>

definition demo_shop :: world where
  "demo_shop = demo_renewal\<lparr>plans := [ProductPlan0\<lparr>plan_ID := 1, plan_ProductID := ''lite'', plan_Code := ''lite'', plan_PriceCNY := 1,
     plan_BillingCycle := BillingCycleYearly\<rparr>]\<rparr>"

theorem wallet_checkout_settles_witness:
  "\<exists>r w'. wallet_checkout 7 ''api'' 1 ''wallet'' demo_shop = (Inr r, w') \<and> rs_status r = 201 \<and> balance w' 7 = Some 99
    \<and> (\<exists>s\<in>set (subs w'). live_for 7 ''api'' s \<and> sub_PlanID s = 1) \<and> map plan_ProductID (plans demo_shop) = [''lite'']"
proof -
  have ok: "ledger_ok demo_shop" "\<forall>q\<in>set (plans demo_shop). is_dec 4 (plan_PriceCNY q) \<and> 0 \<le> plan_PriceCNY q"
    by (simp_all add: demo_shop_def demo_renewal_def demo_live_def demo_plans_def world0_def ledger_ok_def ledger_of_def uniq_by_def Wallet0_def
        WalletTransaction0_def ProductPlan0_def is_dec_def)
  have "(case fst (wallet_checkout 7 ''api'' 1 ''wallet'' demo_shop) of Inl e \<Rightarrow> False | Inr r \<Rightarrow> rs_status r = 201)" by code_simp
  then obtain r where "fst (wallet_checkout 7 ''api'' 1 ''wallet'' demo_shop) = Inr r" and st: "rs_status r = 201" by (auto split: sum.splits)
  then obtain w' where run: "wallet_checkout 7 ''api'' 1 ''wallet'' demo_shop = (Inr r, w')" by (metis prod.collapse)
  have pl: "plans demo_shop = [ProductPlan0\<lparr>plan_ID := 1, plan_ProductID := ''lite'', plan_Code := ''lite'', plan_PriceCNY := 1,
     plan_BillingCycle := BillingCycleYearly\<rparr>]" and b: "balance demo_shop 7 = Some 100"
    by (simp_all add: demo_shop_def demo_renewal_def balance_def Wallet0_def)
  show ?thesis using wallet_checkout_settles [OF ok run] st pl b run by (intro exI [of _ r] exI [of _ w']) auto
qed

end
