(* ===== verification/Answers.thy ===== *)
theory Answers
  imports Routes
begin

text \<open>Every request is answered: no error of a statement, a command or a call outside leaves a handler.\<close>

lemma answers_calls [answers_intros]:
  "(\<And>x. answers (k x)) \<Longrightarrow> answers (or_error st t m k)" "(\<And>x. answers (k x)) \<Longrightarrow> answers (or_text st m k)"
  "(\<And>x. answers (k x)) \<Longrightarrow> answers (or_missing st t m1 k)" "(\<And>v. answers (h v)) \<Longrightarrow> answers (or_null g m h)"
  unfolding or_error_def or_text_def or_missing_def or_null_def by (intro answers_intros; assumption)+

lemma answers_list: "answers m \<Longrightarrow> (\<And>x xs. answers (k x xs)) \<Longrightarrow> answers (case ys of [] \<Rightarrow> m | x # xs \<Rightarrow> k x xs)"
  by (cases ys) simp_all

lemma answers_page_json [answers_intros]: "answers (page_json g p)"
  unfolding page_json_def by (rule answers_ok_json)

lemma answers_Let [answers_intros]: "answers (k t) \<Longrightarrow> answers (let x = t in k x)"
  by simp

lemma answers_link [answers_intros]: "answers (link_referrer code a)"
  unfolding link_referrer_def Let_def by (intro answers_intros)

lemma answers_set_all [answers_intros]: "answers (set_all by n items)"
proof (induction items)
  case (Cons it its)
  show ?case by (cases it) (simp only: set_all.simps, intro answers_intros Cons)
qed (simp only: set_all.simps, intro answers_intros)

lemma answers_found [answers_intros]: "answers (found_account m)"
  unfolding found_account_def by (intro answers_intros)

lemma answers_checkouts [answers_intros]:
  "answers (answer_checkout order urls)" "answers (wallet_checkout a p pl me)" "answers (order_checkout h a p pl me u)"
  unfolding answer_checkout_def wallet_checkout_def order_checkout_def by (intro answers_intros)+

lemmas handler_defs =
  AccountHandler_GetMe_def AccountHandler_UpdateMe_def AccountHandler_GetServices_def AccountHandler_GetMeOverview_def
  AccountHandler_GetMeReferral_def AccountHandler_AdminListAccounts_def AccountHandler_AdminGetAccount_def
  AccountHandler_AdminGrantEntitlement_def ProductHandler_ListProducts_def ProductHandler_ListPlans_def
  SubscriptionHandler_ListSubscriptions_def SubscriptionHandler_GetSubscription_def SubscriptionHandler_Checkout_def
  SubscriptionHandler_CancelSubscription_def WalletHandler_GetWallet_def WalletHandler_ListTransactions_def
  WalletHandler_Redeem_def WalletHandler_TopupInfo_def WalletHandler_CreateTopup_def WalletHandler_ListOrders_def
  WalletHandler_GetOrder_def WalletHandler_AdminAdjustWallet_def InvoiceHandler_GenerateInvoice_def InvoiceHandler_ListInvoices_def
  InvoiceHandler_GetInvoice_def InvoiceHandler_AdminList_def RefundHandler_RequestRefund_def RefundHandler_ListRefunds_def
  RefundHandler_GetRefund_def RefundHandler_AdminApprove_def RefundHandler_AdminReject_def CheckinHandler_GetStatus_def CheckinHandler_DoCheckin_def
  OrganizationHandler_Create_def OrganizationHandler_ListMine_def OrganizationHandler_Get_def OrganizationHandler_AddMember_def
  OrganizationHandler_RemoveMember_def OrganizationHandler_ListAPIKeys_def OrganizationHandler_CreateAPIKey_def
  OrganizationHandler_RevokeAPIKey_def OrganizationHandler_GetWallet_def OrganizationHandler_ResolveAPIKey_def
  OrganizationHandler_AdminList_def OrganizationHandler_AdminUpdateStatus_def
  InternalHandler_GetAccountByZitadelSub_def InternalHandler_UpsertAccount_def InternalHandler_GetAccountByEmail_def
  InternalHandler_GetAccountByPhone_def InternalHandler_GetAccountByOAuth_def InternalHandler_GetEntitlements_def
  InternalHandler_GetSubscription_def InternalHandler_GetAccountOverview_def InternalHandler_ReportUsage_def
  InternalHandler_DebitWallet_def InternalHandler_CreditWallet_def InternalHandler_GetWalletBalance_def InternalHandler_ValidateSession_def
  ProductHandler_AdminCreateProduct_def ProductHandler_AdminUpdateProduct_def ProductHandler_AdminCreatePlan_def
  ProductHandler_AdminUpdatePlan_def AdminConfigHandler_ListSettings_def AdminConfigHandler_UpdateSettings_def AdminConfigHandler_UploadQRCode_def
  AdminConfigHandler_GetPublicQRCode_def AdminOpsHandler_BatchGenerateCodes_def ReportHandler_FinancialReport_def

lemma handlers_answer [answers_intros]:
  "answers (ProductHandler_AdminCreateProduct c)" "answers (ProductHandler_AdminUpdateProduct c)"
  "answers (ProductHandler_AdminCreatePlan c)" "answers (ProductHandler_AdminUpdatePlan c)"
  "answers (AccountHandler_GetMe c)" "answers (AccountHandler_UpdateMe c)" "answers (AccountHandler_GetServices c)"
  "answers (AccountHandler_GetMeOverview c)" "answers (AccountHandler_GetMeReferral c)"
  "answers (AccountHandler_AdminListAccounts c)" "answers (AccountHandler_AdminGetAccount c)"
  "answers (AccountHandler_AdminGrantEntitlement c)" "answers (ProductHandler_ListProducts c)"
  "answers (ProductHandler_ListPlans c)" "answers (SubscriptionHandler_ListSubscriptions c)"
  "answers (SubscriptionHandler_GetSubscription c)" "answers (SubscriptionHandler_Checkout k c)"
  "answers (SubscriptionHandler_CancelSubscription c)" "answers (WalletHandler_GetWallet c)"
  "answers (WalletHandler_ListTransactions c)" "answers (WalletHandler_Redeem c)" "answers (WalletHandler_TopupInfo k c)"
  "answers (WalletHandler_CreateTopup k c)" "answers (WalletHandler_ListOrders c)" "answers (WalletHandler_GetOrder c)"
  "answers (WalletHandler_AdminAdjustWallet c)" "answers (InvoiceHandler_GenerateInvoice c)"
  "answers (InvoiceHandler_ListInvoices c)" "answers (InvoiceHandler_GetInvoice c)" "answers (InvoiceHandler_AdminList c)"
  "answers (RefundHandler_RequestRefund c)" "answers (RefundHandler_ListRefunds c)" "answers (RefundHandler_GetRefund c)"
  "answers (RefundHandler_AdminApprove c)" "answers (RefundHandler_AdminReject c)" "answers (CheckinHandler_GetStatus c)"
  "answers (CheckinHandler_DoCheckin c)" "answers (OrganizationHandler_Create c)" "answers (OrganizationHandler_ListMine c)"
  "answers (OrganizationHandler_Get c)" "answers (OrganizationHandler_AddMember c)"
  "answers (OrganizationHandler_RemoveMember c)" "answers (OrganizationHandler_ListAPIKeys c)"
  "answers (OrganizationHandler_CreateAPIKey c)" "answers (OrganizationHandler_RevokeAPIKey c)"
  "answers (OrganizationHandler_GetWallet c)" "answers (OrganizationHandler_ResolveAPIKey c)"
  "answers (OrganizationHandler_AdminList c)" "answers (OrganizationHandler_AdminUpdateStatus c)"
  "answers (InternalHandler_GetAccountByZitadelSub c)" "answers (InternalHandler_UpsertAccount c)"
  "answers (InternalHandler_GetAccountByEmail c)" "answers (InternalHandler_GetAccountByPhone c)"
  "answers (InternalHandler_GetAccountByOAuth c)" "answers (InternalHandler_GetEntitlements c)"
  "answers (InternalHandler_GetSubscription c)" "answers (InternalHandler_GetAccountOverview c)"
  "answers (InternalHandler_ReportUsage c)" "answers (InternalHandler_DebitWallet c)" "answers (InternalHandler_CreditWallet c)"
  "answers (InternalHandler_GetWalletBalance c)" "answers (InternalHandler_ValidateSession sec c)"
  "answers (AdminConfigHandler_ListSettings c)" "answers (AdminConfigHandler_UpdateSettings c)"
  "answers (AdminConfigHandler_UploadQRCode c)" "answers (AdminConfigHandler_GetPublicQRCode c)"
  "answers (AdminOpsHandler_BatchGenerateCodes c)" "answers (ReportHandler_FinancialReport c)"
  unfolding handler_defs with_org_def by (intro answers_intros)+

lemma routes_answer:
  "list_all (\<lambda>rt. answers (snd (snd rt) c)) (v1_routes s)" "list_all (\<lambda>rt. answers (snd (snd rt) c)) (internal_routes s)"
  "list_all (\<lambda>rt. answers (snd (snd rt) c)) admin_routes" "list_all (\<lambda>rt. answers (snd (snd rt) c)) (webhook_routes s)"
  by (simp_all add: v1_routes_def internal_routes_def admin_routes_def webhook_routes_def handlers_answer webhooks_answer)

lemma answers_abort [answers_intros]: "answers (abort s t)"
  unfolding abort_def by (intro answers_intros)

lemma answers_limiter [answers_intros]: "answers (Limiter_PerIP b g ip)" "answers (Limiter_PerUser b g a)"
  unfolding Limiter_PerIP_def Limiter_PerUser_def Limiter_allow_def by (intro answers_intros)+

lemma guards_answer:
  "answers (user_guard s c)" "answers (internalKeyAuth k c)" "answers (JWTMiddleware_AdminAuth m c)" "answers (ip_limit s ip c)"
  unfolding user_guard_def internalKeyAuth_def JWTMiddleware_AdminAuth_def JWTMiddleware_Auth_def ip_limit_def user_limit_def
  by (intro answers_intros)+

lemma guarded_answers:
  assumes "\<And>c. answers (guard c)" and "\<And>c. list_all (\<lambda>rt. answers (snd (snd rt) c)) rs"
  shows "answers (guarded guard rs meth path c)"
proof -
  have "answers (h c')" if "find_route rs meth path = Some (h, ps)" for h ps c'
    using find_route_in [OF that] assms(2) [of c'] by (auto simp: list_all_iff)
  then show ?thesis unfolding guarded_def not_found_def
    by (auto intro!: answers_intros assms(1) split: option.split sum.split)
qed


end
