(* ===== verification/Spec2Isabelle.thy ===== *)
theory Spec2Isabelle
  imports Checkout Answers
begin

text \<open>
  A model of \<^verbatim>\<open>lurus-identity\<close>, the service that keeps the accounts, wallets,
  subscriptions and organizations of a group of products.

  \<^bold>\<open>The program.\<close> Requests reach gin handlers (\<^verbatim>\<open>internal/adapter/handler\<close>) through the
  router and its guards; handlers call services (\<^verbatim>\<open>internal/app\<close>), services call
  repositories over PostgreSQL (\<^verbatim>\<open>internal/adapter/repo\<close>), caches and locks in Redis
  (\<^verbatim>\<open>internal/pkg\<close>), payment providers and an outbox of NATS messages. Scheduled jobs
  (\<^verbatim>\<open>internal/app/cron\<close>) expire, renew and remind. Everything of one request happens in order;
  requests interleave only between the statements of the model that a property quantifies over.

  \<^bold>\<open>State and effects.\<close> \<open>World\<close> holds the record \<open>world\<close>: one list of rows per table, the
  sequences, the Redis key space, the published messages, the clock, the random source and the
  stream of faults. An operation is a function from a world to an error or a value and the next world; every
  SQL statement and Redis command may fail by the fault stream, and \<open>transaction\<close> rolls back.
  \<open>Tables\<close> gives each table its columns (decimal rounding, defaults, unique keys) from the
  migrations, \<open>Entities\<close> the structs, \<open>Calendar\<close>, \<open>Money\<close>, \<open>Encoding\<close> and \<open>Prelude\<close> the parts of
  the Go library that the program computes with. \<open>Interfaces\<close> states the contracts between
  components as locales; the providers' theories interpret them.

  \<^bold>\<open>Theories and code.\<close>
  \<open>WalletRepo\<close>, \<open>WalletService\<close>: repo/wallet.go, app/wallet\_service.go;
  \<open>VIP\<close>: repo/vip.go, app/vip\_service.go;
  \<open>Redis\<close>: pkg/cache, pkg/idempotency;
  \<open>Entitlements\<close>, \<open>Subscriptions\<close>: repo/product.go, repo/subscription.go, the product, entitlement and subscription services;
  \<open>Outbox\<close>: pkg/event, adapter/nats/publisher.go, repo/outbox.go, cron/outbox\_relay.go;
  \<open>Refunds\<close>, \<open>Invoices\<close>, \<open>Accounts\<close>, \<open>Referral\<close>, \<open>Checkins\<close>, \<open>Organizations\<close>, \<open>Overview\<close>: the repositories and
  services of these names;
  \<open>Cron\<close>: cron/expiry.go, cron/renewal.go, cron/notification.go, pkg/email;
  \<open>Sessions\<close>, \<open>Auth\<close>: pkg/auth and the account lookup of cmd/server/main.go;
  \<open>RateLimit\<close>: pkg/ratelimit; \<open>AdminConfig\<close>: pkg/config, repo/admin\_settings.go, app/admin\_config\_service.go;
  \<open>Payments\<close>: adapter/payment; \<open>Http\<close>: what handlers use of gin;
  \<open>Webhooks\<close>, \<open>Handlers\<close>, \<open>OrgHandlers\<close>, \<open>AdminHandlers\<close>: adapter/handler;
  \<open>Routes\<close>: handler/router/router.go. An operation is named after its receiver and method, a field after a
  prefix of its struct.

  \<^bold>\<open>What is shown.\<close> Money: balances follow the ledger, debits never overdraw, an order is paid, a refund
  settled and a reward given at most once, callbacks credit once however often they come, a wallet
  checkout takes the price it promises (\<open>Checkout\<close>). Subscriptions: an activation replaces the live one, the expiry job refines an abstract life
  cycle, entitlements read back what was synchronised. Messages: the outbox delivers at least once and
  drains. Access: who passes the guards, that user routes neither touch nor show what belongs to
  another account (\<open>Routes\<close>, \<open>Ownership\<close>), that session tokens are signed and expire, that API keys
  live until revoked. Every request is answered (\<open>Answers\<close>). Several theorems show what the code does
  against its intent: a callback whose processing failed is lost, dead messages block the relay, a
  renewal never runs.

  \<^bold>\<open>Conventions.\<close> The clock is in UTC and stands still during an operation. Monetary floats are rationals,
  except where a conversion truncates. A loop over rows is a recursion over the list that was read;
  the JSON parser has fuel twice the length of its text plus two, and every nested value consumes a character;
  the loop that draws redemption codes has the fuel of its own retry bound. Words appear where the
  code depends on their width: 16-bit levels, SHA-256. GORM's automatic \<open>updated_at\<close>
  of the row in memory is not written back. A recovered panic is status 500. Of two
  processes only the interleavings that a property names are considered.

  \<^bold>\<open>Parameters.\<close> Code outside the repository is an argument with named hypotheses: RSA and ECDSA
  verification and the HTTP exchange of the key set, the clients of Stripe, Creem and epay, the
  SMTP dialogue.

  \<^bold>\<open>Not modelled.\<close> Tracing, metrics and logging (no state of the program); wiring and shutdown in cmd/server;
  registration, password reset and SMS; the WeChat and Zitadel login pages and their HTTP clients; the proxy to the gateway;
  the gRPC server, whose messages are generated; the web front end.
\<close>

end
